(* ===== verification/Prelude.thy ===== *)
theory Prelude
  imports Main "HOL-Library.Word" "HOL-Library.AList" "HOL-Library.State_Monad"
    "HOL-Library.Sublist"
begin

text \<open>
  Shared vocabulary of the development.

  \<^item> Go values: errors (\<open>err\<close>), the outcome of a call that may panic (\<open>outcome\<close>), Go maps
    (\<open>gomap\<close>, a nil map or an association list without repeated keys).
  \<^item> Effects: a function of the source that reads or writes the process state or calls out of
    the process is a computation \<open>('s, 'a) state\<close> of \<open>HOL-Library.State_Monad\<close>.
  \<^item> Two interfaces that several components implement: \<open>bounded_retry\<close>, the contract of a
    retry loop with a fixed number of attempts, and \<open>transition_system\<close>, reachability and
    invariants of a step relation.
\<close>

named_theorems go_defs \<open>unfolding rules for the operations of the model\<close>
named_theorems frame \<open>what an operation leaves unchanged\<close>
named_theorems wp \<open>weakest-precondition rules, one per construct and per operation\<close>

section \<open>Go values\<close>

text \<open>A Go \<open>error\<close>: \<open>None\<close> is \<open>nil\<close>, \<open>Some m\<close> an error whose \<open>Error()\<close> text is \<open>m\<close>.\<close>

type_synonym err = "string option"

abbreviation nil_err :: err where
  "nil_err \<equiv> None"

text \<open>The text of an error under the verb \<open>%v\<close>; a nil error prints as \<open><nil>\<close>.\<close>

definition fmt_err :: "err \<Rightarrow> string" where
  "fmt_err e = (case e of None \<Rightarrow> ''<nil>'' | Some m \<Rightarrow> m)"

text \<open>
  A call that may panic or wait: it returns a value, or the goroutine panics with a message, or
  the call is still in one of its unbounded loops when the fuel given to that loop is used up.
\<close>

datatype 'a outcome = Done 'a | Panicked string | Running

text \<open>
  A Go map from strings: \<open>NilMap\<close> reads like an empty map and panics on assignment. The
  association list of \<open>GoMap\<close> is in the order in which a \<open>range\<close> loop meets the keys; Go leaves
  that order open, so no theorem may depend on it.
\<close>

datatype 'v gomap = NilMap | GoMap "(string \<times> 'v) list"

type_synonym smap = "string gomap"

fun entries :: "'v gomap \<Rightarrow> (string \<times> 'v) list" where
  "entries NilMap = []"
| "entries (GoMap al) = al"

definition gm_lookup :: "'v gomap \<Rightarrow> string \<Rightarrow> 'v option" where
  "gm_lookup m k = map_of (entries m) k"

text \<open>\<open>m[k]\<close> on a string map: the empty string when the key is absent.\<close>

definition gm_get :: "smap \<Rightarrow> string \<Rightarrow> string" where
  "gm_get m k = (case gm_lookup m k of None \<Rightarrow> [] | Some v \<Rightarrow> v)"

text \<open>\<open>m[k] = v\<close>: \<open>None\<close> is the panic of an assignment to an entry of a nil map.\<close>

fun gm_put :: "'v gomap \<Rightarrow> string \<Rightarrow> 'v \<Rightarrow> 'v gomap option" where
  "gm_put NilMap k v = None"
| "gm_put (GoMap al) k v = Some (GoMap (AList.update k v al))"

text \<open>\<open>delete(m, k)\<close>: no effect on a nil map.\<close>

fun gm_delete :: "'v gomap \<Rightarrow> string \<Rightarrow> 'v gomap" where
  "gm_delete NilMap k = NilMap"
| "gm_delete (GoMap al) k = GoMap (AList.delete k al)"

text \<open>\<open>maps.Copy(dst, src)\<close>: assigns every entry of \<open>src\<close>; a nil \<open>dst\<close> panics when \<open>src\<close> has entries.\<close>

definition gm_copy :: "'v gomap \<Rightarrow> 'v gomap \<Rightarrow> 'v gomap option" where
  "gm_copy dst src =
     fold (\<lambda>(k, v) acc. Option.bind acc (\<lambda>m. gm_put m k v)) (entries src) (Some dst)"

definition gm_wf :: "'v gomap \<Rightarrow> bool" where
  "gm_wf m \<longleftrightarrow> distinct (map fst (entries m))"

abbreviation nil_map_panic :: string where
  "nil_map_panic \<equiv> ''assignment to entry in nil map''"

abbreviation nil_deref_panic :: string where
  "nil_deref_panic \<equiv> ''invalid memory address or nil pointer dereference''"

abbreviation index_panic :: string where
  "index_panic \<equiv> ''index out of range''"

section \<open>Lemmas on Go maps\<close>

lemma gm_get_nil [simp]: "gm_get NilMap k = []"
  by (simp add: gm_get_def gm_lookup_def)

lemma gm_lookup_put:
  "gm_put m k v = Some m' \<Longrightarrow> gm_lookup m' j = (if j = k then Some v else gm_lookup m j)"
  by (cases m) (auto simp: gm_lookup_def update_conv')

lemma gm_get_put:
  "gm_put m k v = Some m' \<Longrightarrow> gm_get m' j = (if j = k then v else gm_get m j)"
  by (simp add: gm_get_def gm_lookup_put)

lemma gm_put_wf: "gm_wf m \<Longrightarrow> gm_put m k v = Some m' \<Longrightarrow> gm_wf m'"
  by (cases m) (auto simp: gm_wf_def distinct_update)

lemma gm_put_not_nil: "gm_put m k v = Some m' \<Longrightarrow> m' \<noteq> NilMap"
  by (cases m) auto

lemma gm_put_Some_iff: "(\<exists>m'. gm_put m k v = Some m') \<longleftrightarrow> m \<noteq> NilMap"
  by (cases m) auto

lemma gm_lookup_delete:
  "gm_lookup (gm_delete m k) j = (if j = k then None else gm_lookup m j)"
  by (cases m) (auto simp: gm_lookup_def delete_conv')

lemma gm_delete_wf: "gm_wf m \<Longrightarrow> gm_wf (gm_delete m k)"
  by (cases m) (auto simp: gm_wf_def distinct_delete)

lemma gm_lookup_in_entries:
  "gm_wf m \<Longrightarrow> gm_lookup m k = Some v \<longleftrightarrow> (k, v) \<in> set (entries m)"
  by (simp add: gm_wf_def gm_lookup_def)

lemma gm_keys_lookup: "k \<in> fst ` set (entries m) \<longleftrightarrow> gm_lookup m k \<noteq> None"
  by (simp add: gm_lookup_def map_of_eq_None_iff)

lemma gm_copy_not_nil: "gm_copy (GoMap al) src \<noteq> None"
proof -
  have "fold (\<lambda>(k, v) acc. Option.bind acc (\<lambda>m. gm_put m k v)) es (Some (GoMap al)) \<noteq> None"
    for es :: "(string \<times> 'a) list"
    by (induction es arbitrary: al) auto
  then show ?thesis by (simp add: gm_copy_def)
qed

section \<open>Lemmas on computations\<close>

text \<open>A computation keeps a component \<open>f\<close> of the state.\<close>

definition keeps :: "('s \<Rightarrow> 'b) \<Rightarrow> ('s, 'a) state \<Rightarrow> bool" where
  "keeps f m \<longleftrightarrow> (\<forall>s. f (snd (run_state m s)) = f s)"

lemma keepsD: "keeps f m \<Longrightarrow> run_state m s = (a, s') \<Longrightarrow> f s' = f s"
  unfolding keeps_def by (metis snd_conv)

lemma keeps_return [frame, simp]: "keeps f (State_Monad.return x)"
  by (simp add: keeps_def)

lemma keeps_get [frame, simp]: "keeps f State_Monad.get"
  by (simp add: keeps_def)

lemma keeps_bind [frame]:
  "keeps f m \<Longrightarrow> (\<And>x. keeps f (g x)) \<Longrightarrow> keeps f (State_Monad.bind m g)"
  by (simp add: keeps_def split: prod.split) (metis snd_conv)

lemma keeps_update [frame]:
  "(\<And>s. f (h s) = f s) \<Longrightarrow> keeps f (State_Monad.update h)"
  by (simp add: keeps_def State_Monad.update_def)

lemma keeps_case_option [frame]:
  "(x = None \<Longrightarrow> keeps f a) \<Longrightarrow> (\<And>y. x = Some y \<Longrightarrow> keeps f (b y)) \<Longrightarrow> keeps f (case x of None \<Rightarrow> a | Some y \<Rightarrow> b y)"
  by (cases x) auto

lemma keeps_case_list [frame]:
  "keeps f a \<Longrightarrow> (\<And>y ys. keeps f (b y ys)) \<Longrightarrow> keeps f (case x of [] \<Rightarrow> a | y # ys \<Rightarrow> b y ys)"
  by (cases x) auto

lemma keeps_case_prod [frame]:
  "(\<And>y z. keeps f (b y z)) \<Longrightarrow> keeps f (case x of (y, z) \<Rightarrow> b y z)"
  by (cases x) auto

lemma keeps_case_sum [frame]:
  "(\<And>y. keeps f (a y)) \<Longrightarrow> (\<And>y. keeps f (b y)) \<Longrightarrow> keeps f (case x of Inl y \<Rightarrow> a y | Inr y \<Rightarrow> b y)"
  by (cases x) auto

lemma keeps_if [frame]: "keeps f a \<Longrightarrow> keeps f b \<Longrightarrow> keeps f (if c then a else b)"
  by simp

lemma keeps_let [frame]: "keeps f (b x) \<Longrightarrow> keeps f (let y = x in b y)"
  by simp

lemma keeps_case_outcome [frame]:
  "(\<And>y. keeps f (a y)) \<Longrightarrow> (\<And>y. keeps f (b y)) \<Longrightarrow> keeps f c \<Longrightarrow>
   keeps f (case x of Done y \<Rightarrow> a y | Panicked y \<Rightarrow> b y | Running \<Rightarrow> c)"
  by (cases x) auto

text \<open>Taking a run of a computation apart, step by step.\<close>

lemma run_bindE:
  assumes "run_state (State_Monad.bind m f) s = (r, t)"
  obtains a u where "run_state m s = (a, u)" and "run_state (f a) u = (r, t)"
  using assms by (auto split: prod.splits)

lemma run_updateE:
  assumes "run_state (State_Monad.update h) s = (r, t)"
  obtains "t = h s"
  using assms by (auto simp: State_Monad.update_def)

lemma run_update [simp]: "run_state (State_Monad.update h) s = ((), h s)"
  by (simp add: State_Monad.update_def)

subsection \<open>Weakest preconditions\<close>

text \<open>
  \<open>wp m Q s\<close>: the computation \<open>m\<close> started in \<open>s\<close> ends with a result and a state that satisfy \<open>Q\<close>.
  The rules of the collection \<open>wp\<close> take a handler apart along its code; an operation with a lemma
  on its effect adds a rule of its own.
\<close>

definition wp :: "('s, 'a) state \<Rightarrow> ('a \<Rightarrow> 's \<Rightarrow> bool) \<Rightarrow> 's \<Rightarrow> bool" where
  "wp m Q s \<longleftrightarrow> Q (fst (run_state m s)) (snd (run_state m s))"

lemma wpD: "wp m Q s \<Longrightarrow> run_state m s = (a, t) \<Longrightarrow> Q a t"
  by (simp add: wp_def)

lemma wp_run: "(\<And>a t. run_state m s = (a, t) \<Longrightarrow> Q a t) \<Longrightarrow> wp m Q s"
  by (cases "run_state m s") (simp add: wp_def)

lemma wp_mono: "wp m P s \<Longrightarrow> (\<And>a t. P a t \<Longrightarrow> Q a t) \<Longrightarrow> wp m Q s"
  by (simp add: wp_def)

lemma wp_return [wp]: "Q x s \<Longrightarrow> wp (State_Monad.return x) Q s"
  by (simp add: wp_def)

lemma wp_get [wp]: "Q s s \<Longrightarrow> wp State_Monad.get Q s"
  by (simp add: wp_def)

lemma wp_update [wp]: "Q () (h s) \<Longrightarrow> wp (State_Monad.update h) Q s"
  by (simp add: wp_def)

lemma wp_bind [wp]: "wp m (\<lambda>a. wp (f a) Q) s \<Longrightarrow> wp (State_Monad.bind m f) Q s"
  by (cases "run_state m s") (simp add: wp_def)

lemma wp_if [wp]: "(c \<Longrightarrow> wp a Q s) \<Longrightarrow> (\<not> c \<Longrightarrow> wp b Q s) \<Longrightarrow> wp (if c then a else b) Q s"
  by simp

lemma wp_let [wp]: "(\<And>y. y = x \<Longrightarrow> wp (b y) Q s) \<Longrightarrow> wp (let y = x in b y) Q s"
  by simp

lemma wp_case_option [wp]:
  "(x = None \<Longrightarrow> wp a Q s) \<Longrightarrow> (\<And>y. x = Some y \<Longrightarrow> wp (b y) Q s) \<Longrightarrow>
   wp (case x of None \<Rightarrow> a | Some y \<Rightarrow> b y) Q s"
  by (cases x) auto

lemma wp_case_prod [wp]:
  "(\<And>y z. x = (y, z) \<Longrightarrow> wp (b y z) Q s) \<Longrightarrow> wp (case x of (y, z) \<Rightarrow> b y z) Q s"
  by (cases x) auto

lemma wp_case_sum [wp]:
  "(\<And>y. x = Inl y \<Longrightarrow> wp (a y) Q s) \<Longrightarrow> (\<And>y. x = Inr y \<Longrightarrow> wp (b y) Q s) \<Longrightarrow>
   wp (case x of Inl y \<Rightarrow> a y | Inr y \<Rightarrow> b y) Q s"
  by (cases x) auto

lemma wp_case_outcome [wp]:
  "(\<And>y. x = Done y \<Longrightarrow> wp (a y) Q s) \<Longrightarrow> (\<And>y. x = Panicked y \<Longrightarrow> wp (b y) Q s) \<Longrightarrow>
   (x = Running \<Longrightarrow> wp c Q s) \<Longrightarrow>
   wp (case x of Done y \<Rightarrow> a y | Panicked y \<Rightarrow> b y | Running \<Rightarrow> c) Q s"
  by (cases x) auto

lemma wp_case_list [wp]:
  "(x = [] \<Longrightarrow> wp a Q s) \<Longrightarrow> (\<And>y ys. x = y # ys \<Longrightarrow> wp (b y ys) Q s) \<Longrightarrow>
   wp (case x of [] \<Rightarrow> a | y # ys \<Rightarrow> b y ys) Q s"
  by (cases x) auto

lemma wp_keeps: "keeps f m \<Longrightarrow> (\<And>a t. f t = f s \<Longrightarrow> Q a t) \<Longrightarrow> wp m Q s"
  by (simp add: keeps_def wp_def)

section \<open>The contract of a bounded retry loop\<close>

text \<open>
  A loop makes at most \<open>n\<close> attempts. An attempt yields an answer; \<open>verdict\<close> tells whether the
  answer ends the loop and with which result. Otherwise the loop notes the answer (\<open>carry\<close>),
  pauses and goes on. With no attempt left it returns what it carries.
\<close>

locale bounded_retry =
  fixes attempt :: "nat \<Rightarrow> 's \<Rightarrow> 'a \<times> 's"
    and verdict :: "'a \<Rightarrow> 'r option"
    and carry :: "'r \<Rightarrow> 'a \<Rightarrow> 'r"
    and pause :: "nat \<Rightarrow> 's \<Rightarrow> 's"
    and loop :: "nat \<Rightarrow> 'r \<Rightarrow> 's \<Rightarrow> 'r \<times> 's"
  assumes loop_0: "loop 0 r s = (r, s)"
    and loop_Suc: "loop (Suc n) r s =
      (case attempt n s of (a, t) \<Rightarrow>
        (case verdict a of Some x \<Rightarrow> (x, t) | None \<Rightarrow> loop n (carry r a) (pause n t)))"
begin

text \<open>The state in which the loop stands after \<open>k\<close> failed attempts, with \<open>n\<close> to start with.\<close>

fun before_attempt :: "nat \<Rightarrow> nat \<Rightarrow> 's \<Rightarrow> 's" where
  "before_attempt n 0 s = s"
| "before_attempt n (Suc k) s = before_attempt (n - 1) k (pause (n - 1) (snd (attempt (n - 1) s)))"

text \<open>The answer of attempt number \<open>k\<close> (from 0).\<close>

definition answer :: "nat \<Rightarrow> nat \<Rightarrow> 's \<Rightarrow> 'a" where
  "answer n k s = fst (attempt (n - 1 - k) (before_attempt n k s))"

lemma answer_0: "answer (Suc n) 0 s = fst (attempt n s)"
  by (simp add: answer_def)

lemma answer_Suc:
  "k < n \<Longrightarrow> answer (Suc n) (Suc k) s = answer n k (pause n (snd (attempt n s)))"
  by (simp add: answer_def)

lemma loop_step:
  assumes "verdict (fst (attempt n s)) = None"
  shows "loop (Suc n) r s = loop n (carry r (fst (attempt n s))) (pause n (snd (attempt n s)))"
  using assms by (cases "attempt n s") (simp add: loop_Suc)

lemma loop_succeeds:
  assumes "k < n" and "verdict (answer n k s) = Some x"
    and "\<And>j. j < k \<Longrightarrow> verdict (answer n j s) = None"
  shows "fst (loop n r s) = x"
  using assms
proof (induction k arbitrary: n r s)
  case 0
  then obtain m where n: "n = Suc m" by (cases n) auto
  with "0.prems" show ?case by (cases "attempt m s") (simp add: loop_Suc answer_def)
next
  case (Suc k)
  then obtain m where n: "n = Suc m" and km: "k < m" by (cases n) auto
  let ?t = "pause m (snd (attempt m s))"
  have now: "verdict (fst (attempt m s)) = None"
    using Suc.prems(3)[of 0] n by (simp add: answer_0)
  have "fst (loop m (carry r (fst (attempt m s))) ?t) = x"
  proof (rule Suc.IH[OF km])
    show "verdict (answer m k ?t) = Some x"
      using Suc.prems(2) n km by (simp add: answer_Suc)
    show "verdict (answer m j ?t) = None" if "j < k" for j
      using Suc.prems(3)[of "Suc j"] that n km by (simp add: answer_Suc)
  qed
  with now show ?case by (simp add: n loop_step)
qed

lemma loop_gives_up:
  assumes "\<And>j. j < n \<Longrightarrow> verdict (answer n j s) = None" and "\<And>r a. carry r a = r"
  shows "loop n r s = (r, before_attempt n n s)"
  using assms
proof (induction n arbitrary: s)
  case 0
  then show ?case by (simp add: loop_0)
next
  case (Suc n)
  let ?t = "pause n (snd (attempt n s))"
  have now: "verdict (fst (attempt n s)) = None"
    using Suc.prems(1)[of 0] by (simp add: answer_0)
  have "loop n r ?t = (r, before_attempt n n ?t)"
  proof (rule Suc.IH)
    show "verdict (answer n j ?t) = None" if "j < n" for j
      using Suc.prems(1)[of "Suc j"] that by (simp add: answer_Suc)
  qed (rule Suc.prems(2))
  with now Suc.prems(2) show ?case by (simp add: loop_step)
qed

text \<open>Whatever the attempts answer, the result is one a verdict gave or the carried one.\<close>

lemma loop_result:
  assumes "\<And>r a. carry r a = r"
  shows "fst (loop n r s) = r \<or> (\<exists>k<n. verdict (answer n k s) = Some (fst (loop n r s)))"
proof (cases "\<exists>k<n. verdict (answer n k s) \<noteq> None")
  case False
  with loop_gives_up[OF _ assms] show ?thesis by simp
next
  case True
  define k where "k = (LEAST k. k < n \<and> verdict (answer n k s) \<noteq> None)"
  have k: "k < n \<and> verdict (answer n k s) \<noteq> None"
    unfolding k_def using True by (rule LeastI_ex)
  have "verdict (answer n j s) = None" if "j < k" for j
    using not_less_Least[OF that[unfolded k_def]] that k by auto
  with k loop_succeeds[of k n s _ r] show ?thesis by blast
qed

text \<open>A property of the state that every attempt and every pause keep holds after the loop.\<close>

lemma loop_invariant:
  assumes "P s" and "\<And>n s. P s \<Longrightarrow> P (snd (attempt n s))" and "\<And>n s. P s \<Longrightarrow> P (pause n s)"
  shows "P (snd (loop n r s))"
  using assms(1)
proof (induction n arbitrary: r s)
  case 0
  then show ?case by (simp add: loop_0)
next
  case (Suc n)
  then have "P (snd (attempt n s))" by (simp add: assms(2))
  moreover from this have "P (snd (loop n r' (pause n (snd (attempt n s)))))" for r'
    by (intro Suc.IH assms(3))
  ultimately show ?case
    by (cases "attempt n s") (simp add: loop_Suc split: option.split)
qed

end

section \<open>Transition systems\<close>

locale transition_system =
  fixes start :: "'s \<Rightarrow> bool" and trans_step :: "'s \<Rightarrow> 's \<Rightarrow> bool"
begin

definition reachable :: "'s \<Rightarrow> bool" where
  "reachable s \<longleftrightarrow> (\<exists>s0. start s0 \<and> trans_step\<^sup>*\<^sup>* s0 s)"

lemma reachable_start: "start s \<Longrightarrow> reachable s"
  unfolding reachable_def by blast

lemma reachable_step: "reachable s \<Longrightarrow> trans_step s t \<Longrightarrow> reachable t"
  unfolding reachable_def by (meson rtranclp.rtrancl_into_rtrancl)

lemma reachable_invariant:
  assumes "reachable s" and "\<And>s. start s \<Longrightarrow> I s"
    and "\<And>s t. I s \<Longrightarrow> trans_step s t \<Longrightarrow> I t"
  shows "I s"
proof -
  from assms(1) obtain s0 where s0: "start s0" and steps: "trans_step\<^sup>*\<^sup>* s0 s"
    unfolding reachable_def by blast
  from steps show ?thesis
    by (induction rule: rtranclp_induct) (use s0 assms(2,3) in blast)+
qed

end

end
