(* ===== verification/Go_Strings.thy ===== *)
theory Go_Strings
  imports Prelude
begin

text \<open>
  The parts of Go's standard library on strings that the program uses: \<open>strings\<close>,
  \<open>path/filepath.Clean\<close>, \<open>strconv.Atoi\<close> and the line scanner of \<open>bufio\<close>. A Go string is a
  sequence of bytes, so a \<open>char\<close> of HOL is one byte. Where Go works on runes (\<open>ToLower\<close>,
  \<open>TrimSpace\<close>, a regular expression class) the UTF-8 encoding is written out; the only thing
  left open is the Unicode case table, a parameter of \<open>ToLower\<close> that is used on non-ASCII
  strings alone.
\<close>

section \<open>Definitions\<close>

subsection \<open>Searching and cutting\<close>

definition HasPrefix :: "string \<Rightarrow> string \<Rightarrow> bool" where
  "HasPrefix s p \<longleftrightarrow> length p \<le> length s \<and> take (length p) s = p"

definition TrimPrefix :: "string \<Rightarrow> string \<Rightarrow> string" where
  "TrimPrefix s p = (if HasPrefix s p then drop (length p) s else s)"

fun Contains :: "string \<Rightarrow> string \<Rightarrow> bool" where
  "Contains [] p = (p = [])"
| "Contains (c # s) p = (HasPrefix (c # s) p \<or> Contains s p)"

text \<open>\<open>strings.Replace(s, old, new, 1)\<close>.\<close>

fun Replace1 :: "string \<Rightarrow> string \<Rightarrow> string \<Rightarrow> string" where
  "Replace1 [] old new = (if old = [] then new else [])"
| "Replace1 (c # s) old new =
     (if HasPrefix (c # s) old then new @ drop (length old) (c # s)
      else c # Replace1 s old new)"

text \<open>
  \<open>strings.ReplaceAll(s, old, new)\<close>, which is also \<open>strings.Replace(s, old, new, -1)\<close>, for a
  non-empty \<open>old\<close> (the program only replaces literals).
\<close>

function ReplaceAll :: "string \<Rightarrow> string \<Rightarrow> string \<Rightarrow> string" where
  "ReplaceAll [] old new = []"
| "ReplaceAll (c # s) old new =
     (if old \<noteq> [] \<and> HasPrefix (c # s) old
      then new @ ReplaceAll (drop (length old) (c # s)) old new
      else c # ReplaceAll s old new)"
  by pat_completeness auto
termination
  by (relation "measure (\<lambda>(s, old, new). length s)") (auto simp: neq_Nil_conv)

text \<open>\<open>strings.Split\<close> for a separator of one byte.\<close>

fun Split :: "string \<Rightarrow> char \<Rightarrow> string list" where
  "Split [] c = [[]]"
| "Split (x # xs) c =
     (if x = c then [] # Split xs c
      else (case Split xs c of [] \<Rightarrow> [[x]] | y # ys \<Rightarrow> (x # y) # ys))"

fun Join :: "string list \<Rightarrow> string \<Rightarrow> string" where
  "Join [] sep = []"
| "Join [x] sep = x"
| "Join (x # y # zs) sep = x @ sep @ Join (y # zs) sep"

subsection \<open>Bytes, runes and letter case\<close>

definition byte :: "char \<Rightarrow> nat" where
  "byte c = of_char c"

definition is_ascii :: "char \<Rightarrow> bool" where
  "is_ascii c \<longleftrightarrow> \<not> digit7 c"

definition ascii_lower :: "char \<Rightarrow> char" where
  "ascii_lower c =
     (case map_of (zip ''ABCDEFGHIJKLMNOPQRSTUVWXYZ'' ''abcdefghijklmnopqrstuvwxyz'') c of
        Some d \<Rightarrow> d | None \<Rightarrow> c)"

text \<open>\<open>strings.ToLower\<close>: \<open>uc\<close> is what the Unicode tables make of a string that is not ASCII.\<close>

definition ToLower :: "(string \<Rightarrow> string) \<Rightarrow> string \<Rightarrow> string" where
  "ToLower uc s = (if list_all is_ascii s then map ascii_lower s else uc s)"

definition is_cont :: "char \<Rightarrow> bool" where
  "is_cont c \<longleftrightarrow> 0x80 \<le> byte c \<and> byte c \<le> 0xBF"

text \<open>
  The width in bytes of the first rune of a non-empty string, as \<open>utf8.DecodeRuneInString\<close>
  gives it: an invalid or truncated sequence is one rune of width 1.
\<close>

definition utf8_width :: "char \<Rightarrow> string \<Rightarrow> nat" where
  "utf8_width c r =
     (let b = byte c in
      if 0xC2 \<le> b \<and> b \<le> 0xDF then
        (case r of c1 # _ \<Rightarrow> if is_cont c1 then 2 else 1 | _ \<Rightarrow> 1)
      else if 0xE0 \<le> b \<and> b \<le> 0xEF then
        (case r of c1 # c2 # _ \<Rightarrow>
           if (if b = 0xE0 then 0xA0 else 0x80) \<le> byte c1 \<and>
              byte c1 \<le> (if b = 0xED then 0x9F else 0xBF) \<and> is_cont c2 then 3 else 1
         | _ \<Rightarrow> 1)
      else if 0xF0 \<le> b \<and> b \<le> 0xF4 then
        (case r of c1 # c2 # c3 # _ \<Rightarrow>
           if (if b = 0xF0 then 0x90 else 0x80) \<le> byte c1 \<and>
              byte c1 \<le> (if b = 0xF4 then 0x8F else 0xBF) \<and> is_cont c2 \<and> is_cont c3
           then 4 else 1
         | _ \<Rightarrow> 1)
      else 1)"

text \<open>The UTF-8 encodings of the runes that \<open>unicode.IsSpace\<close> accepts.\<close>

definition space_seqs :: "string list" where
  "space_seqs =
     [[CHR 0x20], [CHR 0x09], [CHR 0x0A], [CHR 0x0B], [CHR 0x0C], [CHR 0x0D],
      [CHR 0xC2, CHR 0x85], [CHR 0xC2, CHR 0xA0], [CHR 0xE1, CHR 0x9A, CHR 0x80],
      [CHR 0xE2, CHR 0x80, CHR 0x80], [CHR 0xE2, CHR 0x80, CHR 0x81],
      [CHR 0xE2, CHR 0x80, CHR 0x82], [CHR 0xE2, CHR 0x80, CHR 0x83],
      [CHR 0xE2, CHR 0x80, CHR 0x84], [CHR 0xE2, CHR 0x80, CHR 0x85],
      [CHR 0xE2, CHR 0x80, CHR 0x86], [CHR 0xE2, CHR 0x80, CHR 0x87],
      [CHR 0xE2, CHR 0x80, CHR 0x88], [CHR 0xE2, CHR 0x80, CHR 0x89],
      [CHR 0xE2, CHR 0x80, CHR 0x8A], [CHR 0xE2, CHR 0x80, CHR 0xA8],
      [CHR 0xE2, CHR 0x80, CHR 0xA9], [CHR 0xE2, CHR 0x80, CHR 0xAF],
      [CHR 0xE2, CHR 0x81, CHR 0x9F], [CHR 0xE3, CHR 0x80, CHR 0x80]]"

function strip_seqs :: "string list \<Rightarrow> string \<Rightarrow> string" where
  "strip_seqs seqs s =
     (case find (\<lambda>p. p \<noteq> [] \<and> HasPrefix s p) seqs of
        None \<Rightarrow> s
      | Some p \<Rightarrow> strip_seqs seqs (drop (length p) s))"
  by pat_completeness auto
termination
proof (relation "measure (\<lambda>(seqs, s). length s)")
  fix seqs :: "string list" and s p :: string
  assume "find (\<lambda>p. p \<noteq> [] \<and> HasPrefix s p) seqs = Some p"
  then have "p \<noteq> []" and "length p \<le> length s"
    by (auto simp: find_Some_iff HasPrefix_def)
  then have "0 < length p" and "length p \<le> length s" by simp_all
  then have "length s - length p < length s" by linarith
  then show "((seqs, drop (length p) s), (seqs, s)) \<in> measure (\<lambda>(seqs, s). length s)"
    by simp
qed simp

declare strip_seqs.simps [simp del]

definition TrimSpace :: "string \<Rightarrow> string" where
  "TrimSpace s = rev (strip_seqs (map rev space_seqs) (rev (strip_seqs space_seqs s)))"

subsection \<open>Paths, numbers, lines\<close>

text \<open>The elements of a path that \<open>filepath.Clean\<close> keeps; \<open>acc\<close> holds them in reverse.\<close>

fun clean_elems :: "bool \<Rightarrow> string list \<Rightarrow> string list \<Rightarrow> string list" where
  "clean_elems rooted acc [] = rev acc"
| "clean_elems rooted acc (p # ps) =
     (if p = [] \<or> p = ''.'' then clean_elems rooted acc ps
      else if p = ''..'' then
        (if acc \<noteq> [] \<and> hd acc \<noteq> ''..'' then clean_elems rooted (tl acc) ps
         else if rooted then clean_elems rooted acc ps
         else clean_elems rooted (p # acc) ps)
      else clean_elems rooted (p # acc) ps)"

definition Clean :: "string \<Rightarrow> string" where
  "Clean path =
     (let rooted = HasPrefix path ''/'';
          out = Join (clean_elems rooted [] (Split path (CHR ''/''))) ''/''
      in if rooted then CHR ''/'' # out else if out = [] then ''.'' else out)"

definition digit_value :: "char \<Rightarrow> nat option" where
  "digit_value c = map_of (zip ''0123456789'' [0..<10]) c"

fun digits_value :: "nat \<Rightarrow> string \<Rightarrow> nat option" where
  "digits_value acc [] = Some acc"
| "digits_value acc (c # cs) =
     (case digit_value c of None \<Rightarrow> None | Some d \<Rightarrow> digits_value (10 * acc + d) cs)"

text \<open>\<open>strconv.Atoi\<close>: \<open>None\<close> is a syntax or a range error (\<open>int\<close> has 64 bits).\<close>

definition Atoi :: "string \<Rightarrow> int option" where
  "Atoi s =
     (let neg = HasPrefix s ''-'';
          body = (if neg \<or> HasPrefix s ''+'' then tl s else s)
      in if body = [] then None
         else case digits_value 0 body of
           None \<Rightarrow> None
         | Some n \<Rightarrow>
             (let v = (if neg then - int n else int n)
              in if - (2 ^ 63) \<le> v \<and> v < 2 ^ 63 then Some v else None))"

abbreviation newline :: char where
  "newline \<equiv> CHR 0x0A"

definition MaxScanTokenSize :: nat where
  "MaxScanTokenSize = 65536"

definition dropCR :: "string \<Rightarrow> string" where
  "dropCR l = (if l \<noteq> [] \<and> last l = CHR 0x0D then butlast l else l)"

text \<open>The pieces between newlines; bytes after the last newline are a piece when there are any.\<close>

definition raw_lines :: "string \<Rightarrow> string list" where
  "raw_lines s = (let ps = Split s newline in if last ps = [] then butlast ps else ps)"

text \<open>
  What a \<open>bufio.Scanner\<close> with the default split function delivers from a file: the lines, up to
  the first that does not fit its buffer, and \<open>scanner.Err()\<close>. \<open>fault\<close> is a read error of the
  operating system after a number of bytes; the bytes read before it are still delivered.
\<close>

definition scan_file :: "string \<Rightarrow> (nat \<times> string) option \<Rightarrow> string list \<times> err" where
  "scan_file content fault =
     (let raw = raw_lines (case fault of None \<Rightarrow> content | Some (n, _) \<Rightarrow> take n content);
          fit = takeWhile (\<lambda>l. length l < MaxScanTokenSize) raw
      in (map dropCR fit,
          if length fit < length raw then Some ''bufio.Scanner: token too long''
          else map_option snd fault))"

section \<open>Lemmas\<close>

lemma HasPrefix_prefix: "HasPrefix s p \<longleftrightarrow> prefix p s"
proof
  assume "HasPrefix s p"
  then show "prefix p s" unfolding HasPrefix_def by (metis take_is_prefix)
next
  assume "prefix p s"
  then show "HasPrefix s p" by (auto simp: HasPrefix_def prefix_def)
qed

lemma HasPrefix_append [simp]: "HasPrefix (p @ s) p"
  by (simp add: HasPrefix_def)

lemma HasPrefix_refl [simp]: "HasPrefix s s"
  by (simp add: HasPrefix_def)

lemma HasPrefix_Nil [simp]: "HasPrefix s []"
  by (simp add: HasPrefix_def)

lemma HasPrefix_trans: "HasPrefix s p \<Longrightarrow> HasPrefix p q \<Longrightarrow> HasPrefix s q"
  by (simp add: HasPrefix_prefix)

lemma HasPrefix_split: "HasPrefix s p \<Longrightarrow> s = p @ drop (length p) s"
  unfolding HasPrefix_def by (metis append_take_drop_id)

lemma TrimPrefix_append [simp]: "TrimPrefix (p @ s) p = s"
  by (simp add: TrimPrefix_def)

lemma append_TrimPrefix: "HasPrefix s p \<Longrightarrow> p @ TrimPrefix s p = s"
  by (simp add: TrimPrefix_def HasPrefix_split[symmetric])

lemma Contains_iff: "Contains s p \<longleftrightarrow> (\<exists>a b. s = a @ p @ b)"
proof (induction s)
  case Nil
  then show ?case by auto
next
  case (Cons c s)
  have "(\<exists>a b. c # s = a @ p @ b) \<longleftrightarrow> HasPrefix (c # s) p \<or> (\<exists>a b. s = a @ p @ b)"
    by (auto simp: HasPrefix_prefix prefix_def Cons_eq_append_conv)
  with Cons.IH show ?case by simp
qed

lemma Split_not_Nil [simp]: "Split s c \<noteq> []"
  by (induction s) (auto split: list.split)

lemma Join_Split: "Join (Split s c) [c] = s"
proof (induction s)
  case (Cons x xs)
  obtain y ys where sp: "Split xs c = y # ys"
    using Split_not_Nil[of xs c] by (meson neq_Nil_conv)
  with Cons.IH show ?case by (cases ys) auto
qed simp

lemma Split_no_sep: "p \<in> set (Split s c) \<Longrightarrow> c \<notin> set p"
proof (induction s arbitrary: p)
  case (Cons x xs)
  obtain y ys where sp: "Split xs c = y # ys"
    using Split_not_Nil[of xs c] by (meson neq_Nil_conv)
  with Cons show ?case by (auto split: if_splits)
qed simp

lemma Split_append_sep:
  "c \<notin> set p \<Longrightarrow> Split (p @ c # s) c = p # Split s c"
  by (induction p) auto

lemma Split_no_occurrence: "c \<notin> set p \<Longrightarrow> Split p c = [p]"
  by (induction p) auto

lemma raw_lines_append_line:
  "newline \<notin> set p \<Longrightarrow> raw_lines (p @ newline # s) = p # raw_lines s"
  by (simp add: raw_lines_def Split_append_sep Let_def)

lemma raw_lines_Nil [simp]: "raw_lines [] = []"
  by (simp add: raw_lines_def)

lemma raw_lines_concat:
  "(\<And>l. l \<in> set ls \<Longrightarrow> newline \<notin> set l) \<Longrightarrow>
   raw_lines (concat (map (\<lambda>l. l @ [newline]) ls)) = ls"
  by (induction ls) (simp_all add: raw_lines_append_line)

lemma raw_lines_no_newline: "l \<in> set (raw_lines s) \<Longrightarrow> newline \<notin> set l"
  unfolding raw_lines_def Let_def
  by (metis Split_no_sep in_set_butlastD)

subsection \<open>Trimming\<close>

lemma strip_seqs_drop: "\<exists>n. strip_seqs seqs s = drop n s"
proof (induction seqs s rule: strip_seqs.induct)
  case (1 seqs s)
  show ?case
  proof (cases "find (\<lambda>p. p \<noteq> [] \<and> HasPrefix s p) seqs")
    case None
    then show ?thesis by (subst strip_seqs.simps) (auto intro: exI[of _ 0])
  next
    case (Some p)
    with 1 obtain n where "strip_seqs seqs (drop (length p) s) = drop n (drop (length p) s)"
      by blast
    with Some show ?thesis by (subst strip_seqs.simps) auto
  qed
qed

lemma strip_seqs_no_prefix:
  "p \<in> set seqs \<Longrightarrow> p \<noteq> [] \<Longrightarrow> \<not> HasPrefix (strip_seqs seqs s) p"
proof (induction seqs s rule: strip_seqs.induct)
  case (1 seqs s)
  show ?case
  proof (cases "find (\<lambda>p. p \<noteq> [] \<and> HasPrefix s p) seqs")
    case None
    then have "strip_seqs seqs s = s" by (subst strip_seqs.simps) simp
    then show ?thesis using None "1.prems" by (auto simp: find_None_iff)
  next
    case (Some q)
    with 1 show ?thesis by (subst strip_seqs.simps) auto
  qed
qed

lemma strip_seqs_id:
  "(\<And>p. p \<in> set seqs \<Longrightarrow> p \<noteq> [] \<Longrightarrow> \<not> HasPrefix s p) \<Longrightarrow> strip_seqs seqs s = s"
  by (subst strip_seqs.simps) (auto simp: find_None_iff split: option.split dest!: find_Some_iff[THEN iffD1])

lemma TrimSpace_infix: "\<exists>m n. TrimSpace s = take m (drop n s)"
proof -
  define d where "d = strip_seqs space_seqs s"
  obtain n where n: "d = drop n s" unfolding d_def using strip_seqs_drop by blast
  obtain k where "strip_seqs (map rev space_seqs) (rev d) = drop k (rev d)"
    using strip_seqs_drop by blast
  then have "TrimSpace s = take (length d - k) d" by (simp add: TrimSpace_def d_def rev_drop)
  with n show ?thesis by blast
qed

lemma TrimSpace_set: "set (TrimSpace s) \<subseteq> set s"
  using TrimSpace_infix[of s] by (metis set_take_subset set_drop_subset subset_trans)

lemma TrimSpace_length: "length (TrimSpace s) \<le> length s"
  using TrimSpace_infix[of s] by auto

lemma TrimSpace_no_space_prefix:
  assumes "p \<in> set space_seqs" and "p \<noteq> []"
  shows "\<not> HasPrefix (TrimSpace s) p"
proof
  assume p: "HasPrefix (TrimSpace s) p"
  let ?a = "strip_seqs space_seqs s"
  obtain n where "strip_seqs (map rev space_seqs) (rev ?a) = drop n (rev ?a)"
    using strip_seqs_drop by blast
  then have "TrimSpace s = take (length ?a - n) ?a" by (simp add: TrimSpace_def rev_drop)
  then have "HasPrefix ?a (TrimSpace s)" by (simp add: HasPrefix_prefix take_is_prefix)
  then have "HasPrefix ?a p" using p by (rule HasPrefix_trans)
  with strip_seqs_no_prefix[OF assms] show False by blast
qed

lemma TrimSpace_no_space_suffix:
  assumes "p \<in> set space_seqs" and "p \<noteq> []"
  shows "\<not> HasPrefix (rev (TrimSpace s)) (rev p)"
  using assms strip_seqs_no_prefix[of "rev p" "map rev space_seqs"] by (simp add: TrimSpace_def)

lemma TrimSpace_idI:
  assumes "\<And>p. p \<in> set space_seqs \<Longrightarrow> p \<noteq> [] \<Longrightarrow> \<not> HasPrefix s p"
    and "\<And>p. p \<in> set space_seqs \<Longrightarrow> p \<noteq> [] \<Longrightarrow> \<not> HasPrefix (rev s) (rev p)"
  shows "TrimSpace s = s"
proof -
  have "strip_seqs (map rev space_seqs) (rev s) = rev s"
    using assms(2) by (intro strip_seqs_id) auto
  with assms(1) show ?thesis by (simp add: TrimSpace_def strip_seqs_id)
qed

lemma TrimSpace_idem [simp]: "TrimSpace (TrimSpace s) = TrimSpace s"
  by (intro TrimSpace_idI TrimSpace_no_space_prefix TrimSpace_no_space_suffix)

lemma dropCR_TrimSpace [simp]: "dropCR (TrimSpace s) = TrimSpace s"
proof -
  have "\<not> (TrimSpace s \<noteq> [] \<and> last (TrimSpace s) = CHR 0x0D)"
  proof
    assume "TrimSpace s \<noteq> [] \<and> last (TrimSpace s) = CHR 0x0D"
    then have "rev (TrimSpace s) = [CHR 0x0D] @ rev (butlast (TrimSpace s))"
      by (metis append_butlast_last_id rev_append rev_singleton_conv)
    then have "HasPrefix (rev (TrimSpace s)) (rev [CHR 0x0D])"
      by (metis HasPrefix_append rev_singleton_conv)
    moreover have "[CHR 0x0D] \<in> set space_seqs" by (simp add: space_seqs_def)
    ultimately show False using TrimSpace_no_space_suffix by blast
  qed
  then show ?thesis by (auto simp: dropCR_def)
qed

lemma dropCR_set: "set (dropCR l) \<subseteq> set l"
  by (auto simp: dropCR_def dest: in_set_butlastD)

lemma dropCR_length: "length (dropCR l) \<le> length l"
  by (simp add: dropCR_def)

end
