(* ===== verification/Volume_Ids.thy ===== *)
theory Volume_Ids
  imports Go_Strings
begin

text \<open>
  Volume and service names (\<open>src/nfs/csinfs.go\<close>, lines 123 to 187): the test for the storage
  class, the prefix that marks a volume as served over NFS, and the translation of a volume id
  into the name of its Kubernetes Service and EndpointSlice.
\<close>

section \<open>Definitions\<close>

definition CsiNfsParameter :: string where
  "CsiNfsParameter = ''shared-nfs''"

definition CsiNfsPrefix :: string where
  "CsiNfsPrefix = ''nfs''"

definition CsiNfsPrefixDash :: string where
  "CsiNfsPrefixDash = ''nfs-''"

definition IsNFSStorageClass :: "smap \<Rightarrow> bool" where
  "IsNFSStorageClass parameters \<longleftrightarrow> gm_get parameters ''shared-nfs'' = ''RWX''"

definition hasNFSPrefix :: "string \<Rightarrow> bool" where
  "hasNFSPrefix vid = HasPrefix vid CsiNfsPrefixDash"

definition IsNFSVolumeID :: "string \<Rightarrow> bool" where
  "IsNFSVolumeID = hasNFSPrefix"

definition IsNFSSnapshotID :: "string \<Rightarrow> bool" where
  "IsNFSSnapshotID = hasNFSPrefix"

definition ToArrayVolumeID :: "string \<Rightarrow> string" where
  "ToArrayVolumeID vid = TrimPrefix vid CsiNfsPrefixDash"

definition ArrayToNFSVolumeID :: "string \<Rightarrow> string" where
  "ArrayToNFSVolumeID arrayid = CsiNfsPrefixDash @ arrayid"

text \<open>The class \<open>[a-z0-9]\<close>, the separators \<open>[-.]\<close>, and the complement of \<open>[^a-z0-9-.]\<close>.\<close>

definition terminal_char :: "char \<Rightarrow> bool" where
  "terminal_char c \<longleftrightarrow> c \<in> set ''abcdefghijklmnopqrstuvwxyz0123456789''"

definition separator_char :: "char \<Rightarrow> bool" where
  "separator_char c \<longleftrightarrow> c = CHR ''-'' \<or> c = CHR ''.''"

definition legal_char :: "char \<Rightarrow> bool" where
  "legal_char c \<longleftrightarrow> terminal_char c \<or> separator_char c"

text \<open>
  \<open>regexp.MatchString("^[a-z0-9]+([-.]?[a-z0-9]+)*$", id)\<close> as the automaton of the expression;
  the flag says whether the byte just read was a letter or a digit.
\<close>

fun id_automaton :: "bool \<Rightarrow> string \<Rightarrow> bool" where
  "id_automaton after_alnum [] = after_alnum"
| "id_automaton after_alnum (c # cs) =
     (if terminal_char c then id_automaton True cs
      else separator_char c \<and> after_alnum \<and> id_automaton False cs)"

definition matches_validIDRegex :: "string \<Rightarrow> bool" where
  "matches_validIDRegex vid = id_automaton False vid"

text \<open>
  \<open>validTerminalCharRegex.FindAllIndex(id, -1)\<close>, and the slice from the first match to the end
  of the last one.
\<close>

definition validIndexes :: "string \<Rightarrow> nat list" where
  "validIndexes vid = filter (\<lambda>i. terminal_char (vid ! i)) [0..<length vid]"

definition trim_terminal :: "string \<Rightarrow> string" where
  "trim_terminal vid =
     (if validIndexes vid \<noteq> []
      then drop (hd (validIndexes vid)) (take (last (validIndexes vid) + 1) vid)
      else vid)"

text \<open>\<open>illegalCharRegex.ReplaceAllStringFunc\<close>: each illegal rune becomes one dash.\<close>

function replace_illegal :: "string \<Rightarrow> string" where
  "replace_illegal [] = []"
| "replace_illegal (c # cs) =
     (if legal_char c then c # replace_illegal cs
      else CHR ''-'' # replace_illegal (drop (utf8_width c cs - 1) cs))"
  by pat_completeness auto
termination
  by (relation "measure length") auto

definition VolumeIDToServiceName :: "(string \<Rightarrow> string) \<Rightarrow> string \<Rightarrow> string" where
  "VolumeIDToServiceName uc vid =
     (let vid = ToLower uc vid;
          vid = trim_terminal vid;
          vid = (if length vid > 63 then take 63 vid else vid)
      in if matches_validIDRegex vid then vid else replace_illegal vid)"

text \<open>
  The regular expression read as a grammar: one or more letters or digits, then any number of
  groups of an optional separator and one or more letters or digits.
\<close>

definition alnum_word :: "string \<Rightarrow> bool" where
  "alnum_word w \<longleftrightarrow> w \<noteq> [] \<and> list_all terminal_char w"

inductive valid_id :: "string \<Rightarrow> bool" where
  word: "alnum_word w \<Longrightarrow> valid_id w"
| group: "valid_id v \<Longrightarrow> sep = [] \<or> sep = ''-'' \<or> sep = ''.'' \<Longrightarrow> alnum_word w \<Longrightarrow>
    valid_id (v @ sep @ w)"

section \<open>The prefix as a codec\<close>

text \<open>
  What the controller, the node service and the recovery rely on when they move between the
  array's volume id and the id under which Kubernetes knows the volume.
\<close>

locale tagged_codec =
  fixes enc :: "'a \<Rightarrow> 'b" and dec :: "'b \<Rightarrow> 'a" and tagged :: "'b \<Rightarrow> bool"
  assumes dec_enc: "dec (enc x) = x"
    and tagged_enc: "tagged (enc x)"
    and enc_dec: "tagged y \<Longrightarrow> enc (dec y) = y"
begin

lemma enc_injective: "enc x = enc y \<Longrightarrow> x = y"
  by (metis dec_enc)

lemma tagged_iff: "tagged y \<longleftrightarrow> (\<exists>x. y = enc x)"
  by (metis enc_dec tagged_enc)

lemma dec_injective_on_tagged: "tagged x \<Longrightarrow> tagged y \<Longrightarrow> dec x = dec y \<Longrightarrow> x = y"
  by (metis enc_dec)

end

interpretation nfs_id: tagged_codec ArrayToNFSVolumeID ToArrayVolumeID hasNFSPrefix
  by unfold_locales
     (simp_all add: ArrayToNFSVolumeID_def ToArrayVolumeID_def hasNFSPrefix_def append_TrimPrefix)

section \<open>Lemmas on service names\<close>

lemma terminal_not_separator: "terminal_char c \<Longrightarrow> \<not> separator_char c"
  by (auto simp: terminal_char_def separator_char_def)

lemma terminal_legal [simp]: "terminal_char c \<Longrightarrow> legal_char c"
  by (simp add: legal_char_def)

lemma legal_dash [simp]: "legal_char (CHR ''-'')"
  by (simp add: legal_char_def separator_char_def)

lemma replace_illegal_legal: "list_all legal_char (replace_illegal s)"
  by (induction s rule: replace_illegal.induct) auto

lemma replace_illegal_length: "length (replace_illegal s) \<le> length s"
  by (induction s rule: replace_illegal.induct) auto

lemma replace_illegal_id: "list_all legal_char s \<Longrightarrow> replace_illegal s = s"
  by (induction s rule: replace_illegal.induct) auto

lemma replace_illegal_hd:
  "s \<noteq> [] \<Longrightarrow> legal_char (hd s) \<Longrightarrow> replace_illegal s \<noteq> [] \<and> hd (replace_illegal s) = hd s"
  by (cases s) auto

lemma id_automaton_legal: "id_automaton b s \<Longrightarrow> list_all legal_char s"
  by (induction b s rule: id_automaton.induct) (auto simp: legal_char_def split: if_splits)

lemma id_automaton_word:
  "list_all terminal_char w \<Longrightarrow> id_automaton b (w @ t) = id_automaton (b \<or> w \<noteq> []) t"
  by (induction w arbitrary: b) auto

lemma valid_id_automaton: "valid_id v \<Longrightarrow> id_automaton b (v @ t) = id_automaton True t"
proof (induction arbitrary: b t rule: valid_id.induct)
  case (word w)
  then show ?case by (simp add: alnum_word_def id_automaton_word)
next
  case (group v sep w)
  have "id_automaton True (sep @ w @ t) = id_automaton True t"
    using group.hyps
    by (auto simp: alnum_word_def id_automaton_word separator_char_def terminal_char_def)
  with group.IH show ?case by simp
qed

lemma automaton_extends_valid_id:
  "(id_automaton True s \<longrightarrow> valid_id v \<longrightarrow> valid_id (v @ s)) \<and>
   (id_automaton False s \<longrightarrow> valid_id v \<longrightarrow> separator_char d \<longrightarrow> valid_id (v @ [d] @ s))"
proof (induction s arbitrary: v d)
  case Nil
  then show ?case by simp
next
  case (Cons c cs)
  have word1: "terminal_char c \<Longrightarrow> alnum_word [c]" by (simp add: alnum_word_def)
  have "valid_id (v @ [c])" if "terminal_char c" "valid_id v"
    using valid_id.group[OF that(2) _ word1[OF that(1)], of "[]"] by simp
  moreover have "valid_id (v @ [d] @ [c])" if "terminal_char c" "valid_id v" "separator_char d"
    using valid_id.group[OF that(2) _ word1[OF that(1)], of "[d]"] that(3)
    by (simp add: separator_char_def)
  ultimately show ?case using Cons.IH[of "v @ [c]"] Cons.IH[of "v @ [d] @ [c]"] Cons.IH[of v c]
    by (auto split: if_splits)
qed

lemma matches_iff_valid_id: "matches_validIDRegex s \<longleftrightarrow> valid_id s"
proof
  assume m: "matches_validIDRegex s"
  then obtain c cs where s: "s = c # cs" and c: "terminal_char c" "id_automaton True cs"
    by (cases s) (auto simp: matches_validIDRegex_def split: if_splits)
  have "valid_id [c]" using c by (intro valid_id.word) (simp add: alnum_word_def)
  with c automaton_extends_valid_id[of cs "[c]"] show "valid_id s" by (simp add: s)
next
  assume "valid_id s"
  from valid_id_automaton[OF this, of False "[]"] show "matches_validIDRegex s"
    by (simp add: matches_validIDRegex_def)
qed

lemma validIndexes_sorted: "sorted (validIndexes s)"
  by (simp add: validIndexes_def sorted_wrt_filter)

lemma validIndexes_mem: "i \<in> set (validIndexes s) \<longleftrightarrow> i < length s \<and> terminal_char (s ! i)"
  by (auto simp: validIndexes_def)

lemma validIndexes_empty_iff: "validIndexes s = [] \<longleftrightarrow> (\<forall>c \<in> set s. \<not> terminal_char c)"
  unfolding all_set_conv_all_nth by (auto simp: validIndexes_def filter_empty_conv)

lemma trim_terminal_ends:
  assumes "\<exists>c \<in> set s. terminal_char c"
  shows "trim_terminal s \<noteq> []" and "terminal_char (hd (trim_terminal s))"
    and "terminal_char (last (trim_terminal s))"
proof -
  let ?ix = "validIndexes s"
  from assms have ne: "?ix \<noteq> []" by (auto simp: validIndexes_empty_iff)
  have h: "hd ?ix < length s" "terminal_char (s ! hd ?ix)"
    using hd_in_set[OF ne] by (simp_all add: validIndexes_mem)
  have l: "last ?ix < length s" "terminal_char (s ! last ?ix)"
    using last_in_set[OF ne] by (simp_all add: validIndexes_mem)
  have hl: "hd ?ix \<le> last ?ix"
    using validIndexes_sorted[of s] ne
    by (cases ?ix) (auto simp: last_ConsR dest: sorted_wrt_nth_less)
  have len: "length (take (last ?ix + 1) s) = last ?ix + 1" using l by simp
  have eq: "trim_terminal s = drop (hd ?ix) (take (last ?ix + 1) s)"
    using ne by (simp add: trim_terminal_def)
  show "trim_terminal s \<noteq> []" using eq len hl by simp
  show "terminal_char (hd (trim_terminal s))"
    using eq len hl h by (simp add: hd_drop_conv_nth)
  show "terminal_char (last (trim_terminal s))"
    using eq len hl l by (simp add: last_conv_nth)
qed

lemma trim_terminal_length: "length (trim_terminal s) \<le> length s"
  by (auto simp: trim_terminal_def)

lemma trim_terminal_id:
  assumes "s \<noteq> []" and "terminal_char (hd s)" and "terminal_char (last s)"
  shows "trim_terminal s = s"
proof -
  let ?n = "length s - 1"
  have upt: "[0..<length s] = 0 # [1..<length s]" "[0..<length s] = [0..<?n] @ [?n]"
    using assms(1) by (simp_all add: upt_conv_Cons flip: upt_Suc_append)
  have "hd (validIndexes s) = 0"
    unfolding validIndexes_def upt(1) using assms by (simp add: hd_conv_nth)
  moreover have "last (validIndexes s) = ?n"
    unfolding validIndexes_def upt(2) using assms by (simp add: last_conv_nth)
  moreover have "validIndexes s \<noteq> []"
    using assms by (auto simp: validIndexes_empty_iff)
  ultimately show ?thesis using assms(1) by (simp add: trim_terminal_def)
qed

lemma valid_id_ends:
  "valid_id s \<Longrightarrow> s \<noteq> [] \<and> terminal_char (hd s) \<and> terminal_char (last s)"
  by (induction rule: valid_id.induct) (auto simp: alnum_word_def list_all_iff)

lemma legal_lower: "legal_char c \<Longrightarrow> ascii_lower c = c \<and> is_ascii c"
proof -
  have "list_all (\<lambda>c. ascii_lower c = c \<and> is_ascii c) ''abcdefghijklmnopqrstuvwxyz0123456789-.''"
    by code_simp
  then show "legal_char c \<Longrightarrow> ascii_lower c = c \<and> is_ascii c"
    by (auto simp: list_all_iff legal_char_def separator_char_def terminal_char_def)
qed

lemma ToLower_legal: "list_all legal_char s \<Longrightarrow> ToLower uc s = s"
  by (simp add: ToLower_def list_all_iff legal_lower map_idI)

lemma valid_id_legal: "valid_id s \<Longrightarrow> list_all legal_char s"
  using id_automaton_legal matches_iff_valid_id matches_validIDRegex_def by blast

text \<open>The string that \<open>VolumeIDToServiceName\<close> checks against the expression.\<close>

lemma VolumeIDToServiceName_alt:
  "VolumeIDToServiceName uc vid =
     (let t = take 63 (trim_terminal (ToLower uc vid))
      in if matches_validIDRegex t then t else replace_illegal t)"
  by (simp add: VolumeIDToServiceName_def Let_def)

lemma list_all_take: "list_all P xs \<Longrightarrow> list_all P (take n xs)"
  by (auto simp: list_all_iff dest: in_set_takeD)

lemma service_name_chars:
  "list_all legal_char (VolumeIDToServiceName uc vid)"
  by (simp add: VolumeIDToServiceName_alt Let_def replace_illegal_legal
        matches_iff_valid_id valid_id_legal)

lemma service_name_length: "length (VolumeIDToServiceName uc vid) \<le> 63"
  using replace_illegal_length[of "take 63 (trim_terminal (ToLower uc vid))"]
  by (auto simp: VolumeIDToServiceName_alt Let_def)

lemma service_name_hd:
  assumes "\<exists>c \<in> set (ToLower uc vid). terminal_char c"
  shows "VolumeIDToServiceName uc vid \<noteq> [] \<and> terminal_char (hd (VolumeIDToServiceName uc vid))"
proof -
  let ?t = "take 63 (trim_terminal (ToLower uc vid))"
  have "?t \<noteq> []" and "terminal_char (hd ?t)"
    using trim_terminal_ends[OF assms] by simp_all
  with replace_illegal_hd[of ?t] show ?thesis
    by (simp add: VolumeIDToServiceName_alt Let_def)
qed

lemma service_name_valid_id:
  assumes "valid_id s" and "length s \<le> 63"
  shows "VolumeIDToServiceName uc s = s"
  using assms valid_id_ends[OF assms(1)]
  by (simp add: VolumeIDToServiceName_alt Let_def ToLower_legal valid_id_legal trim_terminal_id
        matches_iff_valid_id)

section \<open>Properties\<close>

text \<open>
  The prefix that marks NFS volumes is a codec. Adding it and taking it off gives the
  array's id back, a marked id is recognised, and taking the prefix off a recognised id and
  adding it again gives the same id.
\<close>

lemma volume_id_roundtrip:
  "ToArrayVolumeID (ArrayToNFSVolumeID a) = a \<and> IsNFSVolumeID (ArrayToNFSVolumeID a) \<and>
   (IsNFSVolumeID v \<longrightarrow> ArrayToNFSVolumeID (ToArrayVolumeID v) = v)"
  by (simp add: nfs_id.dec_enc nfs_id.tagged_enc nfs_id.enc_dec IsNFSVolumeID_def)

theorem volume_id_roundtrip_witness:
  "IsNFSVolumeID ''nfs-vol1'' \<and> ArrayToNFSVolumeID (ToArrayVolumeID ''nfs-vol1'') = ''nfs-vol1''"
proof -
  have "IsNFSVolumeID ''nfs-vol1''"
    by (simp add: IsNFSVolumeID_def hasNFSPrefix_def HasPrefix_def CsiNfsPrefixDash_def)
  with volume_id_roundtrip[of _ "''nfs-vol1''"] show ?thesis by simp
qed

text \<open>
  C26: whatever the volume id, and whatever the Unicode tables do to it, the service name has at
  most 63 bytes, holds only lowercase letters, digits, dashes and dots, and starts with a letter
  or a digit as soon as the id in lower case has one.
\<close>

theorem service_name_bounds:
  "length (VolumeIDToServiceName uc vid) \<le> 63 \<and>
   list_all legal_char (VolumeIDToServiceName uc vid) \<and>
   ((\<exists>c \<in> set (ToLower uc vid). terminal_char c) \<longrightarrow>
      terminal_char (hd (VolumeIDToServiceName uc vid)))"
  by (simp add: service_name_length service_name_chars service_name_hd)

theorem service_name_bounds_witness:
  "terminal_char (hd (VolumeIDToServiceName (\<lambda>s. s) ''_Vol/1''))"
proof -
  have "\<exists>c \<in> set (ToLower (\<lambda>s. s) ''_Vol/1''). terminal_char c"
    by (simp add: ToLower_def is_ascii_def ascii_lower_def terminal_char_def)
  with service_name_bounds[of "\<lambda>s. s" "''_Vol/1''"] show ?thesis by blast
qed


text \<open>
  A valid id of at most 63 bytes is its own service name, so no two such ids share a name.
\<close>

lemma service_name_keeps_valid_ids:
  assumes "valid_id v" and "valid_id w" and "length v \<le> 63" and "length w \<le> 63"
  shows "VolumeIDToServiceName uc v = v \<and>
    (VolumeIDToServiceName uc v = VolumeIDToServiceName uc w \<longrightarrow> v = w)"
  using assms by (simp add: service_name_valid_id)

theorem service_name_keeps_valid_ids_witness:
  "VolumeIDToServiceName (\<lambda>s. s) ''nfs-1.a'' = ''nfs-1.a''"
proof -
  have "valid_id ''nfs-1.a''" and "valid_id ''b''"
    by (simp_all add: flip: matches_iff_valid_id)
       (simp_all add: matches_validIDRegex_def terminal_char_def separator_char_def)
  from service_name_keeps_valid_ids[OF this] show ?thesis by simp
qed

text \<open>
  The comment on \<open>VolumeIDToServiceName\<close> promises a DNS name from which trailing characters
  that are not alphanumeric are removed. The cut to 63 bytes comes after the trimming, so a name
  can end in a separator; it is then outside the language of the expression the code checks.
\<close>

lemma service_name_may_end_in_dash:
  "VolumeIDToServiceName uc (replicate 62 (CHR ''a'') @ ''-b'') = replicate 62 (CHR ''a'') @ ''-'' \<and>
   \<not> valid_id (replicate 62 (CHR ''a'') @ ''-'')"
proof -
  let ?a = "replicate 62 (CHR ''a'')"
  have a: "list_all legal_char (?a @ ''-b'')" "list_all legal_char (?a @ ''-'')" "terminal_char (CHR ''b'')"
    "terminal_char (CHR ''a'')"
    by (simp_all add: legal_char_def separator_char_def terminal_char_def list_all_iff)
  have cut: "take 63 (trim_terminal (ToLower uc (?a @ ''-b''))) = ?a @ ''-''"
    using a by (simp add: ToLower_legal trim_terminal_id)
  have bad: "\<not> valid_id (?a @ ''-'')"
    using valid_id_ends[of "?a @ ''-''"] by (auto simp: terminal_char_def)
  show ?thesis
    using a bad by (simp add: VolumeIDToServiceName_alt Let_def cut matches_iff_valid_id
        replace_illegal_id)
qed

end
