(* ===== verification/Env.thy ===== *)
theory Env
  imports Volume_Ids
begin

text \<open>
  The data the components share and the boundary of the program.

  \<^item> Records for the Kubernetes objects, the CSI messages and the messages of
    \<open>src/nfs/proto/nfs.proto\<close>, with the fields the program reads or writes.
  \<^item> \<open>env\<close>: everything outside the repository, as transformers of an opaque world \<open>'w\<close>: the
    operating system, commands, the clock, the host CSI driver (\<open>vcsi\<close>), the Kubernetes client
    set, gRPC. Nothing is assumed of it here; a theorem that needs a law states it.
  \<^item> \<open>nfs_state\<close>: the package variables of the process, with the node's \<open>/etc/exports\<close> and the
    world.
\<close>

section \<open>Kubernetes objects\<close>

record Service =
  svc_name :: string
  svc_namespace :: string
  svc_labels :: smap
  svc_annotations :: smap
  svc_ports :: "(string \<times> 32 word \<times> string) list"
  svc_type :: string
  svc_clusterIP :: string

record Endpoint =
  ep_addresses :: "string list"
  ep_ready :: "bool option"

record EndpointSlice =
  es_name :: string
  es_namespace :: string
  es_labels :: smap
  es_annotations :: smap
  es_addressType :: string
  es_endpoints :: "Endpoint list"
  es_ports :: "(string \<times> 32 word) list"

record Node =
  node_name :: string
  node_labels :: smap
  node_annotations :: smap
  node_addresses :: "string list"

text \<open>\<open>pv_csi\<close> is the pointer \<open>Spec.CSI\<close>; of its target the program reads \<open>VolumeHandle\<close>.\<close>

record PersistentVolume =
  pv_name :: string
  pv_csi :: "string option"

section \<open>CSI messages\<close>

datatype access_type = AccessBlock | AccessMount
datatype access_mode = MULTI_NODE_MULTI_WRITER | OtherMode nat

record VolumeCapability =
  cap_type :: access_type
  cap_mode :: access_mode

record CreateVolumeRequest =
  cv_Name :: string
  cv_Parameters :: smap
  cv_VolumeCapabilities :: "VolumeCapability list"

text \<open>\<open>resp.Volume\<close> is a pointer.\<close>

record CreateVolumeResponse =
  cvr_VolumeId :: "string option"

record ControllerPublishVolumeRequest =
  pub_VolumeId :: string
  pub_NodeId :: string
  pub_VolumeContext :: smap
  pub_VolumeCapability :: "VolumeCapability option"

record ControllerPublishVolumeResponse =
  pubr_PublishContext :: smap

record ControllerUnpublishVolumeRequest =
  unpub_VolumeId :: string
  unpub_NodeId :: string

text \<open>The metadata of an incoming gRPC request, when the context carries any.\<close>

record request_ctx =
  ctx_metadata :: "string list gomap option"

section \<open>Messages of the NFS service\<close>

record ExportNfsVolumeRequest =
  exp_VolumeId :: string
  exp_ExportNfsContext :: smap

record ExportNfsVolumeResponse =
  expr_VolumeId :: string
  expr_ExportNfsContext :: smap

record UnexportNfsVolumeRequest =
  unexp_VolumeId :: string
  unexp_UnexportNfsContext :: smap

record UnexportNfsVolumeResponse =
  unexpr_VolumeId :: string
  unexpr_UnexportNfsContext :: smap

record PingRequest =
  ping_NodeIpAddress :: string
  ping_DumpAllExports :: bool

record PingResponse =
  pingr_Ready :: bool
  pingr_Status :: string

record GetExportsResponse =
  getr_Exports :: "string list"

record ExportMultipleNfsVolumesRequest =
  expm_VolumeIds :: "string list"
  expm_ExportNfsContext :: smap

record ExportMultipleNfsVolumesResponse =
  expmr_SuccessfulIds :: "string list"
  expmr_UnsuccessfulIds :: "string list"
  expmr_ExportNfsContext :: smap

record UnexportMultipleNfsVolumesRequest =
  unexpm_VolumeIds :: "string list"
  unexpm_ExportNfsContext :: smap

record UnexportMultipleNfsVolumesResponse =
  unexpmr_SuccessfulIds :: "string list"
  unexpmr_UnsuccessfulIds :: "string list"
  unexpmr_ExportNfsContext :: smap

section \<open>The outside world\<close>

text \<open>The variables that the driver embedding the package sets before it starts.\<close>

record driver_config =
  NodeRoot :: string
  NfsExportDirectory :: string
  DriverNamespace :: string
  DriverName :: string

text \<open>
  External operations. A file operation yields the error of the system call, or the number of
  bytes transferred before an error; \<open>select_done\<close> tells whether a \<open>select\<close> between a context and
  an asynchronous answer takes the branch of the context, and \<open>select_timeout\<close> the same for a
  timer. What the standard library does with JSON and with the verb \<open>%v\<close> on Kubernetes objects
  is left to \<open>Runtime\<close>.
\<close>

record 'w OSInterface =
  os_Getenv :: "'w \<Rightarrow> string \<Rightarrow> string"
  os_Stat :: "string \<Rightarrow> 'w \<Rightarrow> err \<times> 'w"
  os_MkdirAll :: "string \<Rightarrow> nat \<Rightarrow> 'w \<Rightarrow> err \<times> 'w"
  os_Chown :: "string \<Rightarrow> nat \<Rightarrow> nat \<Rightarrow> 'w \<Rightarrow> err \<times> 'w"
  os_Chmod :: "string \<Rightarrow> nat \<Rightarrow> 'w \<Rightarrow> err \<times> 'w"
  os_Open :: "string \<Rightarrow> 'w \<Rightarrow> err \<times> 'w"
  os_OpenFile :: "string \<Rightarrow> 'w \<Rightarrow> err \<times> 'w"
  file_Read :: "'w \<Rightarrow> (nat \<times> string) option \<times> 'w"
  file_Write :: "string \<Rightarrow> 'w \<Rightarrow> (nat \<times> string) option \<times> 'w"
  file_Close :: "'w \<Rightarrow> err \<times> 'w"

record 'w Executor =
  ExecuteCommand :: "string \<Rightarrow> string list \<Rightarrow> 'w \<Rightarrow> (string \<times> err) \<times> 'w"
  ExecuteCommandContext :: "string \<Rightarrow> string list \<Rightarrow> 'w \<Rightarrow> (string \<times> err) \<times> 'w"
  GetCombinedOutput :: "string list \<Rightarrow> 'w \<Rightarrow> (string \<times> err) \<times> 'w"

text \<open>The methods of the host driver (the interface \<open>Service\<close>) that the program calls.\<close>

record 'w HostDriver =
  vcsi_CreateVolume :: "CreateVolumeRequest \<Rightarrow> 'w \<Rightarrow> (CreateVolumeResponse option \<times> err) \<times> 'w"
  vcsi_ControllerPublishVolume ::
    "ControllerPublishVolumeRequest \<Rightarrow> 'w \<Rightarrow> (ControllerPublishVolumeResponse option \<times> err) \<times> 'w"
  vcsi_ControllerUnpublishVolume :: "ControllerUnpublishVolumeRequest \<Rightarrow> 'w \<Rightarrow> err \<times> 'w"
  vcsi_MountVolume :: "string \<Rightarrow> string \<Rightarrow> string \<Rightarrow> smap \<Rightarrow> 'w \<Rightarrow> (string \<times> err) \<times> 'w"
  vcsi_UnmountVolume :: "string \<Rightarrow> string \<Rightarrow> smap \<Rightarrow> 'w \<Rightarrow> err \<times> 'w"

text \<open>The Kubernetes client set; an error is its text.\<close>

record 'w Clientset =
  cs_CreateService :: "string \<Rightarrow> Service \<Rightarrow> 'w \<Rightarrow> (string + Service) \<times> 'w"
  cs_GetService :: "string \<Rightarrow> string \<Rightarrow> 'w \<Rightarrow> (string + Service) \<times> 'w"
  cs_UpdateService :: "string \<Rightarrow> Service \<Rightarrow> 'w \<Rightarrow> (string + Service) \<times> 'w"
  cs_DeleteService :: "string \<Rightarrow> string \<Rightarrow> 'w \<Rightarrow> err \<times> 'w"
  cs_CreateEndpointSlice :: "string \<Rightarrow> EndpointSlice \<Rightarrow> 'w \<Rightarrow> (string + EndpointSlice) \<times> 'w"
  cs_GetEndpointSlice :: "string \<Rightarrow> string \<Rightarrow> 'w \<Rightarrow> (string + EndpointSlice) \<times> 'w"
  cs_UpdateEndpointSlice :: "string \<Rightarrow> EndpointSlice \<Rightarrow> 'w \<Rightarrow> (string + EndpointSlice) \<times> 'w"
  cs_DeleteEndpointSlice :: "string \<Rightarrow> string \<Rightarrow> 'w \<Rightarrow> err \<times> 'w"
  cs_ListEndpointSlices :: "string \<Rightarrow> string \<Rightarrow> 'w \<Rightarrow> (string + EndpointSlice list) \<times> 'w"
  cs_GetPersistentVolume :: "string \<Rightarrow> 'w \<Rightarrow> (string + PersistentVolume) \<times> 'w"
  cs_GetNode :: "string \<Rightarrow> 'w \<Rightarrow> (string + Node) \<times> 'w"
  cs_ListNodes :: "'w \<Rightarrow> (string + Node list) \<times> 'w"
  cs_IsNotFound :: "string \<Rightarrow> bool"
  rest_InClusterConfig :: "'w \<Rightarrow> err \<times> 'w"
  kubernetes_NewForConfig :: "'w \<Rightarrow> err \<times> 'w"

text \<open>The remote procedures of a node, reached at an address and a port.\<close>

record 'w NfsClient =
  grpc_NewClient :: "string \<Rightarrow> 'w \<Rightarrow> err \<times> 'w"
  rpc_ExportNfsVolume ::
    "string \<Rightarrow> ExportNfsVolumeRequest \<Rightarrow> 'w \<Rightarrow> (ExportNfsVolumeResponse option \<times> err) \<times> 'w"
  rpc_UnexportNfsVolume ::
    "string \<Rightarrow> UnexportNfsVolumeRequest \<Rightarrow> 'w \<Rightarrow> (UnexportNfsVolumeResponse option \<times> err) \<times> 'w"
  rpc_Ping :: "string \<Rightarrow> PingRequest \<Rightarrow> 'w \<Rightarrow> (PingResponse option \<times> err) \<times> 'w"
  rpc_GetExports :: "string \<Rightarrow> 'w \<Rightarrow> (GetExportsResponse option \<times> err) \<times> 'w"
  net_Listen :: "string \<Rightarrow> 'w \<Rightarrow> err \<times> 'w"
  grpc_Serve :: "'w \<Rightarrow> err \<times> 'w"

record 'w Runtime =
  time_Sleep :: "nat \<Rightarrow> 'w \<Rightarrow> 'w"
  select_done :: "'w \<Rightarrow> bool \<times> 'w"
  ctx_Err :: "'w \<Rightarrow> string"
  select_timeout :: "'w \<Rightarrow> bool \<times> 'w"
  unicode_ToLower :: "string \<Rightarrow> string"
  json_UnmarshalMap :: "string \<Rightarrow> string + smap"
  fmt_EndpointSlice :: "EndpointSlice \<Rightarrow> string"
  fmt_Service :: "Service option \<Rightarrow> string"

record 'w env = driver_config +
  opSys :: "'w OSInterface"
  exec :: "'w Executor"
  vcsi :: "'w HostDriver"
  clientset :: "'w Clientset"
  nfsClient :: "'w NfsClient"
  runtime :: "'w Runtime"

section \<open>The state of the process\<close>

record CsiNfsService =
  provisionerName :: string
  mode :: string
  nodeID :: string
  svc_nodeIPAddress :: string
  podCIDR :: string
  nodeName :: string
  failureRetries :: nat
  k8sclient :: bool
  waitCreateNfsServiceInterval :: nat
  nfsServerPort :: string
  nfsClientServicePort :: string

record NodeStatus =
  ns_nodeName :: string
  ns_nodeIP :: string
  badPings :: int
  goodPings :: int
  inRecovery :: bool
  online :: bool
  ns_status :: string
  dumpingExports :: bool

text \<open>
  \<open>exports_file\<close> is the content of \<open>/noderoot/etc/exports\<close>, \<open>None\<close> when there is no such file.
\<close>

record 'w nfs_state =
  nfsService :: CsiNfsService
  PVLock :: "string \<rightharpoonup> string"
  nfsPVLock :: "string \<rightharpoonup> string"
  exports_file :: "string option"
  generation :: "64 word"
  syncedGeneration :: "64 word"
  savedUpdates :: "64 word"
  nodeIPAddress :: "(string \<times> NodeStatus) list"
  exportCounts :: "(string \<times> int) list"
  pingRate :: nat
  world :: 'w

text \<open>An external operation as a step of the process: only the world changes.\<close>

definition ext :: "('w \<Rightarrow> 'a \<times> 'w) \<Rightarrow> ('w nfs_state, 'a) state" where
  "ext f = State (\<lambda>s. case f (world s) of (a, w) \<Rightarrow> (a, s\<lparr>world := w\<rparr>))"

definition sleep :: "'w env \<Rightarrow> nat \<Rightarrow> ('w nfs_state, unit) state" where
  "sleep E d = ext (\<lambda>w. ((), time_Sleep (runtime E) d w))"

definition getenv :: "'w env \<Rightarrow> string \<Rightarrow> ('w nfs_state, string) state" where
  "getenv E v = ext (\<lambda>w. (os_Getenv (opSys E) w v, w))"

text \<open>Durations are in milliseconds.\<close>

abbreviation Second :: nat where
  "Second \<equiv> 1000"

section \<open>Lemmas\<close>

lemma run_ext [simp]:
  "run_state (ext f) s = (fst (f (world s)), s\<lparr>world := snd (f (world s))\<rparr>)"
  by (simp add: ext_def split: prod.split)

lemma run_sleep [simp]:
  "run_state (sleep E d) s = ((), s\<lparr>world := time_Sleep (runtime E) d (world s)\<rparr>)"
  by (simp add: sleep_def)

lemma wp_ext [wp]:
  "(\<And>a w. f (world s) = (a, w) \<Longrightarrow> Q a (s\<lparr>world := w\<rparr>)) \<Longrightarrow> wp (ext f) Q s"
  by (simp add: wp_def)

lemma wp_sleep [wp]: "(\<And>w. Q () (s\<lparr>world := w\<rparr>)) \<Longrightarrow> wp (sleep E d) Q s"
  by (simp add: wp_def)

text \<open>All of the process state but the world; external operations keep it.\<close>

definition process :: "'w nfs_state \<Rightarrow> unit nfs_state" where
  "process s = \<lparr>nfsService = nfsService s, PVLock = PVLock s, nfsPVLock = nfsPVLock s,
     exports_file = exports_file s, generation = generation s,
     syncedGeneration = syncedGeneration s, savedUpdates = savedUpdates s,
     nodeIPAddress = nodeIPAddress s, exportCounts = exportCounts s, pingRate = pingRate s,
     world = ()\<rparr>"

lemma process_world [simp]: "process (s\<lparr>world := w\<rparr>) = process s"
  by (simp add: process_def)

lemma keeps_process_ext [frame, simp]: "keeps process (ext f)"
  by (simp add: keeps_def)

lemma keeps_process_sleep [frame, simp]: "keeps process (sleep E d)"
  by (simp add: sleep_def)

lemma process_fields:
  assumes "process s = process t"
  shows "PVLock s = PVLock t" and "nfsPVLock s = nfsPVLock t" and "exports_file s = exports_file t"
    and "generation s = generation t" and "syncedGeneration s = syncedGeneration t"
    and "nodeIPAddress s = nodeIPAddress t" and "exportCounts s = exportCounts t"
    and "nfsService s = nfsService t" and "savedUpdates s = savedUpdates t"
    and "pingRate s = pingRate t"
  using assms by (simp_all add: process_def)

text \<open>The two lock tables.\<close>

definition locks :: "'w nfs_state \<Rightarrow> (string \<rightharpoonup> string) \<times> (string \<rightharpoonup> string)" where
  "locks s = (PVLock s, nfsPVLock s)"

lemma keeps_locks_ext [frame]: "keeps locks (ext f)"
  by (simp add: keeps_def locks_def)

lemma keeps_locks_sleep [frame]: "keeps locks (sleep E d)"
  by (simp add: keeps_def locks_def)

text \<open>The process state without the world and the lock tables: what a handler works on.\<close>

definition work :: "'w nfs_state \<Rightarrow> unit nfs_state" where
  "work s = (process s)\<lparr>PVLock := Map.empty, nfsPVLock := Map.empty\<rparr>"

lemma work_locks [simp]:
  "work (s\<lparr>world := w\<rparr>) = work s" "work (s\<lparr>PVLock := p\<rparr>) = work s" "work (s\<lparr>nfsPVLock := p\<rparr>) = work s"
  by (simp_all add: work_def process_def)

lemma process_work: "process s = process t \<Longrightarrow> work s = work t"
  by (simp add: work_def)

lemma work_fields:
  assumes "work s = work t"
  shows "exports_file s = exports_file t" and "generation s = generation t"
    and "syncedGeneration s = syncedGeneration t" and "nodeIPAddress s = nodeIPAddress t"
    and "exportCounts s = exportCounts t" and "nfsService s = nfsService t"
    and "savedUpdates s = savedUpdates t" and "pingRate s = pingRate t"
  using assms by (simp_all add: work_def process_def)

end
