(* ===== verification/Sample_Env.thy ===== *)
theory Sample_Env
  imports Env
begin

text \<open>
  A concrete outside world for the examples that show the hypotheses of the properties can hold:
  system calls, commands, mounts and remote calls succeed, and the client set is an in-memory
  object store like the fake client set the repository's tests use. It stands for nothing in the
  source.
\<close>

record sample_world =
  w_services :: "((string \<times> string) \<times> Service) list"
  w_slices :: "((string \<times> string) \<times> EndpointSlice) list"
  w_nodes :: "(string \<times> Node) list"
  w_volumes :: "(string \<times> PersistentVolume) list"
  w_log :: "string list"

definition sample_start :: sample_world where
  "sample_start = \<lparr>w_services = [], w_slices = [], w_nodes = [], w_volumes = [], w_log = []\<rparr>"

abbreviation ok_err :: "'w \<Rightarrow> err \<times> 'w" where
  "ok_err \<equiv> Pair None"

definition note_call :: "string \<Rightarrow> sample_world \<Rightarrow> sample_world" where
  "note_call c w = w\<lparr>w_log := w_log w @ [c]\<rparr>"

definition sample_os :: "sample_world OSInterface" where
  "sample_os = \<lparr>os_Getenv = (\<lambda>_ _. []), os_Stat = (\<lambda>_. ok_err), os_MkdirAll = (\<lambda>_ _. ok_err),
     os_Chown = (\<lambda>_ _ _. ok_err), os_Chmod = (\<lambda>_ _. ok_err), os_Open = (\<lambda>_. ok_err),
     os_OpenFile = (\<lambda>_. ok_err), file_Read = Pair None, file_Write = (\<lambda>_. Pair None),
     file_Close = ok_err\<rparr>"

definition sample_exec :: "sample_world Executor" where
  "sample_exec = \<lparr>ExecuteCommand = (\<lambda>c _ w. (([], None), note_call c w)),
     ExecuteCommandContext = (\<lambda>c _ w. (([], None), note_call c w)),
     GetCombinedOutput = (\<lambda>_ w. (([], None), note_call ''mount'' w))\<rparr>"

definition sample_vcsi :: "sample_world HostDriver" where
  "sample_vcsi = \<lparr>vcsi_CreateVolume = (\<lambda>r w. ((Some \<lparr>cvr_VolumeId = Some (cv_Name r)\<rparr>, None), w)),
     vcsi_ControllerPublishVolume = (\<lambda>_ w. ((Some \<lparr>pubr_PublishContext = GoMap []\<rparr>, None), w)),
     vcsi_ControllerUnpublishVolume = (\<lambda>_ w. (None, note_call ''unpublish'' w)),
     vcsi_MountVolume = (\<lambda>v _ d c w. ((d @ ''/'' @ gm_get c ''ServiceName'', None), w)),
     vcsi_UnmountVolume = (\<lambda>_ _ _. ok_err)\<rparr>"

definition store_get :: "('k \<times> 'v) list \<Rightarrow> 'k \<Rightarrow> string + 'v" where
  "store_get al k = (case map_of al k of None \<Rightarrow> Inl ''not found'' | Some v \<Rightarrow> Inr v)"

definition sample_clientset :: "sample_world Clientset" where
  "sample_clientset = \<lparr>
     cs_CreateService = (\<lambda>ns v w. case map_of (w_services w) (ns, svc_name v) of
        None \<Rightarrow> (Inr v, w\<lparr>w_services := AList.update (ns, svc_name v) v (w_services w)\<rparr>)
      | Some _ \<Rightarrow> (Inl ''already exists'', w)),
     cs_GetService = (\<lambda>ns n w. (store_get (w_services w) (ns, n), w)),
     cs_UpdateService = (\<lambda>ns v w. case map_of (w_services w) (ns, svc_name v) of
        None \<Rightarrow> (Inl ''not found'', w)
      | Some _ \<Rightarrow> (Inr v, w\<lparr>w_services := AList.update (ns, svc_name v) v (w_services w)\<rparr>)),
     cs_DeleteService = (\<lambda>ns n w. case map_of (w_services w) (ns, n) of
        None \<Rightarrow> (Some ''not found'', w)
      | Some _ \<Rightarrow> (None, w\<lparr>w_services := AList.delete (ns, n) (w_services w)\<rparr>)),
     cs_CreateEndpointSlice = (\<lambda>ns v w. case map_of (w_slices w) (ns, es_name v) of
        None \<Rightarrow> (Inr v, w\<lparr>w_slices := AList.update (ns, es_name v) v (w_slices w)\<rparr>)
      | Some _ \<Rightarrow> (Inl ''already exists'', w)),
     cs_GetEndpointSlice = (\<lambda>ns n w. (store_get (w_slices w) (ns, n), w)),
     cs_UpdateEndpointSlice = (\<lambda>ns v w. case map_of (w_slices w) (ns, es_name v) of
        None \<Rightarrow> (Inl ''not found'', w)
      | Some _ \<Rightarrow> (Inr v, w\<lparr>w_slices := AList.update (ns, es_name v) v (w_slices w)\<rparr>)),
     cs_DeleteEndpointSlice = (\<lambda>ns n w. case map_of (w_slices w) (ns, n) of
        None \<Rightarrow> (Some ''not found'', w)
      | Some _ \<Rightarrow> (None, w\<lparr>w_slices := AList.delete (ns, n) (w_slices w)\<rparr>)),
     cs_ListEndpointSlices = (\<lambda>ns sel w. (Inr (map snd (w_slices w)), w)),
     cs_GetPersistentVolume = (\<lambda>n w. (store_get (w_volumes w) n, w)),
     cs_GetNode = (\<lambda>n w. (store_get (w_nodes w) n, w)),
     cs_ListNodes = (\<lambda>w. (Inr (map snd (w_nodes w)), w)),
     cs_IsNotFound = (\<lambda>m. Contains m ''not found''),
     rest_InClusterConfig = ok_err, kubernetes_NewForConfig = ok_err\<rparr>"

definition sample_client :: "sample_world NfsClient" where
  "sample_client = \<lparr>grpc_NewClient = (\<lambda>_. ok_err),
     rpc_ExportNfsVolume = (\<lambda>_ r w. ((Some \<lparr>expr_VolumeId = exp_VolumeId r, expr_ExportNfsContext = NilMap\<rparr>, None), w)),
     rpc_UnexportNfsVolume = (\<lambda>_ r w. ((Some \<lparr>unexpr_VolumeId = unexp_VolumeId r, unexpr_UnexportNfsContext = NilMap\<rparr>, None), w)),
     rpc_Ping = (\<lambda>_ _ w. ((Some \<lparr>pingr_Ready = True, pingr_Status = []\<rparr>, None), w)),
     rpc_GetExports = (\<lambda>_ w. ((Some \<lparr>getr_Exports = []\<rparr>, None), w)),
     net_Listen = (\<lambda>_. ok_err), grpc_Serve = ok_err\<rparr>"

definition sample_runtime :: "sample_world Runtime" where
  "sample_runtime = \<lparr>time_Sleep = (\<lambda>_ w. w), select_done = Pair False, ctx_Err = (\<lambda>_. ''context deadline exceeded''),
     select_timeout = Pair False, unicode_ToLower = (\<lambda>s. s),
     json_UnmarshalMap = (\<lambda>s. Inr (GoMap [(''driver'', s)])),
     fmt_EndpointSlice = (\<lambda>_. ''slice''), fmt_Service = (\<lambda>_. ''service'')\<rparr>"

definition sample_env :: "sample_world env" where
  "sample_env = \<lparr>NodeRoot = ''/noderoot'', NfsExportDirectory = ''/e'', DriverNamespace = ''ns'',
     DriverName = ''driver'', opSys = sample_os, exec = sample_exec, vcsi = sample_vcsi,
     clientset = sample_clientset, nfsClient = sample_client, runtime = sample_runtime\<rparr>"

definition sample_service :: CsiNfsService where
  "sample_service = \<lparr>provisionerName = ''p'', mode = ''node'', nodeID = [], svc_nodeIPAddress = ''10.0.0.1'',
     podCIDR = ''10.0.0.0/8'', nodeName = ''n1'', failureRetries = 10, k8sclient = True,
     waitCreateNfsServiceInterval = 10 * Second, nfsServerPort = ''2049'', nfsClientServicePort = ''2050''\<rparr>"

text \<open>A process whose export file has the given content.\<close>

definition sample_state :: "string \<Rightarrow> sample_world nfs_state" where
  "sample_state c = \<lparr>nfsService = sample_service, PVLock = Map.empty, nfsPVLock = Map.empty,
     exports_file = Some c, generation = 0, syncedGeneration = 0, savedUpdates = 0,
     nodeIPAddress = [], exportCounts = [], pingRate = 15 * Second, world = sample_start\<rparr>"

lemmas sample_defs =
  sample_env_def sample_os_def sample_exec_def sample_vcsi_def sample_clientset_def
  sample_client_def sample_runtime_def sample_state_def sample_service_def sample_start_def
  note_call_def store_get_def

lemma sample_service_name: "VolumeIDToServiceName uc ''nfs-v1'' = ''nfs-v1''"
  by (rule service_name_valid_id)
     (simp_all flip: matches_iff_valid_id add: matches_validIDRegex_def terminal_char_def separator_char_def)

end
