(* ===== verification/Exports.thy ===== *)
theory Exports
  imports Sample_Env
begin

text \<open>
  The node's export table (\<open>src/nfs/exports.go\<close>): reading, adding and deleting entries of
  \<open>/noderoot/etc/exports\<close>, and the resynchronisation of the kernel's table with generation
  counters. Every function holds \<open>exportsLock\<close> from its start to its end, so a call is one atomic
  step; the theory \<open>Exports_Race\<close> treats what happens between two calls.
\<close>

section \<open>Definitions\<close>

definition exportsDir :: string where
  "exportsDir = ''/noderoot/etc/''"

definition pathToExports :: string where
  "pathToExports = exportsDir @ ''exports''"

definition nodeRoot :: string where
  "nodeRoot = ''/noderoot''"

definition exportfs :: string where
  "exportfs = ''/usr/sbin/exportfs''"

definition retrySleep :: nat where
  "retrySleep = 10 * Second"

text \<open>Opening the file: the error of the system, with a missing file always an error.\<close>

definition open_exports :: "('w OSInterface \<Rightarrow> string \<Rightarrow> 'w \<Rightarrow> err \<times> 'w) \<Rightarrow> 'w env \<Rightarrow> ('w nfs_state, err) state" where
  "open_exports op E = do {
     s \<leftarrow> State_Monad.get;
     case exports_file s of
       None \<Rightarrow> State_Monad.return (Some (''open '' @ pathToExports @ '': no such file or directory''))
     | Some _ \<Rightarrow> ext (op (opSys E) pathToExports) }"

text \<open>Scanning the open file: the lines and \<open>scanner.Err()\<close>.\<close>

definition scan_exports :: "'w env \<Rightarrow> ('w nfs_state, string list \<times> err) state" where
  "scan_exports E = do {
     s \<leftarrow> State_Monad.get;
     fault \<leftarrow> ext (file_Read (opSys E));
     State_Monad.return (scan_file (case exports_file s of None \<Rightarrow> [] | Some c \<Rightarrow> c) fault) }"

text \<open>
  \<open>file.WriteString(entry)\<close> at the end of the file: on an error only some of the bytes arrive.
\<close>

definition write_exports :: "'w env \<Rightarrow> string \<Rightarrow> ('w nfs_state, err) state" where
  "write_exports E entry = do {
     fault \<leftarrow> ext (file_Write (opSys E) entry);
     let written = (case fault of None \<Rightarrow> entry | Some (n, _) \<Rightarrow> take n entry);
     _ \<leftarrow> State_Monad.update (\<lambda>s. s\<lparr>exports_file := map_option (\<lambda>c. c @ written) (exports_file s)\<rparr>);
     State_Monad.return (map_option snd fault) }"

definition checkExport :: "'w env \<Rightarrow> string \<Rightarrow> ('w nfs_state, bool \<times> err) state" where
  "checkExport E directory = do {
     e \<leftarrow> open_exports os_Open E;
     case e of
       Some m \<Rightarrow> State_Monad.return (False, Some (''failed to open '' @ pathToExports @ '': '' @ m))
     | None \<Rightarrow> do {
         (ls, e) \<leftarrow> scan_exports E;
         if \<exists>l \<in> set ls. HasPrefix (TrimSpace l) directory then State_Monad.return (True, None)
         else case e of
           Some m \<Rightarrow> State_Monad.return (False, Some (''error reading '' @ exportsDir @ '': '' @ m))
         | None \<Rightarrow> State_Monad.return (False, None) } }"

definition CheckExport :: "'w env \<Rightarrow> string \<Rightarrow> ('w nfs_state, bool \<times> err) state" where
  "CheckExport E directory = checkExport E directory"

definition GetExport :: "'w env \<Rightarrow> string \<Rightarrow> ('w nfs_state, string \<times> err) state" where
  "GetExport E directory = do {
     e \<leftarrow> open_exports os_Open E;
     case e of
       Some m \<Rightarrow> State_Monad.return ([], Some (''failed to open '' @ exportsDir @ '': '' @ m))
     | None \<Rightarrow> do {
         (ls, e) \<leftarrow> scan_exports E;
         case find (\<lambda>l. HasPrefix l directory) (map TrimSpace ls) of
           Some l \<Rightarrow> State_Monad.return (l, None)
         | None \<Rightarrow> (case e of
             Some m \<Rightarrow> State_Monad.return ([], Some (''error reading '' @ exportsDir @ '': '' @ m))
           | None \<Rightarrow> State_Monad.return ([], Some (''no export entry found for '' @ directory))) } }"

definition GetExports :: "'w env \<Rightarrow> string \<Rightarrow> ('w nfs_state, string list \<times> err) state" where
  "GetExports E pre = do {
     e \<leftarrow> open_exports os_Open E;
     case e of
       Some m \<Rightarrow> State_Monad.return ([], Some m)
     | None \<Rightarrow> do {
         (ls, e) \<leftarrow> scan_exports E;
         case e of
           Some m \<Rightarrow> State_Monad.return ([], Some m)
         | None \<Rightarrow> State_Monad.return (filter (\<lambda>l. HasPrefix l pre) ls, None) } }"

definition bump_generation :: "('w nfs_state, 64 word) state" where
  "bump_generation = do {
     _ \<leftarrow> State_Monad.update (\<lambda>s. s\<lparr>generation := generation s + 1\<rparr>);
     s \<leftarrow> State_Monad.get;
     State_Monad.return (generation s) }"

text \<open>The current generation with an error, the result of every failed update.\<close>

definition fail_generation :: "string \<Rightarrow> ('w nfs_state, 64 word \<times> err) state" where
  "fail_generation m = do {
     s \<leftarrow> State_Monad.get;
     State_Monad.return (generation s, Some m) }"

definition AddExport :: "'w env \<Rightarrow> string \<Rightarrow> string \<Rightarrow> ('w nfs_state, 64 word \<times> err) state" where
  "AddExport E directory options = do {
     (exists, e) \<leftarrow> checkExport E directory;
     case e of
       Some m \<Rightarrow> fail_generation m
     | None \<Rightarrow>
         if exists then fail_generation (''export entry for '' @ directory @ '' already exists'')
         else do {
           e \<leftarrow> open_exports os_OpenFile E;
           case e of
             Some m \<Rightarrow> fail_generation (''failed to open '' @ exportsDir @ '': '' @ m)
           | None \<Rightarrow> do {
               e \<leftarrow> write_exports E (directory @ '' '' @ options @ [newline]);
               case e of
                 Some m \<Rightarrow> fail_generation (''failed to write to '' @ exportsDir @ '': '' @ m)
               | None \<Rightarrow> do {
                   g \<leftarrow> bump_generation;
                   State_Monad.return (g, None) } } } }"

text \<open>
  The loop that writes the kept lines back. After a failed write the variable \<open>err\<close> is
  overwritten by the result of \<open>file.Close()\<close>, and it is that result the message shows.
\<close>

fun write_lines :: "'w env \<Rightarrow> string list \<Rightarrow> ('w nfs_state, err) state" where
  "write_lines E [] = State_Monad.return None"
| "write_lines E (l # ls) = do {
     e \<leftarrow> write_exports E (l @ [newline]);
     case e of
       Some _ \<Rightarrow> do {
         c \<leftarrow> ext (file_Close (opSys E));
         State_Monad.return (Some (''failed to write to '' @ exportsDir @ '': '' @ fmt_err c)) }
     | None \<Rightarrow> write_lines E ls }"

definition DeleteExport :: "'w env \<Rightarrow> string \<Rightarrow> ('w nfs_state, 64 word \<times> err) state" where
  "DeleteExport E directory = do {
     e \<leftarrow> open_exports os_Open E;
     case e of
       Some m \<Rightarrow> fail_generation (''failed to open '' @ exportsDir @ '': '' @ m)
     | None \<Rightarrow> do {
         (ls, e) \<leftarrow> scan_exports E;
         case e of
           Some m \<Rightarrow> fail_generation (''error reading '' @ exportsDir @ '': '' @ m)
         | None \<Rightarrow> do {
             e \<leftarrow> ext (file_Close (opSys E));
             case e of
               Some m \<Rightarrow> fail_generation (''failed to close '' @ exportsDir @ '': '' @ m)
             | None \<Rightarrow> do {
                 e \<leftarrow> open_exports os_OpenFile E;
                 case e of
                   Some m \<Rightarrow> fail_generation (''failed to open '' @ exportsDir @ '': '' @ m)
                 | None \<Rightarrow> do {
                     _ \<leftarrow> State_Monad.update (\<lambda>s. s\<lparr>exports_file := Some []\<rparr>);
                     e \<leftarrow> write_lines E
                       (filter (\<lambda>l. \<not> HasPrefix l directory) (map TrimSpace ls));
                     case e of
                       Some m \<Rightarrow> fail_generation m
                     | None \<Rightarrow> do {
                         g \<leftarrow> bump_generation;
                         State_Monad.return (g, None) } } } } } }"

definition isNfsMountdActive :: "'w env \<Rightarrow> ('w nfs_state, bool) state" where
  "isNfsMountdActive E = do {
     (_, e) \<leftarrow> ext (ExecuteCommand (exec E) ''chroot''
       [''/noderoot'', ''ssh'', ''localhost'', ''systemctl'', ''is-active'', ''--quiet'', ''nfs-mountd'']);
     State_Monad.return (e = None) }"

text \<open>The wait for \<open>nfs-mountd\<close>, one round of the \<open>select\<close> per unit of fuel.\<close>

fun await_mountd :: "'w env \<Rightarrow> nat \<Rightarrow> ('w nfs_state, err outcome) state" where
  "await_mountd E 0 = State_Monad.return Running"
| "await_mountd E (Suc fuel) = do {
     timeout \<leftarrow> ext (select_timeout (runtime E));
     if timeout then State_Monad.return
       (Done (Some ''timeout reached: nfs-mountd did not restart within 30s''))
     else do {
       active \<leftarrow> isNfsMountdActive E;
       if active then do {
         _ \<leftarrow> bump_generation;
         State_Monad.return (Done None) }
       else await_mountd E fuel } }"

definition restartNFSMountd :: "'w env \<Rightarrow> nat \<Rightarrow> ('w nfs_state, err outcome) state" where
  "restartNFSMountd E fuel = do {
     (out, e) \<leftarrow> ext (ExecuteCommand (exec E) ''chroot''
       [''/noderoot'', ''ssh'', ''localhost'', ''systemctl'', ''restart'', ''nfs-mountd'']);
     case e of
       Some m \<Rightarrow> State_Monad.return
         (Done (Some (''failed to restart nfs-mountd: '' @ m @ '', output: '' @ out)))
     | None \<Rightarrow> await_mountd E fuel }"

text \<open>The attempts of \<open>ResyncNFSMountd\<close>; \<open>err0\<close> is the variable \<open>err\<close> of the function.\<close>

fun resync_loop :: "'w env \<Rightarrow> 64 word \<Rightarrow> nat \<Rightarrow> err \<Rightarrow> ('w nfs_state, err) state" where
  "resync_loop E gen 0 err0 = State_Monad.return err0"
| "resync_loop E gen (Suc n) err0 = do {
     (_, e) \<leftarrow> ext (ExecuteCommand (exec E) ''chroot'' [nodeRoot, exportfs, ''-r'']);
     if e = None then do {
       _ \<leftarrow> State_Monad.update (\<lambda>s. s\<lparr>syncedGeneration := gen\<rparr>);
       State_Monad.return None }
     else do {
       _ \<leftarrow> sleep E retrySleep;
       resync_loop E gen n e } }"

definition ResyncNFSMountd :: "'w env \<Rightarrow> 64 word \<Rightarrow> ('w nfs_state, err) state" where
  "ResyncNFSMountd E gen = do {
     s \<leftarrow> State_Monad.get;
     if gen \<le>s syncedGeneration s then do {
       _ \<leftarrow> State_Monad.update (\<lambda>s. s\<lparr>savedUpdates := savedUpdates s + 1\<rparr>);
       State_Monad.return None }
     else resync_loop E gen 2 None }"

section \<open>Lemmas\<close>

text \<open>No system call on the export file fails.\<close>

definition io_ok :: "'w env \<Rightarrow> bool" where
  "io_ok E \<longleftrightarrow>
     (\<forall>p w. fst (os_Open (opSys E) p w) = None) \<and> (\<forall>p w. fst (os_OpenFile (opSys E) p w) = None) \<and>
     (\<forall>w. fst (file_Read (opSys E) w) = None) \<and> (\<forall>x w. fst (file_Write (opSys E) x w) = None) \<and>
     (\<forall>w. fst (file_Close (opSys E) w) = None)"

text \<open>The entries of the table as the code reads them: trimmed lines.\<close>

definition exports_lines :: "string \<Rightarrow> string list" where
  "exports_lines c = map (\<lambda>l. TrimSpace (dropCR l)) (raw_lines c)"

definition export_entries :: "'w nfs_state \<Rightarrow> string list" where
  "export_entries s = (case exports_file s of None \<Rightarrow> [] | Some c \<Rightarrow> exports_lines c)"

text \<open>The file ends its last line, and every line fits the scanner.\<close>

definition wf_exports :: "string \<Rightarrow> bool" where
  "wf_exports c \<longleftrightarrow>
     (c = [] \<or> last c = newline) \<and> (\<forall>l \<in> set (raw_lines c). length l < MaxScanTokenSize)"

definition exports_inv :: "'w env \<Rightarrow> 'w nfs_state \<Rightarrow> bool" where
  "exports_inv E s \<longleftrightarrow> io_ok E \<and> (\<exists>c. exports_file s = Some c \<and> wf_exports c)"

text \<open>An entry that reads back as it was written.\<close>

definition clean_entry :: "string \<Rightarrow> bool" where
  "clean_entry l \<longleftrightarrow> newline \<notin> set l \<and> TrimSpace l = l \<and> length l < MaxScanTokenSize"

definition unlines :: "string list \<Rightarrow> string" where
  "unlines ls = concat (map (\<lambda>l. l @ [newline]) ls)"

lemma scan_file_wf: "wf_exports c \<Longrightarrow> scan_file c None = (map dropCR (raw_lines c), None)"
proof -
  assume "wf_exports c"
  then have fit: "takeWhile (\<lambda>l. length l < MaxScanTokenSize) (raw_lines c) = raw_lines c"
    by (simp add: wf_exports_def takeWhile_eq_all_conv)
  show ?thesis by (simp only: scan_file_def Let_def option.case fit) simp
qed

lemma raw_lines_append:
  "c = [] \<or> last c = newline \<Longrightarrow> raw_lines (c @ d) = raw_lines c @ raw_lines d"
proof (induction "length c" arbitrary: c rule: less_induct)
  case less
  show ?case
  proof (cases "c = []")
    case False
    with less.prems have "newline \<in> set c" by (metis last_in_set)
    then obtain p q where c: "c = p @ newline # q" and p: "newline \<notin> set p"
      by (meson split_list_first)
    have "raw_lines (q @ d) = raw_lines q @ raw_lines d"
      using less.hyps[of q] less.prems by (simp add: c split: if_splits)
    with p show ?thesis by (simp add: c raw_lines_append_line)
  qed simp
qed

lemma raw_lines_unlines:
  "(\<And>l. l \<in> set ls \<Longrightarrow> newline \<notin> set l) \<Longrightarrow> raw_lines (unlines ls) = ls"
  by (simp add: unlines_def raw_lines_concat)

lemma unlines_append: "unlines (xs @ ys) = unlines xs @ unlines ys"
  by (simp add: unlines_def)

lemma unlines_ends: "unlines ls = [] \<or> last (unlines ls) = newline"
  by (induction ls rule: rev_induct) (simp_all add: unlines_def)

lemma wf_unlines:
  "(\<And>l. l \<in> set ls \<Longrightarrow> clean_entry l) \<Longrightarrow> wf_exports (unlines ls) \<and> exports_lines (unlines ls) = ls"
proof -
  assume c: "\<And>l. l \<in> set ls \<Longrightarrow> clean_entry l"
  have r: "raw_lines (unlines ls) = ls" using c by (simp add: raw_lines_unlines clean_entry_def)
  have "TrimSpace (dropCR l) = l" if "l \<in> set ls" for l
    using c[OF that] dropCR_TrimSpace[of l] by (simp add: clean_entry_def)
  with c r show ?thesis
    by (simp add: wf_exports_def exports_lines_def unlines_ends clean_entry_def map_idI)
qed

lemma trimmed_line_clean:
  assumes "wf_exports c" and "l \<in> set (exports_lines c)"
  shows "clean_entry l"
proof -
  obtain r where r: "r \<in> set (raw_lines c)" and l: "l = TrimSpace (dropCR r)"
    using assms(2) by (auto simp: exports_lines_def)
  have "newline \<notin> set l"
    using raw_lines_no_newline[OF r] TrimSpace_set[of "dropCR r"] dropCR_set[of r] by (auto simp: l)
  moreover have "length l < MaxScanTokenSize"
    using assms(1) r TrimSpace_length[of "dropCR r"] dropCR_length[of r]
    by (fastforce simp: wf_exports_def l)
  ultimately show ?thesis by (simp add: clean_entry_def l)
qed

lemma exports_append_entry:
  assumes "wf_exports c" and "clean_entry l"
  shows "wf_exports (c @ l @ [newline]) \<and> exports_lines (c @ l @ [newline]) = exports_lines c @ [l]"
proof -
  have l: "raw_lines (l @ [newline]) = [l]"
    using assms(2) raw_lines_append_line[of l "[]"] by (simp add: clean_entry_def)
  have "TrimSpace (dropCR l) = l"
    using assms(2) dropCR_TrimSpace[of l] by (simp add: clean_entry_def)
  with assms l show ?thesis
    by (auto simp: wf_exports_def exports_lines_def raw_lines_append clean_entry_def)
qed

subsection \<open>The operations on a file that never fails\<close>

lemma open_ok:
  assumes "io_ok E" and "exports_file s = Some c"
  shows "run_state (open_exports os_Open E) s =
      (None, s\<lparr>world := snd (os_Open (opSys E) pathToExports (world s))\<rparr>)"
    and "run_state (open_exports os_OpenFile E) s =
      (None, s\<lparr>world := snd (os_OpenFile (opSys E) pathToExports (world s))\<rparr>)"
  using assms by (simp_all add: open_exports_def io_ok_def)

lemma scan_ok:
  assumes "io_ok E" and "exports_file s = Some c" and "wf_exports c"
  shows "run_state (scan_exports E) s =
    ((map dropCR (raw_lines c), None), s\<lparr>world := snd (file_Read (opSys E) (world s))\<rparr>)"
  using assms by (simp add: scan_exports_def io_ok_def scan_file_wf)

lemma write_ok:
  assumes "io_ok E"
  shows "run_state (write_exports E x) s =
    (None, s\<lparr>exports_file := map_option (\<lambda>c. c @ x) (exports_file s),
             world := snd (file_Write (opSys E) x (world s))\<rparr>)"
  using assms by (simp add: write_exports_def io_ok_def State_Monad.update_def)

lemma run_bump [simp]:
  "run_state bump_generation s = (generation s + 1, s\<lparr>generation := generation s + 1\<rparr>)"
  by (simp add: bump_generation_def State_Monad.update_def)

lemma run_fail [simp]: "run_state (fail_generation m) s = ((generation s, Some m), s)"
  by (simp add: fail_generation_def)

lemma write_lines_ok:
  assumes "io_ok E"
  shows "\<exists>w. run_state (write_lines E ls) s =
    (None, s\<lparr>exports_file := map_option (\<lambda>c. c @ unlines ls) (exports_file s), world := w\<rparr>)"
proof (induction ls arbitrary: s)
  case Nil
  have "s = s\<lparr>exports_file := map_option (\<lambda>c. c @ unlines []) (exports_file s), world := world s\<rparr>"
    by (simp add: unlines_def option.map_ident)
  then show ?case by (metis run_state_return write_lines.simps(1))
next
  case (Cons l ls)
  let ?t = "s\<lparr>exports_file := map_option (\<lambda>c. c @ l @ [newline]) (exports_file s),
    world := snd (file_Write (opSys E) (l @ [newline]) (world s))\<rparr>"
  from Cons.IH[of ?t] show ?case
    by (simp add: write_ok[OF assms] option.map_comp comp_def unlines_def)
qed

definition has_export :: "'w nfs_state \<Rightarrow> string \<Rightarrow> bool" where
  "has_export s d \<longleftrightarrow> (\<exists>l \<in> set (export_entries s). HasPrefix l d)"

lemma checkExport_ok:
  assumes "exports_inv E s"
  shows "\<exists>w. run_state (checkExport E d) s = ((has_export s d, None), s\<lparr>world := w\<rparr>)"
proof -
  obtain c where io: "io_ok E" and c: "exports_file s = Some c" "wf_exports c"
    using assms by (auto simp: exports_inv_def)
  have "has_export s d \<longleftrightarrow> (\<exists>l \<in> set (map dropCR (raw_lines c)). HasPrefix (TrimSpace l) d)"
    by (simp add: has_export_def export_entries_def c exports_lines_def)
  with io c show ?thesis
    by (auto simp: checkExport_def open_ok[OF io c(1)] scan_ok[where c = c])
qed

lemma GetExports_ok:
  assumes "exports_inv E s" and "exports_file s = Some c"
  shows "\<exists>w. run_state (GetExports E pre) s =
    ((filter (\<lambda>l. HasPrefix l pre) (map dropCR (raw_lines c)), None), s\<lparr>world := w\<rparr>)"
  using assms
  by (auto simp: exports_inv_def GetExports_def open_ok[where c = c] scan_ok[where c = c])

lemma AddExport_ok:
  assumes inv: "exports_inv E s" and fresh: "\<not> has_export s d"
    and entry: "clean_entry (d @ '' '' @ opts)"
  shows "\<exists>s'. run_state (AddExport E d opts) s = ((generation s + 1, None), s') \<and>
    exports_inv E s' \<and> export_entries s' = export_entries s @ [d @ '' '' @ opts] \<and>
    generation s' = generation s + 1 \<and> syncedGeneration s' = syncedGeneration s"
proof -
  obtain c where io: "io_ok E" and c: "exports_file s = Some c" "wf_exports c"
    using inv by (auto simp: exports_inv_def)
  obtain w where w: "run_state (checkExport E d) s = ((False, None), s\<lparr>world := w\<rparr>)"
    using checkExport_ok[OF inv, of d] fresh by auto
  note app = exports_append_entry[OF c(2) entry]
  from io c app show ?thesis
    by (simp add: AddExport_def w open_ok[where c = c] write_ok exports_inv_def export_entries_def)
qed

lemma AddExport_duplicate:
  assumes inv: "exports_inv E s" and dup: "has_export s d"
  shows "\<exists>w. run_state (AddExport E d opts) s =
    ((generation s, Some (''export entry for '' @ d @ '' already exists'')), s\<lparr>world := w\<rparr>)"
  using checkExport_ok[OF inv, of d] dup by (auto simp: AddExport_def)

lemma DeleteExport_ok:
  assumes inv: "exports_inv E s"
  shows "\<exists>s'. run_state (DeleteExport E d) s = ((generation s + 1, None), s') \<and>
    exports_inv E s' \<and> export_entries s' = filter (\<lambda>l. \<not> HasPrefix l d) (export_entries s) \<and>
    generation s' = generation s + 1 \<and> syncedGeneration s' = syncedGeneration s"
proof -
  obtain c where io: "io_ok E" and c: "exports_file s = Some c" "wf_exports c"
    using inv by (auto simp: exports_inv_def)
  let ?ls = "filter (\<lambda>l. \<not> HasPrefix l d) (exports_lines c)"
  have keep: "filter (\<lambda>l. \<not> HasPrefix l d) (map TrimSpace (map dropCR (raw_lines c))) = ?ls"
    by (simp add: exports_lines_def comp_def)
  have wf: "wf_exports (unlines ?ls) \<and> exports_lines (unlines ?ls) = ?ls"
    using trimmed_line_clean[OF c(2)] by (intro wf_unlines) auto
  have clo: "fst (file_Close (opSys E) w) = None" for w using io by (simp add: io_ok_def)
  define t where "t = s\<lparr>world := snd (os_OpenFile (opSys E) pathToExports (snd (file_Close (opSys E)
    (snd (file_Read (opSys E) (snd (os_Open (opSys E) pathToExports (world s)))))))),
    exports_file := Some []\<rparr>"
  obtain w where w: "run_state (write_lines E ?ls) t =
      (None, t\<lparr>exports_file := Some (unlines ?ls), world := w\<rparr>)"
    using write_lines_ok[OF io, of ?ls t] by (auto simp: t_def)
  have "run_state (DeleteExport E d) s =
    ((generation s + 1, None), t\<lparr>exports_file := Some (unlines ?ls), world := w, generation := generation s + 1\<rparr>)"
    using io c clo w
    by (simp add: DeleteExport_def open_ok[where c = c] scan_ok[where c = c] keep
        State_Monad.update_def t_def del: map_map)
  with io wf c show ?thesis by (simp add: exports_inv_def export_entries_def t_def)
qed

subsection \<open>The operations on any file\<close>

lemma open_exports_process: "run_state (open_exports op E) s = (e, t) \<Longrightarrow> process t = process s"
  by (auto simp: open_exports_def split: option.splits)

lemma open_exports_exists:
  "run_state (open_exports op E) s = (None, t) \<Longrightarrow> \<exists>c. exports_file s = Some c"
  by (auto simp: open_exports_def split: option.splits)

lemma scan_exports_process: "run_state (scan_exports E) s = (r, t) \<Longrightarrow> process t = process s"
  by (auto simp: scan_exports_def)

lemma scan_file_complete:
  assumes "scan_file c fault = (ls, None)"
  shows "map TrimSpace ls = exports_lines c"
proof -
  let ?raw = "raw_lines (case fault of None \<Rightarrow> c | Some (n, _) \<Rightarrow> take n c)"
  let ?fit = "takeWhile (\<lambda>l. length l < MaxScanTokenSize) ?raw"
  have none: "fault = None" and len: "\<not> length ?fit < length ?raw" and ls: "ls = map dropCR ?fit"
    using assms by (auto simp: scan_file_def Let_def split: if_splits)
  have fit: "?fit = ?raw"
    using len length_takeWhile_le[of "\<lambda>l. length l < MaxScanTokenSize" ?raw]
    by (metis linorder_not_less order_antisym takeWhile_eq_take take_all)
  show ?thesis unfolding ls fit by (simp add: none exports_lines_def comp_def)
qed

lemma scan_exports_complete:
  assumes "run_state (scan_exports E) s = ((ls, None), t)" and "exports_file s = Some c"
  shows "map TrimSpace ls = exports_lines c"
  using assms by (auto simp: scan_exports_def intro: scan_file_complete)

lemma write_exports_effect:
  assumes "run_state (write_exports E x) s = (e, t)" and "exports_file s = Some c"
  shows "\<exists>p. prefix p x \<and> exports_file t = Some (c @ p) \<and> (e = None \<longrightarrow> p = x) \<and>
    generation t = generation s \<and> syncedGeneration t = syncedGeneration s"
  using assms
  by (auto simp: write_exports_def take_is_prefix split: option.splits prod.splits)

lemma write_lines_effect:
  assumes "run_state (write_lines E ls) s = (e, t)" and "exports_file s = Some c"
  shows "\<exists>p. prefix p (unlines ls) \<and> exports_file t = Some (c @ p) \<and> (e = None \<longrightarrow> p = unlines ls) \<and>
    generation t = generation s \<and> syncedGeneration t = syncedGeneration s"
  using assms
proof (induction ls arbitrary: s c)
  case Nil
  then show ?case by (simp add: unlines_def)
next
  case (Cons l ls)
  from Cons.prems(1)[unfolded write_lines.simps] obtain e1 u where w: "run_state (write_exports E (l @ [newline])) s = (e1, u)"
    and rest: "run_state (case e1 of None \<Rightarrow> write_lines E ls
       | Some _ \<Rightarrow> do { c \<leftarrow> ext (file_Close (opSys E));
          State_Monad.return (Some (''failed to write to '' @ exportsDir @ '': '' @ fmt_err c)) }) u = (e, t)"
    by (rule run_bindE)
  from write_exports_effect[OF w Cons.prems(2)] obtain p where p: "prefix p (l @ [newline])"
    "exports_file u = Some (c @ p)" "e1 = None \<longrightarrow> p = l @ [newline]"
    "generation u = generation s" "syncedGeneration u = syncedGeneration s" by blast
  have ul: "unlines (l # ls) = (l @ [newline]) @ unlines ls" by (simp add: unlines_def)
  show ?case
  proof (cases e1)
    case None
    with rest have r: "run_state (write_lines E ls) u = (e, t)" by simp
    from None p have "exports_file u = Some (c @ l @ [newline])" by simp
    from Cons.IH[OF r this] obtain q where "prefix q (unlines ls)"
      "exports_file t = Some ((c @ l @ [newline]) @ q)" "e = None \<longrightarrow> q = unlines ls"
      "generation t = generation u" "syncedGeneration t = syncedGeneration u" by auto
    with p show ?thesis by (intro exI[of _ "(l @ [newline]) @ q"]) (simp add: ul)
  next
    case (Some m)
    with rest have "e \<noteq> None" "exports_file t = Some (c @ p)" "generation t = generation s"
      "syncedGeneration t = syncedGeneration s"
      using p by auto
    with p(1) show ?thesis unfolding ul by (metis prefix_prefix)
  qed
qed

text \<open>
  \<open>DeleteExport\<close> fails before it has touched the file, or it truncates the file and rewrites it.
\<close>

lemma DeleteExport_cases:
  assumes run: "run_state (DeleteExport E d) s = ((g, e), t)"
  obtains (early) "e \<noteq> None" and "process t = process s" and "g = generation s"
  | (rewrite) u e' v where "process u = process s"
      and "run_state (write_lines E (filter (\<lambda>l. \<not> HasPrefix l d) (export_entries s)))
        (u\<lparr>exports_file := Some []\<rparr>) = (e', v)"
      and "e = e'" and "if e = None then g = generation v + 1 \<and> t = v\<lparr>generation := generation v + 1\<rparr>
        else g = generation v \<and> t = v"
proof -
  obtain e1 s1 where o1: "run_state (open_exports os_Open E) s = (e1, s1)" by fastforce
  note p1 = open_exports_process[OF o1]
  obtain ls e2 s2 where o2: "run_state (scan_exports E) s1 = ((ls, e2), s2)" by (metis surj_pair)
  have p2: "process s2 = process s" using scan_exports_process[OF o2] p1 by simp
  obtain e3 s3 where o3: "run_state (ext (file_Close (opSys E))) s2 = (e3, s3)" by fastforce
  have p3: "process s3 = process s" using o3 p2 by auto
  obtain e4 s4 where o4: "run_state (open_exports os_OpenFile E) s3 = (e4, s4)" by fastforce
  have p4: "process s4 = process s" using open_exports_process[OF o4] p3 by simp
  note steps = DeleteExport_def o1 o2 o3 o4
  consider (e1) m where "e1 = Some m" | (e2) m where "e1 = None" "e2 = Some m"
    | (e3) m where "e1 = None" "e2 = None" "e3 = Some m"
    | (e4) m where "e1 = None" "e2 = None" "e3 = None" "e4 = Some m"
    | (ok) "e1 = None" "e2 = None" "e3 = None" "e4 = None"
    by (cases e1; cases e2; cases e3; cases e4) auto
  then show ?thesis
  proof cases
    case ok
    from o1 ok obtain c where c: "exports_file s = Some c" using open_exports_exists by blast
    then have c1: "exports_file s1 = Some c" by (simp add: process_fields(3)[OF p1])
    have ls: "map TrimSpace ls = export_entries s"
      using scan_exports_complete[of E s1 ls s2 c] o2 ok c1 by (simp add: export_entries_def c)
    obtain e5 s5 where w: "run_state (write_lines E (filter (\<lambda>l. \<not> HasPrefix l d) (export_entries s)))
        (s4\<lparr>exports_file := Some []\<rparr>) = (e5, s5)" by fastforce
    show ?thesis
      using run ok w by (intro rewrite[OF p4 w]) (auto simp: steps ls simp del: run_ext split: option.splits)
  qed (use run p1 p2 p3 p4 in \<open>auto simp: steps process_fields(4)[OF p1] process_fields(4)[OF p2]
    process_fields(4)[OF p3] process_fields(4)[OF p4] simp del: run_ext intro!: early\<close>)
qed

lemma DeleteExport_effect:
  assumes "run_state (DeleteExport E d) s = ((g, e), t)"
  shows "g = generation t \<and> syncedGeneration t = syncedGeneration s \<and>
    (if e = None then generation t = generation s + 1 \<and>
       exports_file t = Some (unlines (filter (\<lambda>l. \<not> HasPrefix l d) (export_entries s)))
     else generation t = generation s \<and> (exports_file t = exports_file s \<or>
       (\<exists>p. exports_file t = Some p \<and>
         prefix p (unlines (filter (\<lambda>l. \<not> HasPrefix l d) (export_entries s))))))"
  using assms
proof (cases rule: DeleteExport_cases)
  case early
  then show ?thesis by (simp add: process_fields[of t s])
next
  case (rewrite u e' v)
  let ?new = "unlines (filter (\<lambda>l. \<not> HasPrefix l d) (export_entries s))"
  from write_lines_effect[OF rewrite(2), of "[]"] obtain p where "prefix p ?new"
    "exports_file v = Some p" "e' = None \<longrightarrow> p = ?new" "generation v = generation s"
    "syncedGeneration v = syncedGeneration s"
    using process_fields[OF rewrite(1)] by auto
  with rewrite(3,4) show ?thesis by (auto split: if_splits)
qed

lemma checkExport_effect:
  assumes "run_state (checkExport E d) s = ((b, e), t)"
  shows "process t = process s \<and> (e = None \<and> \<not> b \<longrightarrow> \<not> has_export s d)"
proof -
  obtain e1 s1 where o1: "run_state (open_exports os_Open E) s = (e1, s1)" by fastforce
  note p1 = open_exports_process[OF o1]
  obtain ls e2 s2 where o2: "run_state (scan_exports E) s1 = ((ls, e2), s2)" by (metis surj_pair)
  have p2: "process s2 = process s" using scan_exports_process[OF o2] p1 by simp
  note steps = checkExport_def o1 o2
  show ?thesis
  proof (cases e1)
    case (Some m)
    with assms p1 show ?thesis by (auto simp: steps)
  next
    case None
    with o1 obtain c where c: "exports_file s = Some c" using open_exports_exists by blast
    have "map TrimSpace ls = export_entries s" if "e2 = None"
      using scan_exports_complete[of E s1 ls s2 c] o2 that c process_fields(3)[OF p1]
      by (simp add: export_entries_def)
    then have "has_export s d \<longleftrightarrow> (\<exists>l \<in> set ls. HasPrefix (TrimSpace l) d)" if "e2 = None"
      using that by (metis (no_types, lifting) has_export_def image_iff list.set_map)
    with assms None p2 show ?thesis by (auto simp: steps split: if_splits option.splits)
  qed
qed

lemma AddExport_effect:
  assumes run: "run_state (AddExport E d opts) s = ((g, e), t)"
  shows "g = generation t \<and> syncedGeneration t = syncedGeneration s \<and>
    (if e = None then generation t = generation s + 1 \<and> \<not> has_export s d \<and>
       (\<exists>c. exports_file s = Some c \<and> exports_file t = Some (c @ d @ '' '' @ opts @ [newline]))
     else generation t = generation s \<and>
       (\<exists>p. prefix p (d @ '' '' @ opts @ [newline]) \<and>
          exports_file t = map_option (\<lambda>c. c @ p) (exports_file s)))"
proof -
  let ?entry = "d @ '' '' @ opts @ [newline]"
  obtain b e1 s1 where o1: "run_state (checkExport E d) s = ((b, e1), s1)" by (metis surj_pair)
  note p1 = checkExport_effect[OF o1, THEN conjunct1]
  obtain e2 s2 where o2: "run_state (open_exports os_OpenFile E) s1 = (e2, s2)" by fastforce
  have p2: "process s2 = process s" using open_exports_process[OF o2] p1 by simp
  obtain e3 s3 where o3: "run_state (write_exports E ?entry) s2 = (e3, s3)" by fastforce
  note steps = AddExport_def o1 o2 o3
  note f1 = process_fields[OF p1] and f2 = process_fields[OF p2]
  consider (early) "process t = process s" "e \<noteq> None" "g = generation s"
    | (append) "e1 = None" "\<not> b" "e2 = None"
  proof (cases "e1 = None \<and> \<not> b \<and> e2 = None")
    case False
    with run p1 p2 have "process t = process s" "e \<noteq> None" "g = generation s"
      by (auto simp: steps f1 f2 simp del: append.simps split: option.splits if_splits)
    then show ?thesis by (rule early)
  qed (use append in blast)
  then show ?thesis
  proof cases
    case early
    have "exports_file t = map_option (\<lambda>c. c @ []) (exports_file s)"
      using process_fields(3)[OF early(1)] by (simp add: option.map_ident)
    with early show ?thesis by (auto simp: process_fields[OF early(1)] intro!: exI[of _ "[]"])
  next
    case append
    with o2 obtain c where "exports_file s1 = Some c" using open_exports_exists by blast
    then have c: "exports_file s = Some c" "exports_file s2 = Some c" by (simp_all add: f1 f2)
    from write_exports_effect[OF o3 c(2)] obtain p where p: "prefix p ?entry"
      "exports_file s3 = Some (c @ p)" "e3 = None \<longrightarrow> p = ?entry"
      "generation s3 = generation s" "syncedGeneration s3 = syncedGeneration s"
      using f2 by auto
    have "\<not> has_export s d" using checkExport_effect[OF o1] append by simp
    with run append p c show ?thesis
      by (cases e3) (auto simp: steps simp del: append.simps)
  qed
qed

subsection \<open>Resynchronisation\<close>

definition resync_attempt :: "'w env \<Rightarrow> 64 word \<Rightarrow> ('w nfs_state, err) state" where
  "resync_attempt E gen = do {
     (_, e) \<leftarrow> ext (ExecuteCommand (exec E) ''chroot'' [nodeRoot, exportfs, ''-r'']);
     if e = None then do {
       _ \<leftarrow> State_Monad.update (\<lambda>s. s\<lparr>syncedGeneration := gen\<rparr>);
       State_Monad.return None }
     else State_Monad.return e }"

interpretation resync: bounded_retry
  "\<lambda>_. run_state (resync_attempt E gen)" "\<lambda>e. if e = None then Some None else None" "\<lambda>_ e. e"
  "\<lambda>_ s. snd (run_state (sleep E retrySleep) s)" "\<lambda>n r. run_state (resync_loop E gen n r)"
  for E :: "'w env" and gen :: "64 word"
  by unfold_locales (auto simp: resync_attempt_def split: prod.splits)

text \<open>What a resynchronisation may change: the world, the synced generation, the counter of saved updates.\<close>

definition table_state :: "'w nfs_state \<Rightarrow> string option \<times> 64 word \<times> (string \<rightharpoonup> string) \<times> (string \<rightharpoonup> string)" where
  "table_state s = (exports_file s, generation s, PVLock s, nfsPVLock s)"

lemma resync_loop_keeps: "table_state (snd (run_state (resync_loop E gen n r) s)) = table_state s"
  by (rule resync.loop_invariant[where P = "\<lambda>t. table_state t = table_state s"])
     (auto simp: resync_attempt_def table_state_def split: prod.splits)

lemma resync_loop_after_failure:
  "run_state (resync_loop E gen n (Some m)) s = (e, t) \<Longrightarrow>
   syncedGeneration t = (if e = None then gen else syncedGeneration s)"
  by (induction n arbitrary: m s) (fastforce split: prod.splits if_splits)+

lemma resync_loop_synced:
  assumes "run_state (resync_loop E gen (Suc n) r) s = (e, t)"
  shows "syncedGeneration t = (if e = None then gen else syncedGeneration s)"
  using assms resync_loop_after_failure[of E gen n _ _ e t]
  by (fastforce split: prod.splits if_splits)

lemma ResyncNFSMountd_effect:
  assumes "run_state (ResyncNFSMountd E gen) s = (e, t)"
  shows "table_state t = table_state s \<and>
    (if gen \<le>s syncedGeneration s then e = None \<and> t = s\<lparr>savedUpdates := savedUpdates s + 1\<rparr>
     else syncedGeneration t = (if e = None then gen else syncedGeneration s) \<and>
       savedUpdates t = savedUpdates s)"
proof (cases "gen \<le>s syncedGeneration s")
  case True
  with assms show ?thesis by (auto simp: ResyncNFSMountd_def table_state_def)
next
  case False
  with assms have l: "run_state (resync_loop E gen 2 None) s = (e, t)"
    by (simp add: ResyncNFSMountd_def)
  have "savedUpdates (snd (run_state (resync_loop E gen 2 None) s)) = savedUpdates s"
    by (rule resync.loop_invariant[where P = "\<lambda>t. savedUpdates t = savedUpdates s"])
       (auto simp: resync_attempt_def split: prod.splits)
  with l False show ?thesis
    using resync_loop_keeps[of E gen 2 None s] resync_loop_synced[of E gen 1 None s e t]
    by (simp add: numeral_2_eq_2)
qed

text \<open>The effects as rules for handlers that call the operations.\<close>

lemma wp_AddExport [wp]:
  assumes "\<And>g e t p. g = generation t \<Longrightarrow> syncedGeneration t = syncedGeneration s \<Longrightarrow>
    prefix p (d @ '' '' @ opts @ [newline]) \<Longrightarrow>
    exports_file t = map_option (\<lambda>c. c @ p) (exports_file s) \<Longrightarrow>
    (if e = None then p = d @ '' '' @ opts @ [newline] \<and> exports_file s \<noteq> None \<and> \<not> has_export s d \<and>
       generation t = generation s + 1 else generation t = generation s) \<Longrightarrow> Q (g, e) t"
  shows "wp (AddExport E d opts) Q s"
proof (rule wp_run)
  fix a t
  assume run: "run_state (AddExport E d opts) s = (a, t)"
  obtain g e where a: "a = (g, e)" by fastforce
  from AddExport_effect[OF run[unfolded a]] obtain p where "g = generation t"
    "syncedGeneration t = syncedGeneration s" "prefix p (d @ '' '' @ opts @ [newline])"
    "exports_file t = map_option (\<lambda>c. c @ p) (exports_file s)"
    "if e = None then p = d @ '' '' @ opts @ [newline] \<and> exports_file s \<noteq> None \<and> \<not> has_export s d \<and>
       generation t = generation s + 1 else generation t = generation s"
    by (auto split: if_splits)
  then show "Q a t" unfolding a by (rule assms)
qed

lemma wp_DeleteExport [wp]:
  assumes "\<And>g e t. g = generation t \<Longrightarrow> syncedGeneration t = syncedGeneration s \<Longrightarrow>
    (if e = None then generation t = generation s + 1 \<and>
       exports_file t = Some (unlines (filter (\<lambda>l. \<not> HasPrefix l d) (export_entries s)))
     else generation t = generation s) \<Longrightarrow> Q (g, e) t"
  shows "wp (DeleteExport E d) Q s"
  using DeleteExport_effect[of E d s] by (intro wp_run) (metis assms surj_pair)

lemma wp_ResyncNFSMountd [wp]:
  assumes "\<And>e t. table_state t = table_state s \<Longrightarrow> (e = None \<longrightarrow> gen \<le>s syncedGeneration t) \<Longrightarrow> Q e t"
  shows "wp (ResyncNFSMountd E gen) Q s"
proof (rule wp_run)
  fix e t
  assume "run_state (ResyncNFSMountd E gen) s = (e, t)"
  from ResyncNFSMountd_effect[OF this] show "Q e t"
    by (intro assms) (auto split: if_splits)
qed

lemma wp_CheckExport [wp]:
  assumes "\<And>b e t. process t = process s \<Longrightarrow> (e = None \<and> \<not> b \<longrightarrow> \<not> has_export s d) \<Longrightarrow>
    (exports_inv E s \<longrightarrow> b = has_export s d) \<Longrightarrow> Q (b, e) t"
  shows "wp (CheckExport E d) Q s"
proof (rule wp_run)
  fix a t
  assume run: "run_state (CheckExport E d) s = (a, t)"
  obtain b e where a: "a = (b, e)" by fastforce
  have "exports_inv E s \<longrightarrow> b = has_export s d"
    using checkExport_ok[of E s d] run by (auto simp: CheckExport_def a)
  with checkExport_effect[of E d s b e t] run show "Q a t" by (auto simp: CheckExport_def a intro: assms)
qed

subsection \<open>No operation touches a lock\<close>

lemma keeps_locks_open [frame]: "keeps locks (open_exports op E)"
  unfolding open_exports_def by (intro frame)

lemma keeps_locks_scan [frame]: "keeps locks (scan_exports E)"
  unfolding scan_exports_def by (intro frame)

lemma keeps_locks_write [frame]: "keeps locks (write_exports E x)"
  unfolding write_exports_def Let_def by (intro frame) (simp add: locks_def)

lemma keeps_locks_write_lines [frame]: "keeps locks (write_lines E x)"
  by (induction x) (auto intro!: frame simp del: run_state_bind)

lemma keeps_locks_bump [frame]: "keeps locks bump_generation" "keeps locks (fail_generation m)"
  unfolding bump_generation_def fail_generation_def by (intro frame; simp add: locks_def)+

lemma keeps_locks_check [frame]: "keeps locks (checkExport E d)" "keeps locks (CheckExport E d)"
  unfolding CheckExport_def checkExport_def by (intro frame)+

lemma keeps_locks_add [frame]: "keeps locks (AddExport E d opts)" "keeps locks (DeleteExport E d)"
  unfolding AddExport_def DeleteExport_def by (intro frame; simp add: locks_def)+

lemma keeps_locks_get [frame]: "keeps locks (GetExports E d)"
  unfolding GetExports_def by (intro frame)+

lemma keeps_locks_resync [frame]: "keeps locks (ResyncNFSMountd E g)"
  unfolding ResyncNFSMountd_def
  using resync_loop_keeps[of E g 2 None]
  by (intro frame) (auto simp: locks_def keeps_def table_state_def)

section \<open>The interface of the export table\<close>

text \<open>
  What the node service relies on: a table of entries, searched and deleted by prefix, to which
  an entry is added once. The laws are for states in which the file can be read and written.
\<close>

locale export_table =
  fixes inv :: "'s \<Rightarrow> bool" and entries_of :: "'s \<Rightarrow> string list"
    and add :: "string \<Rightarrow> string \<Rightarrow> 's \<Rightarrow> (64 word \<times> err) \<times> 's"
    and del :: "string \<Rightarrow> 's \<Rightarrow> (64 word \<times> err) \<times> 's"
    and check :: "string \<Rightarrow> 's \<Rightarrow> (bool \<times> err) \<times> 's"
  assumes check_law: "inv s \<Longrightarrow> check d s = (b, t) \<Longrightarrow>
      b = (\<exists>l \<in> set (entries_of s). HasPrefix l d, None) \<and> inv t \<and> entries_of t = entries_of s"
    and add_law: "inv s \<Longrightarrow> \<forall>l \<in> set (entries_of s). \<not> HasPrefix l d \<Longrightarrow>
      clean_entry (d @ '' '' @ opts) \<Longrightarrow> add d opts s = (r, t) \<Longrightarrow>
      snd r = None \<and> inv t \<and> entries_of t = entries_of s @ [d @ '' '' @ opts]"
    and add_dup_law: "inv s \<Longrightarrow> l \<in> set (entries_of s) \<Longrightarrow> HasPrefix l d \<Longrightarrow> add d opts s = (r, t) \<Longrightarrow>
      snd r \<noteq> None \<and> inv t \<and> entries_of t = entries_of s"
    and del_law: "inv s \<Longrightarrow> del d s = (r, t) \<Longrightarrow>
      snd r = None \<and> inv t \<and> entries_of t = filter (\<lambda>l. \<not> HasPrefix l d) (entries_of s)"
begin

lemma check_after_add:
  assumes "inv s" and "\<forall>l \<in> set (entries_of s). \<not> HasPrefix l d" and "clean_entry (d @ '' '' @ opts)"
    and "add d opts s = (r, t)" and "check d t = (b, u)"
  shows "b = (True, None)"
  using add_law[OF assms(1-4)] check_law[OF _ assms(5)] by auto

lemma check_after_del:
  assumes "inv s" and "del d s = (r, t)" and "check d t = (b, u)"
  shows "b = (False, None)"
  using del_law[OF assms(1,2)] check_law[OF _ assms(3)] by auto

lemma del_after_add:
  assumes "inv s" and fresh: "\<forall>l \<in> set (entries_of s). \<not> HasPrefix l d"
    and "clean_entry (d @ '' '' @ opts)" and "add d opts s = (r, t)" and "del d t = (q, u)"
  shows "snd r = None \<and> snd q = None \<and> inv u \<and> entries_of u = entries_of s"
proof -
  note a = add_law[OF assms(1-4)]
  then have "inv t" by simp
  from del_law[OF this assms(5)] a fresh show ?thesis by simp
qed

lemma add_twice_fails:
  assumes "inv s" and "\<forall>l \<in> set (entries_of s). \<not> HasPrefix l d" and "clean_entry (d @ '' '' @ opts)"
    and "add d opts s = (r, t)" and "add d opts' t = (q, u)"
  shows "snd q \<noteq> None \<and> entries_of u = entries_of t"
  using add_law[OF assms(1-4)] add_dup_law[of t "d @ '' '' @ opts" d, OF _ _ _ assms(5)] by auto

lemma other_entries_survive:
  assumes "inv s" and "l \<in> set (entries_of s)" and "\<not> HasPrefix l d" and "del d s = (r, t)"
  shows "l \<in> set (entries_of t)"
  using del_law[OF assms(1,4)] assms(2,3) by simp

end

lemma exports_inv_world [simp]: "exports_inv E (s\<lparr>world := w\<rparr>) = exports_inv E s"
  by (simp add: exports_inv_def)

lemma export_entries_world [simp]: "export_entries (s\<lparr>world := w\<rparr>) = export_entries s"
  by (simp add: export_entries_def)

interpretation node_exports: export_table "exports_inv E" export_entries
  "\<lambda>d opts. run_state (AddExport E d opts)" "\<lambda>d. run_state (DeleteExport E d)"
  "\<lambda>d. run_state (CheckExport E d)" for E :: "'w env"
proof unfold_locales
  fix s t :: "'w nfs_state" and d :: string and r
  assume "exports_inv E s" and "run_state (CheckExport E d) s = (r, t)"
  then show "r = (\<exists>l \<in> set (export_entries s). HasPrefix l d, None) \<and> exports_inv E t \<and>
      export_entries t = export_entries s"
    using checkExport_ok[of E s d] by (auto simp: CheckExport_def has_export_def)
next
  fix s t :: "'w nfs_state" and d opts :: string and r
  assume "exports_inv E s" "\<forall>l \<in> set (export_entries s). \<not> HasPrefix l d" "clean_entry (d @ '' '' @ opts)"
    "run_state (AddExport E d opts) s = (r, t)"
  then show "snd r = None \<and> exports_inv E t \<and> export_entries t = export_entries s @ [d @ '' '' @ opts]"
    using AddExport_ok[of E s d opts] by (auto simp: has_export_def)
next
  fix s t :: "'w nfs_state" and d opts l :: string and r
  assume inv: "exports_inv E s" and "l \<in> set (export_entries s)" "HasPrefix l d"
    and run: "run_state (AddExport E d opts) s = (r, t)"
  then have "has_export s d" by (auto simp: has_export_def)
  from AddExport_duplicate[OF inv this, of opts] run inv
  show "snd r \<noteq> None \<and> exports_inv E t \<and> export_entries t = export_entries s" by auto
next
  fix s t :: "'w nfs_state" and d :: string and r
  assume "exports_inv E s" "run_state (DeleteExport E d) s = (r, t)"
  then show "snd r = None \<and> exports_inv E t \<and>
      export_entries t = filter (\<lambda>l. \<not> HasPrefix l d) (export_entries s)"
    using DeleteExport_ok[of E s d] by auto
qed

section \<open>Properties\<close>

lemma io_ok_sample: "io_ok sample_env"
  by (simp add: io_ok_def sample_defs)

lemma exports_inv_sample_empty: "exports_inv sample_env (sample_state [])"
  using io_ok_sample by (simp add: exports_inv_def sample_defs wf_exports_def)

lemma entries_sample_empty: "export_entries (sample_state []) = []"
  by (simp add: export_entries_def sample_defs exports_lines_def)

lemma TrimSpace_eval:
  "find (\<lambda>p. p \<noteq> [] \<and> HasPrefix s p) space_seqs = None \<Longrightarrow>
   find (\<lambda>p. p \<noteq> [] \<and> HasPrefix (rev s) p) (map rev space_seqs) = None \<Longrightarrow> TrimSpace s = s"
  by (simp add: TrimSpace_def strip_seqs.simps)

lemma clean_sample_entry: "clean_entry (''/e/v1/'' @ '' '' @ ''*(rw)'')"
proof -
  have "TrimSpace (''/e/v1/'' @ '' '' @ ''*(rw)'') = ''/e/v1/'' @ '' '' @ ''*(rw)''"
    by (rule TrimSpace_eval) (simp_all add: space_seqs_def HasPrefix_def)
  then show ?thesis by (simp add: clean_entry_def MaxScanTokenSize_def)
qed

text \<open>
  Adding an export and deleting it again succeed and give back the table as it was, on every
  readable and writable export file whose lines are terminated.
\<close>

theorem add_delete_export_roundtrip:
  assumes "exports_inv E s" and "\<not> has_export s d" and "clean_entry (d @ '' '' @ opts)"
    and "run_state (AddExport E d opts) s = ((g, e), t)"
    and "run_state (DeleteExport E d) t = ((g', e'), u)"
  shows "e = None \<and> e' = None \<and> g = generation s + 1 \<and> g' = generation s + 2 \<and>
    export_entries t = export_entries s @ [d @ '' '' @ opts] \<and> export_entries u = export_entries s"
proof -
  have fresh: "\<forall>l \<in> set (export_entries s). \<not> HasPrefix l d"
    using assms(2) by (simp add: has_export_def)
  have "snd (g, e) = None \<and> snd (g', e') = None \<and> exports_inv E u \<and> export_entries u = export_entries s"
    by (rule node_exports.del_after_add[OF assms(1) fresh assms(3-5)])
  moreover have "export_entries t = export_entries s @ [d @ '' '' @ opts]"
    using node_exports.add_law[OF assms(1) fresh assms(3,4)] by simp
  ultimately show ?thesis
    using AddExport_effect[OF assms(4)] DeleteExport_effect[OF assms(5)] by simp
qed

theorem add_delete_export_roundtrip_witness:
  "\<exists>g t g' u. run_state (AddExport sample_env ''/e/v1/'' ''*(rw)'') (sample_state []) = ((g, None), t) \<and>
     export_entries t = [''/e/v1/ *(rw)''] \<and>
     run_state (DeleteExport sample_env ''/e/v1/'') t = ((g', None), u) \<and> export_entries u = []"
proof -
  obtain g e t where a: "run_state (AddExport sample_env ''/e/v1/'' ''*(rw)'') (sample_state []) = ((g, e), t)"
    by (metis surj_pair)
  obtain g' e' u where d: "run_state (DeleteExport sample_env ''/e/v1/'') t = ((g', e'), u)"
    by (metis surj_pair)
  have "\<not> has_export (sample_state []) ''/e/v1/''" by (simp add: has_export_def entries_sample_empty)
  from add_delete_export_roundtrip[OF exports_inv_sample_empty this clean_sample_entry a d] a d
  show ?thesis by (simp add: entries_sample_empty)
qed

text \<open>
  Deleting an export removes exactly the entries that start with the given directory, keeps
  the others in their order, and moves the generation on; a later check does not find the
  directory any more.
\<close>

theorem delete_export_exact:
  assumes "exports_inv E s" and "run_state (DeleteExport E d) s = ((g, e), t)"
    and "run_state (CheckExport E d) t = (b, u)"
  shows "e = None \<and> g = generation s + 1 \<and> b = (False, None) \<and>
    export_entries t = filter (\<lambda>l. \<not> HasPrefix l d) (export_entries s)"
  using node_exports.del_law[OF assms(1,2)] node_exports.check_after_del[OF assms]
    DeleteExport_effect[OF assms(2)] by simp

theorem delete_export_exact_witness:
  "\<exists>g t u. run_state (DeleteExport sample_env ''/e/v1'') (sample_state []) = ((g, None), t) \<and>
     run_state (CheckExport sample_env ''/e/v1'') t = ((False, None), u)"
proof -
  obtain g e t where d: "run_state (DeleteExport sample_env ''/e/v1'') (sample_state []) = ((g, e), t)"
    by (metis surj_pair)
  obtain b u where c: "run_state (CheckExport sample_env ''/e/v1'') t = (b, u)" by (metis surj_pair)
  from delete_export_exact[OF exports_inv_sample_empty d c] c d show ?thesis by simp
qed

text \<open>
  C28: what \<open>DeleteExport\<close> leaves behind whatever system calls fail. It returns no error exactly
  when the file has been rewritten with all entries that are kept and the generation has moved
  on. With an error the generation stands, and the file is as it was or holds a proper start of
  the rewritten content: the file is truncated before it is written, so a failed write loses the
  entries of other volumes.
\<close>

theorem delete_export_under_faults:
  assumes "run_state (DeleteExport E d) s = ((g, e), t)"
  shows "g = generation t \<and> syncedGeneration t = syncedGeneration s \<and>
    (if e = None then generation t = generation s + 1 \<and>
       exports_file t = Some (unlines (filter (\<lambda>l. \<not> HasPrefix l d) (export_entries s)))
     else generation t = generation s \<and> (exports_file t = exports_file s \<or>
       (\<exists>p. exports_file t = Some p \<and>
         prefix p (unlines (filter (\<lambda>l. \<not> HasPrefix l d) (export_entries s))))))"
  using assms by (rule DeleteExport_effect)

text \<open>An environment in which every write fails after no byte at all.\<close>

definition full_disk_env :: "sample_world env" where
  "full_disk_env = sample_env\<lparr>opSys := sample_os\<lparr>file_Write := \<lambda>_ w. (Some (0, ''no space left on device''), w)\<rparr>\<rparr>"

lemmas exports_eval =
  open_exports_def scan_exports_def write_exports_def full_disk_env_def sample_defs scan_file_def
  Let_def raw_lines_def MaxScanTokenSize_def dropCR_def HasPrefix_def fmt_err_def exportsDir_def
  pathToExports_def

theorem delete_export_under_faults_witness:
  "\<exists>g e t. run_state (DeleteExport full_disk_env ''/e/v1'') (sample_state ''/e/v1/ a\<newline>/e/w/ b\<newline>'') = ((g, Some e), t) \<and>
     exports_file t = Some [] \<and> g = 0 \<and> generation t = 0"
proof -
  obtain g e t where run:
    "run_state (DeleteExport full_disk_env ''/e/v1'') (sample_state ''/e/v1/ a\<newline>/e/w/ b\<newline>'') = ((g, e), t)"
    by (metis surj_pair)
  have trims: "TrimSpace ''/e/v1/ a'' = ''/e/v1/ a''" "TrimSpace ''/e/w/ b'' = ''/e/w/ b''"
    by (rule TrimSpace_eval; simp add: space_seqs_def HasPrefix_def)+
  have "e \<noteq> None \<and> exports_file t = Some []"
    using run by (auto simp: DeleteExport_def trims exports_eval)
  with delete_export_under_faults[OF run] run show ?thesis
    by (auto simp: sample_state_def)
qed

text \<open>
  What \<open>AddExport\<close> leaves behind whatever system calls fail. Without an error the directory
  had no entry before and the file has grown by exactly the new entry; with an error the
  generation stands and the file has grown by a start of the entry at most.
\<close>

theorem add_export_under_faults:
  assumes "run_state (AddExport E d opts) s = ((g, e), t)"
  shows "g = generation t \<and> syncedGeneration t = syncedGeneration s \<and>
    (if e = None then generation t = generation s + 1 \<and> \<not> has_export s d \<and>
       (\<exists>c. exports_file s = Some c \<and> exports_file t = Some (c @ d @ '' '' @ opts @ [newline]))
     else generation t = generation s \<and>
       (\<exists>p. prefix p (d @ '' '' @ opts @ [newline]) \<and>
          exports_file t = map_option (\<lambda>c. c @ p) (exports_file s)))"
  using assms by (rule AddExport_effect)

theorem add_export_under_faults_witness:
  "\<exists>g e t. run_state (AddExport full_disk_env ''/e/v1/'' ''x'') (sample_state []) = ((g, e), t) \<and>
     syncedGeneration t = 0"
proof -
  obtain g e t where run: "run_state (AddExport full_disk_env ''/e/v1/'' ''x'') (sample_state []) = ((g, e), t)"
    by (metis surj_pair)
  from add_export_under_faults[OF run] run show ?thesis by (auto simp: sample_state_def)
qed

text \<open>
  An entry is appended without looking at the end of the file. When the last line of the
  export file is not terminated, \<open>AddExport\<close> reports success but the new entry is glued to that
  line: a check does not find it.
\<close>

lemma add_export_on_unterminated_line:
  "\<exists>g t u. run_state (AddExport sample_env ''/e/v1/'' ''*(rw)'') (sample_state ''/data *(ro)'') = ((g, None), t) \<and>
     exports_file t = Some ''/data *(ro)/e/v1/ *(rw)\<newline>'' \<and>
     run_state (CheckExport sample_env ''/e/v1/'') t = ((False, None), u)"
proof -
  have trims: "TrimSpace ''/data *(ro)'' = ''/data *(ro)''"
    "TrimSpace ''/data *(ro)/e/v1/ *(rw)'' = ''/data *(ro)/e/v1/ *(rw)''"
    by (rule TrimSpace_eval; simp add: space_seqs_def HasPrefix_def)+
  show ?thesis
    by (simp add: AddExport_def CheckExport_def checkExport_def trims exports_eval)
qed

text \<open>
  \<open>ResyncNFSMountd\<close> in full. A generation that is already synced costs no command and is
  counted as saved; otherwise \<open>exportfs -r\<close> runs at most twice with a pause in between, the
  first success makes the generation the synced one, and after two failures the second error is
  returned and the synced generation stands.
\<close>

theorem resync_two_attempts:
  "run_state (ResyncNFSMountd E gen) s =
     (if gen \<le>s syncedGeneration s then (None, s\<lparr>savedUpdates := savedUpdates s + 1\<rparr>)
      else case ExecuteCommand (exec E) ''chroot'' [nodeRoot, exportfs, ''-r''] (world s) of
        ((_, None), w) \<Rightarrow> (None, s\<lparr>world := w, syncedGeneration := gen\<rparr>)
      | ((_, Some _), w) \<Rightarrow>
         (case ExecuteCommand (exec E) ''chroot'' [nodeRoot, exportfs, ''-r'']
                 (time_Sleep (runtime E) retrySleep w) of
            ((_, None), w) \<Rightarrow> (None, s\<lparr>world := w, syncedGeneration := gen\<rparr>)
          | ((_, Some e), w) \<Rightarrow> (Some e, s\<lparr>world := time_Sleep (runtime E) retrySleep w\<rparr>)))"
  by (auto simp: ResyncNFSMountd_def numeral_2_eq_2 split: prod.splits option.splits)

end
