(* ===== verification/PV_Locks.thy ===== *)
theory PV_Locks
  imports Sample_Env
begin

text \<open>
  The per-volume locks: \<open>LockPV\<close> and \<open>UnlockPV\<close> of the controller and node service
  (\<open>src/nfs/controller.go\<close>) and \<open>nfsLockPV\<close> and \<open>nfsUnlockPV\<close> of the NFS server
  (\<open>src/nfs/nfs_service.go\<close>). Both are a \<open>sync.Map\<close> on which \<open>LoadOrStore\<close> is polled.

  A single call is a loop with fuel: it returns \<open>Running\<close> when it is still polling. What several
  goroutines do together is the step relation \<open>lock_step\<close>, one poll or release at a time.
\<close>

section \<open>Definitions\<close>

text \<open>\<open>sync.Map.LoadOrStore\<close>: the value in the map, whether it was there, and the new map.\<close>

definition LoadOrStore :: "('k \<rightharpoonup> 'v) \<Rightarrow> 'k \<Rightarrow> 'v \<Rightarrow> ('v \<times> bool) \<times> ('k \<rightharpoonup> 'v)" where
  "LoadOrStore m k v = (case m k of Some h \<Rightarrow> ((h, True), m) | None \<Rightarrow> ((v, False), m(k \<mapsto> v)))"

definition Delete :: "('k \<rightharpoonup> 'v) \<Rightarrow> 'k \<Rightarrow> ('k \<rightharpoonup> 'v)" where
  "Delete m k = m(k := None)"

fun lock_loop :: "'w env \<Rightarrow> nat \<Rightarrow> nat \<Rightarrow> string \<Rightarrow> string \<Rightarrow> ('w nfs_state, unit outcome) state" where
  "lock_loop E sleepTime 0 name requestID = State_Monad.return Running"
| "lock_loop E sleepTime (Suc fuel) name requestID = do {
     s \<leftarrow> State_Monad.get;
     case LoadOrStore (PVLock s) name requestID of
       ((holder, loaded), m) \<Rightarrow> do {
         _ \<leftarrow> State_Monad.update (\<lambda>s. s\<lparr>PVLock := m\<rparr>);
         if \<not> loaded then State_Monad.return (Done ())
         else do {
           _ \<leftarrow> sleep E sleepTime;
           lock_loop E sleepTime fuel name requestID } } }"

definition LockPV :: "'w env \<Rightarrow> nat \<Rightarrow> string \<Rightarrow> string \<Rightarrow> bool \<Rightarrow> ('w nfs_state, unit outcome) state" where
  "LockPV E fuel name requestID highPriority =
     lock_loop E (if highPriority then 200 else 3 * Second) fuel name requestID"

definition UnlockPV :: "string \<Rightarrow> ('w nfs_state, unit) state" where
  "UnlockPV name = State_Monad.update (\<lambda>s. s\<lparr>PVLock := Delete (PVLock s) name\<rparr>)"

fun nfsLockPV :: "'w env \<Rightarrow> nat \<Rightarrow> string \<Rightarrow> ('w nfs_state, unit outcome) state" where
  "nfsLockPV E 0 requestID = State_Monad.return Running"
| "nfsLockPV E (Suc fuel) requestID = do {
     s \<leftarrow> State_Monad.get;
     case LoadOrStore (nfsPVLock s) requestID requestID of
       ((holder, loaded), m) \<Rightarrow> do {
         _ \<leftarrow> State_Monad.update (\<lambda>s. s\<lparr>nfsPVLock := m\<rparr>);
         if \<not> loaded then State_Monad.return (Done ())
         else do {
           _ \<leftarrow> sleep E (1 * Second);
           nfsLockPV E fuel requestID } } }"

definition nfsUnlockPV :: "string \<Rightarrow> ('w nfs_state, unit) state" where
  "nfsUnlockPV requestID = State_Monad.update (\<lambda>s. s\<lparr>nfsPVLock := Delete (nfsPVLock s) requestID\<rparr>)"

text \<open>
  A handler that starts with \<open>lock; defer unlock\<close>: the deferred call runs when the body returns or
  panics, and not while it is still in a loop of its own.
\<close>

definition locked ::
  "('s, unit outcome) state \<Rightarrow> ('s, unit) state \<Rightarrow> ('s, 'a outcome) state \<Rightarrow> ('s, 'a outcome) state" where
  "locked lock unlock body = do {
     got \<leftarrow> lock;
     case got of
       Done _ \<Rightarrow> do {
         r \<leftarrow> body;
         case r of
           Running \<Rightarrow> State_Monad.return Running
         | _ \<Rightarrow> do { _ \<leftarrow> unlock; State_Monad.return r } }
     | Panicked m \<Rightarrow> State_Monad.return (Panicked m)
     | Running \<Rightarrow> State_Monad.return Running }"

subsection \<open>Several goroutines\<close>

text \<open>A goroutine is outside, polls for a key with its request id, or is inside for a key.\<close>

datatype lock_pc = Outside | Polling string string | Inside string

record lock_sys =
  lock_map :: "string \<rightharpoonup> string"
  lock_pcs :: "nat \<Rightarrow> lock_pc"

definition lock_start :: "lock_sys \<Rightarrow> bool" where
  "lock_start s \<longleftrightarrow> lock_map s = Map.empty \<and> (\<forall>i. lock_pcs s i = Outside)"

inductive lock_step :: "lock_sys \<Rightarrow> lock_sys \<Rightarrow> bool" where
  call: "lock_pcs s i = Outside \<Longrightarrow>
    lock_step s (s\<lparr>lock_pcs := (lock_pcs s)(i := Polling k v)\<rparr>)"
| acquire: "lock_pcs s i = Polling k v \<Longrightarrow> LoadOrStore (lock_map s) k v = ((h, False), m) \<Longrightarrow>
    lock_step s (s\<lparr>lock_map := m, lock_pcs := (lock_pcs s)(i := Inside k)\<rparr>)"
| wait: "lock_pcs s i = Polling k v \<Longrightarrow> LoadOrStore (lock_map s) k v = ((h, True), m) \<Longrightarrow>
    lock_step s (s\<lparr>lock_map := m\<rparr>)"
| release: "lock_pcs s i = Inside k \<Longrightarrow>
    lock_step s (s\<lparr>lock_map := Delete (lock_map s) k, lock_pcs := (lock_pcs s)(i := Outside)\<rparr>)"

inductive_cases lock_stepE: "lock_step s t"

section \<open>The contract of a lock\<close>

text \<open>
  What a handler relies on when it runs between \<open>lock\<close> and \<open>unlock\<close> of a key: on a free key the
  lock returns at the first poll, taking the key and nothing else; on a taken key it does not
  return; unlocking frees the key and nothing else.
\<close>

locale keyed_lock =
  fixes taken :: "'s \<Rightarrow> string \<rightharpoonup> string"
    and lock :: "nat \<Rightarrow> string \<Rightarrow> ('s, unit outcome) state"
    and tag :: "string \<Rightarrow> string"
    and unlock :: "string \<Rightarrow> ('s, unit) state"
  assumes lock_law: "run_state (lock n k) s = (r, t) \<Longrightarrow>
      (if taken s k = None \<and> n \<noteq> 0 then r = Done () \<and> taken t = (taken s)(k \<mapsto> tag k)
       else r = Running \<and> taken t = taken s)"
    and unlock_law: "taken (snd (run_state (unlock k) s)) = (taken s)(k := None)"
begin

text \<open>
  A handler that returns had the key for itself, and when its body leaves the locks alone it
  gives the lock table back as it found it.
\<close>

lemma locked_balanced:
  assumes body: "keeps taken body" and run: "run_state (locked (lock n k) (unlock k) body) s = (r, t)"
    and returned: "r \<noteq> Running"
  shows "taken s k = None \<and> taken t = taken s"
proof -
  obtain got u where l: "run_state (lock n k) s = (got, u)" by fastforce
  have free: "taken s k = None" and got: "got = Done ()" and u: "taken u = (taken s)(k \<mapsto> tag k)"
    using lock_law[OF l] run l returned by (auto simp: locked_def split: if_splits)
  obtain b x where b: "run_state body u = (b, x)" by fastforce
  have x: "taken x = (taken s)(k \<mapsto> tag k)" using keepsD[OF body b] u by simp
  have "t = snd (run_state (unlock k) x)"
    using run l got b returned by (auto simp: locked_def split: outcome.splits prod.splits)
  with unlock_law[of k x] x free show ?thesis by (auto simp: fun_eq_iff)
qed

text \<open>On a free key the handler answers what its body answers; on a taken one it waits.\<close>

lemma locked_runs_body:
  assumes "taken s k = None" and "n \<noteq> 0"
  shows "\<exists>u. taken u = (taken s)(k \<mapsto> tag k) \<and>
    fst (run_state (locked (lock n k) (unlock k) body) s) = fst (run_state body u)"
proof -
  obtain got u where l: "run_state (lock n k) s = (got, u)" by fastforce
  with lock_law[OF l] assms have "got = Done ()" and "taken u = (taken s)(k \<mapsto> tag k)" by auto
  with l show ?thesis
    by (intro exI[of _ u]) (auto simp: locked_def split: outcome.splits prod.splits)
qed

lemma locked_waits:
  assumes "taken s k = Some h"
  shows "fst (run_state (locked (lock n k) (unlock k) body) s) = Running"
proof -
  obtain got u where l: "run_state (lock n k) s = (got, u)" by fastforce
  with lock_law[OF l] assms show ?thesis by (simp add: locked_def)
qed

end

lemma lock_loop_law:
  "run_state (lock_loop E d n k v) s = (r, t) \<Longrightarrow>
   (if PVLock s k = None \<and> n \<noteq> 0 then r = Done () \<and> PVLock t = (PVLock s)(k \<mapsto> v)
    else r = Running \<and> PVLock t = PVLock s)"
  by (induction n arbitrary: s) (fastforce simp: LoadOrStore_def split: option.splits if_splits)+

lemma nfsLockPV_law:
  "run_state (nfsLockPV E n k) s = (r, t) \<Longrightarrow>
   (if nfsPVLock s k = None \<and> n \<noteq> 0 then r = Done () \<and> nfsPVLock t = (nfsPVLock s)(k \<mapsto> k)
    else r = Running \<and> nfsPVLock t = nfsPVLock s)"
  by (induction n arbitrary: s) (fastforce simp: LoadOrStore_def split: option.splits if_splits)+

interpretation pv_lock: keyed_lock PVLock "\<lambda>n k. LockPV E n k rid prio" "\<lambda>_. rid" UnlockPV
  for E :: "'w env" and rid :: string and prio :: bool
proof unfold_locales
  fix n k r and s t :: "'w nfs_state"
  assume "run_state (LockPV E n k rid prio) s = (r, t)"
  from lock_loop_law[OF this[unfolded LockPV_def]]
  show "if PVLock s k = None \<and> n \<noteq> 0 then r = Done () \<and> PVLock t = (PVLock s)(k \<mapsto> rid)
    else r = Running \<and> PVLock t = PVLock s" .
qed (simp add: UnlockPV_def Delete_def)

text \<open>The lock of the NFS server stores the key as its value.\<close>

interpretation nfs_lock: keyed_lock nfsPVLock "nfsLockPV E" "\<lambda>k. k" nfsUnlockPV
  for E :: "'w env"
proof unfold_locales
  fix n k r and s t :: "'w nfs_state"
  assume "run_state (nfsLockPV E n k) s = (r, t)"
  from nfsLockPV_law[OF this]
  show "if nfsPVLock s k = None \<and> n \<noteq> 0 then r = Done () \<and> nfsPVLock t = (nfsPVLock s)(k \<mapsto> k)
    else r = Running \<and> nfsPVLock t = nfsPVLock s" .
qed (simp add: nfsUnlockPV_def Delete_def)

text \<open>Taking and giving back a lock touches nothing but the lock tables and the clock.\<close>

lemma keeps_work_lock:
  "keeps work (lock_loop E d n k v)" "keeps work (LockPV E n k v prio)" "keeps work (nfsLockPV E n k)"
proof -
  show loop: "keeps work (lock_loop E d n k v)" for d
    by (induction n) (auto simp: keeps_def LoadOrStore_def split: option.splits)
  show "keeps work (LockPV E n k v prio)" by (simp add: LockPV_def loop)
  show "keeps work (nfsLockPV E n k)"
    by (induction n) (auto simp: keeps_def LoadOrStore_def split: option.splits)
qed

lemma keeps_work_unlock: "keeps work (UnlockPV k)" "keeps work (nfsUnlockPV k)"
  by (simp_all add: keeps_def UnlockPV_def nfsUnlockPV_def)

text \<open>A handler that returned ran its body, between two states that differ in locks only.\<close>

lemma locked_run:
  assumes "run_state (locked lock unlock body) s = (r, t)" and "r \<noteq> Running"
    and "keeps f lock" and "keeps f unlock" and "\<And>m. fst (run_state lock s) \<noteq> Panicked m"
  obtains u v where "f u = f s" and "run_state body u = (r, v)" and "f t = f v"
proof -
  obtain got u where l: "run_state lock s = (got, u)" by fastforce
  with assms(1,2,5) have got: "got = Done ()" by (cases got) (auto simp: locked_def)
  obtain b v where b: "run_state body u = (b, v)" by fastforce
  have "b = r \<and> t = snd (run_state unlock v)"
    using assms(1,2) l got b by (auto simp: locked_def split: outcome.splits prod.splits)
  with that[of u v] l b assms(3,4) show ?thesis by (metis keeps_def snd_conv)
qed

lemma locks_do_not_panic:
  "fst (run_state (lock_loop E d n k v) s) \<noteq> Panicked m" "fst (run_state (LockPV E n k v prio) s) \<noteq> Panicked m"
  "fst (run_state (nfsLockPV E n k) s) \<noteq> Panicked m"
proof -
  show loop: "fst (run_state (lock_loop E d n k v) s) \<noteq> Panicked m" for d
    by (cases "run_state (lock_loop E d n k v) s") (auto dest!: lock_loop_law split: if_splits)
  show "fst (run_state (LockPV E n k v prio) s) \<noteq> Panicked m" by (simp add: LockPV_def loop)
  show "fst (run_state (nfsLockPV E n k) s) \<noteq> Panicked m"
    by (cases "run_state (nfsLockPV E n k) s") (auto dest!: nfsLockPV_law split: if_splits)
qed

text \<open>The two handlers' forms of a locked body.\<close>

lemmas nfs_locked_run =
  locked_run[where f = work, OF _ _ keeps_work_lock(3) keeps_work_unlock(2) locks_do_not_panic(3)]
lemmas pv_locked_run =
  locked_run[where f = work, OF _ _ keeps_work_lock(2) keeps_work_unlock(1) locks_do_not_panic(2)]

text \<open>
  On a free volume the controller's lock is taken at the first poll, and nothing else happens; a
  handler that returned therefore ran its body in the state it found, but for the lock.
\<close>

lemma pv_locked_free:
  assumes "run_state (locked (LockPV E n k rid prio) (UnlockPV k) body) s = (r, t)" and "r \<noteq> Running"
  obtains v where "PVLock s k = None" and "run_state body (s\<lparr>PVLock := (PVLock s)(k \<mapsto> rid)\<rparr>) = (r, v)"
    and "t = v\<lparr>PVLock := Delete (PVLock v) k\<rparr>"
proof -
  obtain got u where l: "run_state (LockPV E n k rid prio) s = (got, u)" by fastforce
  have free: "PVLock s k = None" "n \<noteq> 0"
    using lock_loop_law[OF l[unfolded LockPV_def]] assms l by (auto simp: locked_def split: if_splits)
  then obtain n' where n: "n = Suc n'" by (cases n) auto
  have got: "(got, u) = (Done (), s\<lparr>PVLock := (PVLock s)(k \<mapsto> rid)\<rparr>)"
    using l free by (simp add: LockPV_def n LoadOrStore_def)
  obtain b v where b: "run_state body u = (b, v)" by fastforce
  with that[of v] free got l assms show ?thesis
    by (auto simp: locked_def UnlockPV_def split: outcome.splits prod.splits)
qed

section \<open>Mutual exclusion\<close>

interpretation lock_machine: transition_system lock_start lock_step .

text \<open>A key is in the map exactly when one goroutine is inside for it.\<close>

definition lock_inv :: "lock_sys \<Rightarrow> bool" where
  "lock_inv s \<longleftrightarrow>
     (\<forall>k. k \<in> dom (lock_map s) \<longleftrightarrow> (\<exists>i. lock_pcs s i = Inside k)) \<and>
     (\<forall>i j k. lock_pcs s i = Inside k \<and> lock_pcs s j = Inside k \<longrightarrow> i = j)"

lemma LoadOrStore_stored: "LoadOrStore m k v = ((h, False), m') \<Longrightarrow> m k = None \<and> m' = m(k \<mapsto> v)"
  by (auto simp: LoadOrStore_def split: option.splits)

lemma LoadOrStore_loaded: "LoadOrStore m k v = ((h, True), m') \<Longrightarrow> m k = Some h \<and> m' = m"
  by (auto simp: LoadOrStore_def split: option.splits)

lemma lock_inv_start: "lock_start s \<Longrightarrow> lock_inv s"
  by (simp add: lock_start_def lock_inv_def)

lemma lock_inv_step: "lock_inv s \<Longrightarrow> lock_step s t \<Longrightarrow> lock_inv t"
proof (erule lock_stepE)
  fix i k v
  assume "lock_inv s" and t: "t = s\<lparr>lock_pcs := (lock_pcs s)(i := Polling k v)\<rparr>"
    and pc: "lock_pcs s i = Outside"
  moreover from t pc have "lock_pcs t j = Inside k' \<longleftrightarrow> lock_pcs s j = Inside k'" for j k' by simp
  moreover from t have "lock_map t = lock_map s" by simp
  ultimately show "lock_inv t" by (simp add: lock_inv_def)
next
  fix i k v h m
  assume inv: "lock_inv s" and t: "t = s\<lparr>lock_map := m, lock_pcs := (lock_pcs s)(i := Inside k)\<rparr>"
    and pc: "lock_pcs s i = Polling k v" and l: "LoadOrStore (lock_map s) k v = ((h, False), m)"
  from LoadOrStore_stored[OF l] have "lock_map s k = None" and m: "m = (lock_map s)(k \<mapsto> v)" by auto
  with inv have none: "lock_pcs s j \<noteq> Inside k" for j unfolding lock_inv_def by blast
  have pcs: "lock_pcs t j = Inside k' \<longleftrightarrow> lock_pcs s j = Inside k' \<or> j = i \<and> k' = k" for j k'
    using pc by (auto simp: t)
  have dom: "dom (lock_map t) = insert k (dom (lock_map s))" by (simp add: t m)
  from inv have "k' \<in> dom (lock_map t) \<longleftrightarrow> (\<exists>j. lock_pcs t j = Inside k')" for k'
    unfolding lock_inv_def pcs dom by blast
  moreover from inv none have "lock_pcs t j = Inside k' \<Longrightarrow> lock_pcs t j' = Inside k' \<Longrightarrow> j = j'" for j j' k'
    unfolding lock_inv_def pcs by blast
  ultimately show "lock_inv t" unfolding lock_inv_def by blast
next
  fix i k v h m
  assume "lock_inv s" "t = s\<lparr>lock_map := m\<rparr>" "LoadOrStore (lock_map s) k v = ((h, True), m)"
  then show "lock_inv t" by (auto dest: LoadOrStore_loaded)
next
  fix i k
  assume inv: "lock_inv s" and pc: "lock_pcs s i = Inside k"
    and t: "t = s\<lparr>lock_map := Delete (lock_map s) k, lock_pcs := (lock_pcs s)(i := Outside)\<rparr>"
  from inv pc have only: "lock_pcs s j = Inside k \<Longrightarrow> j = i" for j unfolding lock_inv_def by blast
  have pcs: "lock_pcs t j = Inside k' \<longleftrightarrow> lock_pcs s j = Inside k' \<and> k' \<noteq> k" for j k'
    using pc only[of j] by (cases "j = i") (auto simp: t)
  have dom: "dom (lock_map t) = dom (lock_map s) - {k}" by (simp add: t Delete_def)
  from inv have "k' \<in> dom (lock_map t) \<longleftrightarrow> (\<exists>j. lock_pcs t j = Inside k')" for k'
    unfolding lock_inv_def pcs dom by blast
  moreover from inv have "lock_pcs t j = Inside k' \<Longrightarrow> lock_pcs t j' = Inside k' \<Longrightarrow> j = j'" for j j' k'
    unfolding lock_inv_def pcs by blast
  ultimately show "lock_inv t" unfolding lock_inv_def by blast
qed

section \<open>Properties\<close>

text \<open>
  C9: however goroutines interleave their calls, polls and releases, at most one is inside for a
  volume at any time, and the lock map holds a volume exactly while one is.
\<close>

theorem volume_lock_mutual_exclusion:
  assumes "lock_machine.reachable s" and "lock_pcs s i = Inside k"
  shows "lock_map s k \<noteq> None \<and> (\<forall>j. lock_pcs s j = Inside k \<longrightarrow> j = i)"
proof -
  have "lock_inv s"
    by (rule lock_machine.reachable_invariant[OF assms(1) lock_inv_start lock_inv_step])
  with assms(2) show ?thesis unfolding lock_inv_def by (metis domIff)
qed

theorem volume_lock_mutual_exclusion_witness:
  "\<exists>s. lock_machine.reachable s \<and> lock_pcs s 0 = Inside ''v'' \<and> lock_map s ''v'' \<noteq> None"
proof -
  define s0 :: lock_sys where "s0 = \<lparr>lock_map = Map.empty, lock_pcs = (\<lambda>_. Outside)\<rparr>"
  define s1 where "s1 = s0\<lparr>lock_pcs := (lock_pcs s0)(0 := Polling ''v'' ''r'')\<rparr>"
  define s2 where "s2 = s1\<lparr>lock_map := [''v'' \<mapsto> ''r''], lock_pcs := (lock_pcs s1)(0 := Inside ''v'')\<rparr>"
  have "lock_machine.reachable s0"
    by (rule lock_machine.reachable_start) (simp add: s0_def lock_start_def)
  moreover have "lock_step s0 s1" unfolding s1_def by (rule lock_step.call) (simp add: s0_def)
  moreover have "lock_step s1 s2" unfolding s2_def
    by (rule lock_step.acquire[of _ _ "''v''" "''r''" "''r''"]) (simp_all add: s1_def s0_def LoadOrStore_def)
  ultimately have "lock_machine.reachable s2" by (meson lock_machine.reachable_step)
  moreover have "lock_pcs s2 0 = Inside ''v''" by (simp add: s2_def)
  ultimately show ?thesis using volume_lock_mutual_exclusion by blast
qed

end
