(* ===== verification/K8s_Client.thy ===== *)
theory K8s_Client
  imports Sample_Env
begin

text \<open>
  The Kubernetes client (\<open>src/nfs/k8s/k8s.go\<close>): thin wrappers of the client set, the listing of
  nodes and slices, and the search for the node that carries a CSI node id. An error is \<open>Inl\<close>.
\<close>

section \<open>Definitions\<close>

definition Connect :: "'w env \<Rightarrow> ('w nfs_state, err) state" where
  "Connect E = do {
     e \<leftarrow> ext (rest_InClusterConfig (clientset E));
     case e of
       Some m \<Rightarrow> State_Monad.return (Some m)
     | None \<Rightarrow> ext (kubernetes_NewForConfig (clientset E)) }"

definition CreateService :: "'w env \<Rightarrow> string \<Rightarrow> Service \<Rightarrow> ('w nfs_state, string + Service) state" where
  "CreateService E namespace service = ext (cs_CreateService (clientset E) namespace service)"

definition GetService :: "'w env \<Rightarrow> string \<Rightarrow> string \<Rightarrow> ('w nfs_state, string + Service) state" where
  "GetService E namespace name = ext (cs_GetService (clientset E) namespace name)"

definition UpdateService :: "'w env \<Rightarrow> string \<Rightarrow> Service \<Rightarrow> ('w nfs_state, string + Service) state" where
  "UpdateService E namespace service = ext (cs_UpdateService (clientset E) namespace service)"

definition DeleteService :: "'w env \<Rightarrow> string \<Rightarrow> string \<Rightarrow> ('w nfs_state, err) state" where
  "DeleteService E namespace name = ext (cs_DeleteService (clientset E) namespace name)"

definition GetEndpointSlice ::
  "'w env \<Rightarrow> string \<Rightarrow> string \<Rightarrow> ('w nfs_state, string + EndpointSlice) state" where
  "GetEndpointSlice E namespace name = ext (cs_GetEndpointSlice (clientset E) namespace name)"

definition CreateEndpointSlice ::
  "'w env \<Rightarrow> string \<Rightarrow> EndpointSlice \<Rightarrow> ('w nfs_state, string + EndpointSlice) state" where
  "CreateEndpointSlice E namespace es = ext (cs_CreateEndpointSlice (clientset E) namespace es)"

definition UpdateEndpointSlice ::
  "'w env \<Rightarrow> string \<Rightarrow> EndpointSlice \<Rightarrow> ('w nfs_state, string + EndpointSlice) state" where
  "UpdateEndpointSlice E namespace es = ext (cs_UpdateEndpointSlice (clientset E) namespace es)"

definition DeleteEndpointSlice :: "'w env \<Rightarrow> string \<Rightarrow> string \<Rightarrow> ('w nfs_state, err) state" where
  "DeleteEndpointSlice E namespace name = ext (cs_DeleteEndpointSlice (clientset E) namespace name)"

definition GetPersistentVolume :: "'w env \<Rightarrow> string \<Rightarrow> ('w nfs_state, string + PersistentVolume) state" where
  "GetPersistentVolume E name = ext (cs_GetPersistentVolume (clientset E) name)"

definition GetNode :: "'w env \<Rightarrow> string \<Rightarrow> ('w nfs_state, string + Node) state" where
  "GetNode E name = ext (cs_GetNode (clientset E) name)"

definition GetEndpointSlices ::
  "'w env \<Rightarrow> string \<Rightarrow> string \<Rightarrow> ('w nfs_state, string + EndpointSlice list) state" where
  "GetEndpointSlices E namespace labelSelector = do {
     r \<leftarrow> ext (cs_ListEndpointSlices (clientset E) namespace labelSelector);
     State_Monad.return (case r of
       Inl m \<Rightarrow> Inl (''shared-nfs: error retrieving endpointslices: '' @ labelSelector @ '': '' @ m)
     | Inr slices \<Rightarrow> Inr slices) }"

definition GetAllNodes :: "'w env \<Rightarrow> ('w nfs_state, string + Node list) state" where
  "GetAllNodes E = ext (cs_ListNodes (clientset E))"

abbreviation nodeid_annotation :: string where
  "nodeid_annotation \<equiv> ''csi.volume.kubernetes.io/nodeid''"

text \<open>The loop over the nodes; a node without the annotation or with a malformed one is skipped.\<close>

fun find_csi_node :: "(string \<Rightarrow> string + smap) \<Rightarrow> string \<Rightarrow> string \<Rightarrow> Node list \<Rightarrow> Node option" where
  "find_csi_node unmarshal driverKey csiNodeID [] = None"
| "find_csi_node unmarshal driverKey csiNodeID (node # nodes) =
     (case gm_lookup (node_annotations node) nodeid_annotation of
        None \<Rightarrow> find_csi_node unmarshal driverKey csiNodeID nodes
      | Some annotation \<Rightarrow>
         (case unmarshal annotation of
            Inl _ \<Rightarrow> find_csi_node unmarshal driverKey csiNodeID nodes
          | Inr nodeIDMap \<Rightarrow>
              if gm_lookup nodeIDMap driverKey = Some csiNodeID then Some node
              else find_csi_node unmarshal driverKey csiNodeID nodes))"

definition GetNodeByCSINodeID :: "'w env \<Rightarrow> string \<Rightarrow> string \<Rightarrow> ('w nfs_state, string + Node) state" where
  "GetNodeByCSINodeID E driverKey csiNodeID = do {
     r \<leftarrow> ext (cs_ListNodes (clientset E));
     State_Monad.return (case r of
       Inl m \<Rightarrow> Inl (''failed to list nodes: '' @ m)
     | Inr nodes \<Rightarrow>
         (case find_csi_node (json_UnmarshalMap (runtime E)) driverKey csiNodeID nodes of
            Some node \<Rightarrow> Inr node
          | None \<Rightarrow> Inl (''failed to find a Node matching csiNodeId '' @ csiNodeID))) }"

lemmas client_defs [go_defs] =
  Connect_def CreateService_def GetService_def UpdateService_def DeleteService_def
  GetEndpointSlice_def CreateEndpointSlice_def UpdateEndpointSlice_def DeleteEndpointSlice_def
  GetPersistentVolume_def GetNode_def GetEndpointSlices_def GetAllNodes_def GetNodeByCSINodeID_def

section \<open>Lemmas\<close>

text \<open>A node carries a CSI node id for a driver when its annotation says so.\<close>

definition carries_csi_id :: "(string \<Rightarrow> string + smap) \<Rightarrow> string \<Rightarrow> string \<Rightarrow> Node \<Rightarrow> bool" where
  "carries_csi_id unmarshal driverKey csiNodeID node \<longleftrightarrow>
     (\<exists>a m. gm_lookup (node_annotations node) nodeid_annotation = Some a \<and> unmarshal a = Inr m \<and>
        gm_lookup m driverKey = Some csiNodeID)"

lemma find_csi_node_find:
  "find_csi_node u k i nodes = find (carries_csi_id u k i) nodes"
  by (induction nodes) (auto simp: carries_csi_id_def split: option.splits sum.splits)

text \<open>Every client call leaves the process state alone.\<close>

lemma keeps_process_client [frame]:
  "keeps process (Connect E)" "keeps process (CreateService E ns v)" "keeps process (GetService E ns n)"
  "keeps process (UpdateService E ns v)" "keeps process (DeleteService E ns n)"
  "keeps process (GetEndpointSlice E ns n)" "keeps process (CreateEndpointSlice E ns l)"
  "keeps process (UpdateEndpointSlice E ns l)" "keeps process (DeleteEndpointSlice E ns n)"
  "keeps process (GetPersistentVolume E n)" "keeps process (GetNode E n)"
  "keeps process (GetEndpointSlices E ns n)" "keeps process (GetAllNodes E)"
  "keeps process (GetNodeByCSINodeID E k i)"
  by (auto simp: client_defs keeps_def split: option.splits)

text \<open>
  The search for a node by its CSI id returns the first node of the list whose annotation
  parses and maps the driver to that id, and an error when there is none or the list fails.
\<close>

lemma get_node_by_csi_id_first_match:
  "fst (run_state (GetNodeByCSINodeID E k i) s) =
     (case fst (cs_ListNodes (clientset E) (world s)) of
        Inl m \<Rightarrow> Inl (''failed to list nodes: '' @ m)
      | Inr nodes \<Rightarrow>
         (case find (carries_csi_id (json_UnmarshalMap (runtime E)) k i) nodes of
            Some node \<Rightarrow> Inr node
          | None \<Rightarrow> Inl (''failed to find a Node matching csiNodeId '' @ i)))"
  by (simp add: GetNodeByCSINodeID_def find_csi_node_find split: sum.split)

end
