(* ===== verification/Nfs_Service.thy ===== *)
theory Nfs_Service
  imports Exports PV_Locks K8s_Client
begin

text \<open>
  The NFS server of a node (\<open>src/nfs/nfs_service.go\<close>): the remote procedures that export and
  unexport a volume, answer pings and list the exports. Log lines and time measurements are left
  out. \<open>MountVolume\<close> runs in a goroutine while the handler waits for it or for the end of the
  request: \<open>select_done\<close> decides which comes first, and the answer of a mount that is overtaken is
  dropped.
\<close>

section \<open>Definitions\<close>

definition listen :: "'w env \<Rightarrow> string \<Rightarrow> string \<Rightarrow> ('w nfs_state, err) state" where
  "listen E ipAddress port = ext (net_Listen (nfsClient E) (ipAddress @ '':'' @ port))"

definition serve :: "'w env \<Rightarrow> ('w nfs_state, err) state" where
  "serve E = ext (grpc_Serve (nfsClient E))"

definition startNfsServiceServer ::
  "string \<Rightarrow> string \<Rightarrow> (string \<Rightarrow> string \<Rightarrow> ('w nfs_state, err) state) \<Rightarrow> ('w nfs_state, err) state \<Rightarrow>
   ('w nfs_state, err) state" where
  "startNfsServiceServer ipAddress port listenFunc serveFunc = do {
     e \<leftarrow> listenFunc ipAddress port;
     case e of
       Some m \<Rightarrow> State_Monad.return (Some m)
     | None \<Rightarrow> serveFunc }"

text \<open>\<open>getNfsClient\<close>: the address of the client, or an error.\<close>

definition getNfsClient :: "'w env \<Rightarrow> string \<Rightarrow> string \<Rightarrow> ('w nfs_state, string + string) state" where
  "getNfsClient E ipaddress port = do {
     e \<leftarrow> ext (grpc_NewClient (nfsClient E) (ipaddress @ '':'' @ port));
     State_Monad.return (case e of Some m \<Rightarrow> Inl m | None \<Rightarrow> Inr (ipaddress @ '':'' @ port)) }"

definition RootUID :: nat where "RootUID = 0"
definition nfsGroupID :: nat where "nfsGroupID = 100"
definition NfsFileMode :: nat where "NfsFileMode = 1535"
definition maxUnmountAttempts :: nat where "maxUnmountAttempts = 10"
definition maxGetSvcAttempts :: nat where "maxGetSvcAttempts = 3"
definition timeout :: nat where "timeout = 5 * Second"

definition export_options :: "string \<Rightarrow> string" where
  "export_options cidr =
     (let options = ''(rw,no_subtree_check,no_root_squash)''
      in cidr @ options @ '' 169.254.0.0/17'' @ options @ '' 127.0.0.1/32'' @ options)"

text \<open>The variable \<open>generation\<close> of the package is assigned outside the lock of the table.\<close>

definition set_generation :: "64 word \<Rightarrow> ('w nfs_state, unit) state" where
  "set_generation g = State_Monad.update (\<lambda>s. s\<lparr>generation := g\<rparr>)"

text \<open>
  The answer of \<open>ExportNfsVolume\<close>: response, error, and the map \<open>req.ExportNfsContext\<close> after the
  call, which the handler writes to and its caller can see.
\<close>

type_synonym export_answer = "ExportNfsVolumeResponse option \<times> err \<times> smap"

definition finish_export ::
  "'w env \<Rightarrow> ExportNfsVolumeResponse \<Rightarrow> string \<Rightarrow> smap \<Rightarrow> ('w nfs_state, export_answer) state" where
  "finish_export E resp path ctx = do {
     e \<leftarrow> ext (os_Chown (opSys E) path RootUID nfsGroupID);
     case e of Some m \<Rightarrow> State_Monad.return (Some resp, Some m, ctx) | None \<Rightarrow> do {
     e \<leftarrow> ext (os_Chmod (opSys E) path NfsFileMode);
     case e of Some m \<Rightarrow> State_Monad.return (Some resp, Some m, ctx) | None \<Rightarrow> do {
     (_, e) \<leftarrow> ext (ExecuteCommand (exec E) ''chroot'' [''/noderoot'', ''ls'', ''-ld'', path]);
     case e of Some m \<Rightarrow> State_Monad.return (Some resp, Some m, ctx) | None \<Rightarrow> do {
     s \<leftarrow> State_Monad.get;
     (g, e) \<leftarrow> AddExport E (path @ ''/'') (export_options (podCIDR (nfsService s)));
     _ \<leftarrow> set_generation g;
     case e of Some m \<Rightarrow> State_Monad.return (Some resp, Some m, ctx) | None \<Rightarrow> do {
     s \<leftarrow> State_Monad.get;
     e \<leftarrow> ResyncNFSMountd E (generation s);
     State_Monad.return (Some resp, e, ctx) } } } } }"

definition export_volume ::
  "'w env \<Rightarrow> ExportNfsVolumeRequest \<Rightarrow> ('w nfs_state, export_answer outcome) state" where
  "export_volume E req = (
     let vid = exp_VolumeId req;
         resp = \<lparr>expr_VolumeId = vid, expr_ExportNfsContext = NilMap\<rparr>;
         stagingPath = NfsExportDirectory E @ ''/'' @ VolumeIDToServiceName (unicode_ToLower (runtime E)) vid
     in do {
       stat \<leftarrow> ext (os_Stat (opSys E) stagingPath);
       (exists, _) \<leftarrow> CheckExport E (stagingPath @ ''/'');
       if stat = None \<and> exists then State_Monad.return
         (Done (Some (resp\<lparr>expr_ExportNfsContext := GoMap [(''idenpotent'', ''true'')]\<rparr>), None,
            exp_ExportNfsContext req))
       else do {
         (path, e) \<leftarrow> ext (vcsi_MountVolume (vcsi E) vid [] (NfsExportDirectory E) (exp_ExportNfsContext req));
         over \<leftarrow> ext (select_done (runtime E));
         if over then do {
           s \<leftarrow> State_Monad.get;
           State_Monad.return (Done (None, Some (ctx_Err (runtime E) (world s)), exp_ExportNfsContext req)) }
         else
           case e of
             Some m \<Rightarrow> State_Monad.return (Done (Some resp, Some m, exp_ExportNfsContext req))
           | None \<Rightarrow>
              (case gm_put (exp_ExportNfsContext req) ''MountPath'' path of
                 None \<Rightarrow> State_Monad.return (Panicked nil_map_panic)
               | Some ctx \<Rightarrow> do {
                   r \<leftarrow> finish_export E resp path ctx;
                   State_Monad.return (Done r) }) } })"

definition ExportNfsVolume ::
  "'w env \<Rightarrow> nat \<Rightarrow> ExportNfsVolumeRequest \<Rightarrow> ('w nfs_state, export_answer outcome) state" where
  "ExportNfsVolume E fuel req =
     locked (nfsLockPV E fuel (exp_VolumeId req)) (nfsUnlockPV (exp_VolumeId req)) (export_volume E req)"

fun unmount_loop :: "'w env \<Rightarrow> string \<Rightarrow> string \<Rightarrow> nat \<Rightarrow> err \<Rightarrow> ('w nfs_state, err) state" where
  "unmount_loop E driverVolumeID serviceName 0 giveup = State_Monad.return giveup"
| "unmount_loop E driverVolumeID serviceName (Suc n) giveup = do {
     e \<leftarrow> ext (vcsi_UnmountVolume (vcsi E) driverVolumeID (NfsExportDirectory E)
            (GoMap [(''ServiceName'', serviceName)]));
     if e = None then State_Monad.return None
     else do {
       _ \<leftarrow> sleep E timeout;
       unmount_loop E driverVolumeID serviceName n giveup } }"

definition UnmountVolume :: "'w env \<Rightarrow> string \<Rightarrow> string \<Rightarrow> ('w nfs_state, err) state" where
  "UnmountVolume E driverVolumeID serviceName =
     unmount_loop E driverVolumeID serviceName maxUnmountAttempts
       (Some (''could not unmount volume '' @ driverVolumeID))"

text \<open>The attempts of \<open>UnexportNfsVolume\<close> to unmount; \<open>i\<close> is the loop counter.\<close>

fun unexport_loop ::
  "'w env \<Rightarrow> string \<Rightarrow> string \<Rightarrow> 64 word \<Rightarrow> UnexportNfsVolumeResponse \<Rightarrow> nat \<Rightarrow> nat \<Rightarrow>
   ('w nfs_state, UnexportNfsVolumeResponse option \<times> err) state" where
  "unexport_loop E vid serviceName g resp i 0 =
     State_Monad.return (None, Some ''UnmountVolume timed out after several retries'')"
| "unexport_loop E vid serviceName g resp i (Suc n) = do {
     _ \<leftarrow> sleep E (i * Second);
     e \<leftarrow> UnmountVolume E vid serviceName;
     case e of
       None \<Rightarrow> State_Monad.return (Some resp, None)
     | Some m \<Rightarrow>
         if Contains m ''not mounted'' \<or> Contains m ''no such file or directory''
         then State_Monad.return (Some resp, None)
         else do {
           e \<leftarrow> ResyncNFSMountd E g;
           case e of
             Some m \<Rightarrow> State_Monad.return (Some resp, Some m)
           | None \<Rightarrow> unexport_loop E vid serviceName g resp (Suc i) n } }"

definition unexport_path :: "string \<Rightarrow> string \<Rightarrow> string \<Rightarrow> string" where
  "unexport_path dir vid serviceName =
     ReplaceAll (if serviceName \<noteq> [] then dir @ ''/'' @ serviceName else dir @ ''/'' @ vid) ''//'' ''/''"

definition unexport_volume ::
  "'w env \<Rightarrow> UnexportNfsVolumeRequest \<Rightarrow> ('w nfs_state, UnexportNfsVolumeResponse option \<times> err) state" where
  "unexport_volume E req = (
     let vid = unexp_VolumeId req;
         serviceName = gm_get (unexp_UnexportNfsContext req) ''ServiceName'';
         resp = \<lparr>unexpr_VolumeId = vid, unexpr_UnexportNfsContext = GoMap []\<rparr>;
         exportPath = unexport_path (NfsExportDirectory E) vid serviceName
     in do {
       (g, e) \<leftarrow> DeleteExport E exportPath;
       case e of
         Some m \<Rightarrow> State_Monad.return (Some resp, Some m)
       | None \<Rightarrow> do {
           e \<leftarrow> ResyncNFSMountd E g;
           case e of
             Some m \<Rightarrow> State_Monad.return (Some resp, Some m)
           | None \<Rightarrow> unexport_loop E vid serviceName g resp 1 3 } })"

definition UnexportNfsVolume ::
  "'w env \<Rightarrow> nat \<Rightarrow> UnexportNfsVolumeRequest \<Rightarrow>
   ('w nfs_state, (UnexportNfsVolumeResponse option \<times> err) outcome) state" where
  "UnexportNfsVolume E fuel req =
     locked (nfsLockPV E fuel (unexp_VolumeId req)) (nfsUnlockPV (unexp_VolumeId req))
       (do { r \<leftarrow> unexport_volume E req; State_Monad.return (Done r) })"

text \<open>
  The attempts of \<open>GetServiceContent\<close>. The \<open>err\<close> that the loop assigns is declared inside it, so
  the \<open>err\<close> returned after the loop is still nil.
\<close>

fun get_service_loop :: "'w env \<Rightarrow> string \<Rightarrow> nat \<Rightarrow> ('w nfs_state, Service option \<times> err) state" where
  "get_service_loop E serviceName 0 = State_Monad.return (None, None)"
| "get_service_loop E serviceName (Suc n) = do {
     r \<leftarrow> GetService E (DriverNamespace E) serviceName;
     case r of
       Inl m \<Rightarrow>
         if cs_IsNotFound (clientset E) m then State_Monad.return (None, Some m)
         else do {
           _ \<leftarrow> sleep E timeout;
           get_service_loop E serviceName n }
     | Inr service \<Rightarrow> State_Monad.return (Some service, None) }"

definition GetServiceContent :: "'w env \<Rightarrow> string \<Rightarrow> ('w nfs_state, Service option \<times> err) state" where
  "GetServiceContent E serviceName = get_service_loop E serviceName maxGetSvcAttempts"

definition export_service_name :: "string \<Rightarrow> string \<Rightarrow> string" where
  "export_service_name dir exportDir = Replace1 (Replace1 exportDir dir []) ''/'' []"

text \<open>What one round of the loop of \<open>Ping\<close> does: go on, or return from the handler.\<close>

datatype ping_round = NextExport bool int | ReturnPing err

definition ping_readd :: "'w env \<Rightarrow> string list \<Rightarrow> ('w nfs_state, unit) state" where
  "ping_readd E parts = do {
     (g, _) \<leftarrow> AddExport E (hd parts) (Join (tl parts) '' '');
     _ \<leftarrow> set_generation g;
     s \<leftarrow> State_Monad.get;
     _ \<leftarrow> ResyncNFSMountd E (generation s);
     State_Monad.return () }"

definition ping_export ::
  "'w env \<Rightarrow> string \<Rightarrow> bool \<Rightarrow> int \<Rightarrow> ('w nfs_state, ping_round outcome) state" where
  "ping_export E export ready removed = (
     let parts = Split export (CHR '' '');
         exportDir = Clean (hd parts);
         serviceName = export_service_name (NfsExportDirectory E) exportDir
     in do {
       (service, e) \<leftarrow> GetServiceContent E serviceName;
       if e \<noteq> None then State_Monad.return (Done (NextExport ready removed))
       else case service of
         None \<Rightarrow> State_Monad.return (Panicked nil_deref_panic)
       | Some service \<Rightarrow>
          (case gm_lookup (svc_annotations service) ''driverVolumeID'' of
             None \<Rightarrow> State_Monad.return (Done (NextExport ready removed))
           | Some driverVolumeID \<Rightarrow> do {
               (g, e) \<leftarrow> DeleteExport E exportDir;
               _ \<leftarrow> set_generation g;
               if e \<noteq> None then State_Monad.return (Done (NextExport ready removed))
               else do {
                 s \<leftarrow> State_Monad.get;
                 e \<leftarrow> ResyncNFSMountd E (generation s);
                 if e \<noteq> None then State_Monad.return (Done (ReturnPing e))
                 else do {
                   e \<leftarrow> UnmountVolume E (''nfs-'' @ driverVolumeID) serviceName;
                   if e \<noteq> None then do {
                     _ \<leftarrow> ping_readd E parts;
                     State_Monad.return (Done (NextExport False removed)) }
                   else State_Monad.return (Done (NextExport ready (removed + 1))) } } }) })"

fun ping_loop ::
  "'w env \<Rightarrow> string list \<Rightarrow> bool \<Rightarrow> int \<Rightarrow> ('w nfs_state, (PingResponse \<times> err) outcome) state" where
  "ping_loop E [] ready removed = State_Monad.return (Done
     (\<lparr>pingr_Ready = ready, pingr_Status = []\<rparr>,
      if ready then None else Some ''dumping all exports failed''))"
| "ping_loop E (export # exports) ready removed = do {
     r \<leftarrow> ping_export E export ready removed;
     case r of
       Done (NextExport ready removed) \<Rightarrow> ping_loop E exports ready removed
     | Done (ReturnPing e) \<Rightarrow>
         State_Monad.return (Done (\<lparr>pingr_Ready = ready, pingr_Status = []\<rparr>, e))
     | Panicked m \<Rightarrow> State_Monad.return (Panicked m)
     | Running \<Rightarrow> State_Monad.return Running }"

definition Ping :: "'w env \<Rightarrow> PingRequest \<Rightarrow> ('w nfs_state, (PingResponse \<times> err) outcome) state" where
  "Ping E req = (
     let resp = \<lparr>pingr_Ready = True, pingr_Status = []\<rparr>
     in if ping_DumpAllExports req then do {
          (exports, e) \<leftarrow> GetExports E (NfsExportDirectory E);
          if e \<noteq> None then State_Monad.return (Done (resp, e))
          else ping_loop E exports True 0 }
        else State_Monad.return (Done (resp, None)))"

definition nfs_GetExports :: "'w env \<Rightarrow> ('w nfs_state, GetExportsResponse \<times> err) state" where
  "nfs_GetExports E = do {
     (exports, e) \<leftarrow> GetExports E (NfsExportDirectory E);
     State_Monad.return (\<lparr>getr_Exports = exports\<rparr>, e) }"

text \<open>
  The loop of \<open>ExportMultipleNfsVolumes\<close>: the ids exported and not exported so far, the last error,
  and the context map that all the requests share.
\<close>

fun export_multiple_loop ::
  "'w env \<Rightarrow> nat \<Rightarrow> string list \<Rightarrow> smap \<Rightarrow> string list \<Rightarrow> string list \<Rightarrow> err \<Rightarrow>
   ('w nfs_state, (ExportMultipleNfsVolumesResponse \<times> err) outcome) state" where
  "export_multiple_loop E fuel [] ctx successful unsuccessful lastError =
     State_Monad.return (Done (\<lparr>expmr_SuccessfulIds = successful, expmr_UnsuccessfulIds = unsuccessful,
       expmr_ExportNfsContext = ctx\<rparr>, lastError))"
| "export_multiple_loop E fuel (vid # vids) ctx successful unsuccessful lastError = do {
     r \<leftarrow> ExportNfsVolume E fuel \<lparr>exp_VolumeId = vid, exp_ExportNfsContext = ctx\<rparr>;
     case r of
       Done (_, e, ctx) \<Rightarrow>
         if e \<noteq> None then export_multiple_loop E fuel vids ctx successful (unsuccessful @ [vid]) e
         else export_multiple_loop E fuel vids ctx (successful @ [vid]) unsuccessful lastError
     | Panicked m \<Rightarrow> State_Monad.return (Panicked m)
     | Running \<Rightarrow> State_Monad.return Running }"

definition ExportMultipleNfsVolumes ::
  "'w env \<Rightarrow> nat \<Rightarrow> ExportMultipleNfsVolumesRequest \<Rightarrow>
   ('w nfs_state, (ExportMultipleNfsVolumesResponse \<times> err) outcome) state" where
  "ExportMultipleNfsVolumes E fuel req =
     export_multiple_loop E fuel (expm_VolumeIds req) (expm_ExportNfsContext req) [] [] None"

fun unexport_multiple_loop ::
  "'w env \<Rightarrow> nat \<Rightarrow> string list \<Rightarrow> smap \<Rightarrow> string list \<Rightarrow> string list \<Rightarrow> err \<Rightarrow>
   ('w nfs_state, (UnexportMultipleNfsVolumesResponse \<times> err) outcome) state" where
  "unexport_multiple_loop E fuel [] ctx successful unsuccessful lastError =
     State_Monad.return (Done (\<lparr>unexpmr_SuccessfulIds = successful, unexpmr_UnsuccessfulIds = unsuccessful,
       unexpmr_ExportNfsContext = ctx\<rparr>, lastError))"
| "unexport_multiple_loop E fuel (vid # vids) ctx successful unsuccessful lastError = do {
     r \<leftarrow> UnexportNfsVolume E fuel \<lparr>unexp_VolumeId = vid, unexp_UnexportNfsContext = ctx\<rparr>;
     case r of
       Done (_, e) \<Rightarrow>
         if e \<noteq> None then unexport_multiple_loop E fuel vids ctx successful (unsuccessful @ [vid]) e
         else unexport_multiple_loop E fuel vids ctx (successful @ [vid]) unsuccessful lastError
     | Panicked m \<Rightarrow> State_Monad.return (Panicked m)
     | Running \<Rightarrow> State_Monad.return Running }"

definition UnexportMultipleNfsVolumes ::
  "'w env \<Rightarrow> nat \<Rightarrow> UnexportMultipleNfsVolumesRequest \<Rightarrow>
   ('w nfs_state, (UnexportMultipleNfsVolumesResponse \<times> err) outcome) state" where
  "UnexportMultipleNfsVolumes E fuel req =
     unexport_multiple_loop E fuel (unexpm_VolumeIds req) (unexpm_ExportNfsContext req) [] [] None"

section \<open>Lemmas\<close>

subsection \<open>Frames\<close>

lemma keeps_process_locks: "keeps process m \<Longrightarrow> keeps locks m"
  by (simp add: keeps_def locks_def process_def)

lemma keeps_nfsPVLock: "keeps locks m \<Longrightarrow> keeps nfsPVLock m"
  by (simp add: keeps_def locks_def)

lemma keeps_locks_setgen [frame]: "keeps locks (set_generation g)"
  unfolding set_generation_def by (intro frame) (simp add: locks_def)

lemma keeps_locks_finish [frame]: "keeps locks (finish_export E resp path ctx)"
  unfolding finish_export_def by (intro frame)

lemma keeps_locks_export [frame]: "keeps locks (export_volume E req)"
  unfolding export_volume_def by (intro frame)

lemma keeps_process_unmount_loop [frame]: "keeps process (unmount_loop E v sn n g)"
  by (induction n) (auto intro!: frame simp del: run_state_bind)

lemma keeps_process_unmount [frame]: "keeps process (UnmountVolume E v sn)"
  unfolding UnmountVolume_def by (intro frame)

lemmas keeps_locks_unmount [frame] = keeps_process_locks[OF keeps_process_unmount]

lemma keeps_process_service_loop [frame]: "keeps process (get_service_loop E sn n)"
  by (induction n) (auto intro!: frame simp del: run_state_bind)

lemma keeps_process_service_content [frame]: "keeps process (GetServiceContent E sn)"
  unfolding GetServiceContent_def by (intro frame)

lemmas keeps_locks_service_content [frame] = keeps_process_locks[OF keeps_process_service_content]

lemma keeps_locks_unexport_loop [frame]: "keeps locks (unexport_loop E v sn g resp i n)"
  by (induction n arbitrary: i) (auto intro!: frame simp del: run_state_bind)

lemma keeps_locks_unexport [frame]: "keeps locks (unexport_volume E req)"
  unfolding unexport_volume_def by (intro frame)

lemma wp_set_generation [wp]: "Q () (s\<lparr>generation := g\<rparr>) \<Longrightarrow> wp (set_generation g) Q s"
  by (simp add: set_generation_def wp_update)

lemmas wp_UnmountVolume [wp] = wp_keeps[OF keeps_process_unmount]
lemmas wp_GetServiceContent [wp] = wp_keeps[OF keeps_process_service_content]

lemma work_get:
  assumes "work s = work t"
  shows "export_entries s = export_entries t" "has_export s d = has_export t d"
  using work_fields[OF assms] by (simp_all add: has_export_def export_entries_def)

lemma work_inv: "work s = work t \<Longrightarrow> exports_inv E s = exports_inv E t"
  by (drule work_fields(1)) (simp add: exports_inv_def)

subsection \<open>Exporting\<close>

text \<open>The entry that the handler adds for a mount path.\<close>

definition export_entry :: "'w nfs_state \<Rightarrow> string \<Rightarrow> string" where
  "export_entry s path = (path @ ''/'') @ '' '' @ export_options (podCIDR (nfsService s))"

text \<open>
  What a call may do to the table: nothing or a start of the entry is written, and without an
  error the entry is complete, new, and in the kernel's table.
\<close>

definition exported ::
  "'w nfs_state \<Rightarrow> string \<Rightarrow> err \<Rightarrow> 'w nfs_state \<Rightarrow> bool" where
  "exported s path e t \<longleftrightarrow>
     (\<exists>p. prefix p (export_entry s path @ [newline]) \<and>
        exports_file t = map_option (\<lambda>c. c @ p) (exports_file s) \<and>
        (e = None \<longrightarrow> p = export_entry s path @ [newline] \<and> exports_file s \<noteq> None \<and>
           \<not> has_export s (path @ ''/'') \<and> generation t = generation s + 1 \<and>
           generation t \<le>s syncedGeneration t))"

lemma exported_nothing:
  "e \<noteq> None \<Longrightarrow> work t = work s \<Longrightarrow> exported s path e t"
  unfolding exported_def
  by (intro exI[of _ "[]"]) (auto simp: option.map_ident dest: work_fields(1))

lemma exported_added:
  "exports_file t = map_option (\<lambda>c. c @ p) (exports_file s) \<Longrightarrow>
   prefix p (path @ CHR ''/'' # CHR '' '' # export_options (podCIDR (nfsService s)) @ [newline]) \<Longrightarrow>
   (e = None \<Longrightarrow> p = export_entry s path @ [newline] \<and> exports_file s \<noteq> None \<and>
      \<not> has_export s (path @ ''/'') \<and> generation t = generation s + 1 \<and>
      generation t \<le>s syncedGeneration t) \<Longrightarrow>
   exported s path e t"
  unfolding exported_def by (intro exI[of _ p]) (auto simp: export_entry_def)

lemma has_export_world [simp]: "has_export (s\<lparr>world := w\<rparr>) d = has_export s d"
  by (simp add: has_export_def)

lemma finish_export_effect:
  "wp (finish_export E resp path ctx) (\<lambda>(r, e, c) t. r = Some resp \<and> c = ctx \<and> exported s path e t) s"
  unfolding finish_export_def
  by (intro wp, simp_all add: exported_nothing)
     (rule exported_added; auto simp: table_state_def export_entry_def split: if_splits)+

lemmas wp_finish_export [wp] = wp_mono[OF finish_export_effect]

text \<open>The directory that a volume is exported from.\<close>

abbreviation staging_path :: "'w env \<Rightarrow> string \<Rightarrow> string" where
  "staging_path E vid \<equiv> NfsExportDirectory E @ ''/'' @ VolumeIDToServiceName (unicode_ToLower (runtime E)) vid"

text \<open>The answer and the table after the body of \<open>ExportNfsVolume\<close>, on every branch.\<close>

definition export_result ::
  "'w env \<Rightarrow> ExportNfsVolumeRequest \<Rightarrow> 'w nfs_state \<Rightarrow> export_answer outcome \<Rightarrow> 'w nfs_state \<Rightarrow> bool" where
  "export_result E req s r t \<longleftrightarrow> (
     let resp = \<lparr>expr_VolumeId = exp_VolumeId req, expr_ExportNfsContext = NilMap\<rparr>;
         done = resp\<lparr>expr_ExportNfsContext := GoMap [(''idenpotent'', ''true'')]\<rparr>
     in case r of
       Done (answer, e, ctx) \<Rightarrow>
         answer = Some done \<and> e = None \<and> ctx = exp_ExportNfsContext req \<and> work t = work s \<and>
           (exports_inv E s \<longrightarrow> has_export s (staging_path E (exp_VolumeId req) @ ''/'')) \<or>
         answer \<in> {None, Some resp} \<and> e \<noteq> None \<and> ctx = exp_ExportNfsContext req \<and> work t = work s \<or>
         answer = Some resp \<and>
           (\<exists>path w. fst (vcsi_MountVolume (vcsi E) (exp_VolumeId req) [] (NfsExportDirectory E)
                (exp_ExportNfsContext req) w) = (path, None) \<and>
              gm_put (exp_ExportNfsContext req) ''MountPath'' path = Some ctx \<and> exported s path e t)
     | Panicked m \<Rightarrow> exp_ExportNfsContext req = NilMap \<and> work t = work s
     | Running \<Rightarrow> False)"

lemma exported_work:
  assumes "work s' = work s" and "work t' = work t"
  shows "exported s' path e t' \<longleftrightarrow> exported s path e t"
  by (simp only: exported_def export_entry_def work_get[OF assms(1)] work_fields[OF assms(1)] work_fields[OF assms(2)])

lemma export_result_work:
  assumes "work s' = work s" and "work t' = work t"
  shows "export_result E req s' r t' \<longleftrightarrow> export_result E req s r t"
  by (simp only: export_result_def exported_work[OF assms] work_get[OF assms(1)] work_inv[OF assms(1)] assms)

lemma gm_put_None: "gm_put m k v = None \<longleftrightarrow> m = NilMap"
  by (cases m) auto

lemma exported_world [simp]: "exported (s\<lparr>world := w\<rparr>) path e t = exported s path e t"
  by (rule exported_work) simp_all

lemma exported_from: "exported s' path e t \<Longrightarrow> work s' = work s \<Longrightarrow> exported s path e t"
  using exported_work by blast

lemma export_resultI:
  "work t = work s \<Longrightarrow>
   (exports_inv E s \<Longrightarrow> has_export s (staging_path E (exp_VolumeId req) @ ''/'')) \<Longrightarrow> export_result E req s (Done (Some \<lparr>expr_VolumeId = exp_VolumeId req,
     expr_ExportNfsContext = GoMap [(''idenpotent'', ''true'')]\<rparr>, None, exp_ExportNfsContext req)) t"
  "work t = work s \<Longrightarrow> export_result E req s (Done (None, Some m, exp_ExportNfsContext req)) t"
  "work t = work s \<Longrightarrow> export_result E req s (Done (Some \<lparr>expr_VolumeId = exp_VolumeId req,
     expr_ExportNfsContext = NilMap\<rparr>, Some m, exp_ExportNfsContext req)) t"
  "vcsi_MountVolume (vcsi E) (exp_VolumeId req) [] (NfsExportDirectory E) (exp_ExportNfsContext req) w =
     ((path, None), w') \<Longrightarrow>
   gm_put (exp_ExportNfsContext req) ''MountPath'' path = Some ctx \<Longrightarrow> exported s path e t \<Longrightarrow>
   export_result E req s (Done (Some \<lparr>expr_VolumeId = exp_VolumeId req, expr_ExportNfsContext = NilMap\<rparr>, e, ctx)) t"
  "exp_ExportNfsContext req = NilMap \<Longrightarrow> work t = work s \<Longrightarrow> export_result E req s (Panicked m) t"
  by (auto simp: export_result_def) (metis fst_conv)+

lemma export_volume_effect: "wp (export_volume E req) (export_result E req s) s"
  unfolding export_volume_def
  by (intro wp) (auto intro!: export_resultI simp: gm_put_None intro: exported_from dest: process_work)

lemma export_never_waits: "fst (run_state (export_volume E req) s) \<noteq> Running"
  using export_volume_effect[of E req s] by (auto simp: wp_def export_result_def)

lemma nfs_handler:
  assumes run: "run_state (locked (nfsLockPV E n k) (nfsUnlockPV k) body) s = (r, t)" and "n \<noteq> 0"
    and body: "keeps locks body" and ends: "\<And>s. fst (run_state body s) \<noteq> Running"
    and effect: "\<And>s. wp body (Q s) s"
    and stable: "\<And>s s' r t t'. work s' = work s \<Longrightarrow> work t' = work t \<Longrightarrow> Q s' r t' \<Longrightarrow> Q s r t"
  shows "if nfsPVLock s k = None then nfsPVLock t = nfsPVLock s \<and> Q s r t
    else r = Running \<and> nfsPVLock t = nfsPVLock s"
proof (cases "nfsPVLock s k")
  case None
  from nfs_lock.locked_runs_body[OF None \<open>n \<noteq> 0\<close>, of E body] ends run have "r \<noteq> Running" by auto
  with run nfs_lock.locked_balanced[OF keeps_nfsPVLock[OF body] run]
  obtain u v where u: "work u = work s" and b: "run_state body u = (r, v)" and t: "work t = work v"
    and l: "nfsPVLock t = nfsPVLock s"
    by (meson nfs_locked_run)
  have "Q u r v" using effect[of u] b by (rule wpD)
  from stable[OF u t[symmetric] this] None l show ?thesis by simp
next
  case (Some h)
  obtain got u where l: "run_state (nfsLockPV E n k) s = (got, u)" by fastforce
  with nfsLockPV_law[OF l] Some run show ?thesis by (auto simp: locked_def)
qed

subsection \<open>Unexporting\<close>

text \<open>
  Once \<open>g\<close> is synced, the loop never resynchronises again: it ends with the response, or with
  the error of three rounds of failed attempts.
\<close>

lemma ResyncNFSMountd_saved:
  "g \<le>s syncedGeneration s \<Longrightarrow> run_state (ResyncNFSMountd E g) s = (None, s\<lparr>savedUpdates := savedUpdates s + 1\<rparr>)"
  by (simp add: ResyncNFSMountd_def)

definition table_view :: "'w nfs_state \<Rightarrow> string option \<times> 64 word \<times> 64 word" where
  "table_view s = (exports_file s, generation s, syncedGeneration s)"

lemma table_view_simps [simp]:
  "table_view (s\<lparr>world := w\<rparr>) = table_view s" "table_view (s\<lparr>savedUpdates := n\<rparr>) = table_view s"
  by (simp_all add: table_view_def)

lemma table_view_fields:
  "table_view t = table_view s \<Longrightarrow> exports_file t = exports_file s"
  "table_view t = table_view s \<Longrightarrow> generation t = generation s"
  "table_view t = table_view s \<Longrightarrow> syncedGeneration t = syncedGeneration s"
  by (simp_all add: table_view_def)

lemma process_table_view: "process t = process s \<Longrightarrow> table_view t = table_view s"
  by (drule process_work) (simp add: table_view_def work_def process_def)

lemma unexport_loop_effect:
  "g \<le>s syncedGeneration s \<Longrightarrow>
   wp (unexport_loop E v sn g resp i n) (\<lambda>(r, e) t. table_view t = table_view s \<and>
     (r = Some resp \<and> e = None \<or>
      r = None \<and> e = Some ''UnmountVolume timed out after several retries'')) s"
proof (induction n arbitrary: i s)
  case 0
  then show ?case by (simp add: wp_return)
next
  case (Suc n)
  have resync: "wp (ResyncNFSMountd E g) Q u"
    if "table_view u = table_view s" and "\<And>v. table_view v = table_view s \<Longrightarrow> Q None v" for Q u
    using that Suc.prems table_view_fields(3)[OF that(1)] by (simp add: wp_def ResyncNFSMountd_saved)
  have again: "wp (unexport_loop E v sn g resp i n) (\<lambda>(r, e) t. table_view t = table_view s \<and>
     (r = Some resp \<and> e = None \<or>
      r = None \<and> e = Some ''UnmountVolume timed out after several retries'')) u"
    if "table_view u = table_view s" for u i
    using Suc.IH[of u i] Suc.prems table_view_fields(3)[OF that] that by simp
  show ?case unfolding unexport_loop.simps
    by (intro wp_bind wp_sleep wp_UnmountVolume wp_case_option wp_if wp_return resync)
       (auto dest!: process_table_view intro: again)
qed

text \<open>The answer and the table after the body of \<open>UnexportNfsVolume\<close>.\<close>

definition unexport_result ::
  "'w env \<Rightarrow> UnexportNfsVolumeRequest \<Rightarrow> 'w nfs_state \<Rightarrow>
   (UnexportNfsVolumeResponse option \<times> err) outcome \<Rightarrow> 'w nfs_state \<Rightarrow> bool" where
  "unexport_result E req s r t \<longleftrightarrow> (
     let resp = \<lparr>unexpr_VolumeId = unexp_VolumeId req, unexpr_UnexportNfsContext = GoMap []\<rparr>;
         path = unexport_path (NfsExportDirectory E) (unexp_VolumeId req)
           (gm_get (unexp_UnexportNfsContext req) ''ServiceName'')
     in case r of
       Done (answer, e) \<Rightarrow>
         (answer = Some resp \<or> answer = None \<and> e = Some ''UnmountVolume timed out after several retries'') \<and>
         (e = None \<or> answer = None \<longrightarrow>
            exports_file t = Some (unlines (filter (\<lambda>l. \<not> HasPrefix l path) (export_entries s))) \<and>
            generation t = generation s + 1 \<and> generation t \<le>s syncedGeneration t)
     | _ \<Rightarrow> False)"

lemma unexport_result_work:
  assumes "work s' = work s" and "work t' = work t" and "unexport_result E req s' r t'"
  shows "unexport_result E req s r t"
  using assms(3)
  by (simp only: unexport_result_def work_get[OF assms(1)] work_fields[OF assms(1)] work_fields[OF assms(2)])

lemmas wp_unexport_loop = wp_mono[OF unexport_loop_effect]

lemma unexport_volume_effect:
  "wp (do { r \<leftarrow> unexport_volume E req; State_Monad.return (Done r) }) (unexport_result E req s) s"
  unfolding unexport_volume_def
  by (intro wp wp_unexport_loop)
     (auto simp: unexport_result_def table_state_def table_view_def split: if_splits)

subsection \<open>Pinging\<close>

text \<open>An answer without an error says that the node is ready.\<close>

definition ping_ok :: "(PingResponse \<times> err) outcome \<Rightarrow> bool" where
  "ping_ok r \<longleftrightarrow> (case r of
     Done (resp, e) \<Rightarrow> (e = None \<longrightarrow> pingr_Ready resp) \<and> pingr_Status resp = []
   | Panicked m \<Rightarrow> m = nil_deref_panic
   | Running \<Rightarrow> False)"

lemma wp_ping_readd [wp]: "(\<And>t. Q () t) \<Longrightarrow> wp (ping_readd E parts) Q s"
  by (simp add: wp_def)

lemma ping_export_effect:
  "wp (ping_export E export ready removed) (\<lambda>r t. case r of
     Done (NextExport ready' removed') \<Rightarrow> ready' \<longrightarrow> ready
   | Done (ReturnPing e) \<Rightarrow> e \<noteq> None
   | Panicked m \<Rightarrow> m = nil_deref_panic
   | Running \<Rightarrow> False) s"
  unfolding ping_export_def by (intro wp) auto

lemmas wp_ping_export [wp] = wp_mono[OF ping_export_effect]

lemma wp_case_round [wp]:
  "(\<And>b n. x = NextExport b n \<Longrightarrow> wp (f b n) Q s) \<Longrightarrow> (\<And>e. x = ReturnPing e \<Longrightarrow> wp (g e) Q s) \<Longrightarrow>
   wp (case x of NextExport b n \<Rightarrow> f b n | ReturnPing e \<Rightarrow> g e) Q s"
  by (cases x) auto

lemma ping_loop_effect: "wp (ping_loop E exports ready removed) (\<lambda>r _. ping_ok r) s"
proof (induction exports arbitrary: ready removed s)
  case Nil
  then show ?case by (auto simp: ping_ok_def intro!: wp)
next
  case (Cons export exports)
  then show ?case unfolding ping_loop.simps by (intro wp) (auto simp: ping_ok_def)
qed

lemmas wp_ping_loop [wp] = wp_mono[OF ping_loop_effect]

lemma wp_GetExports [wp]:
  assumes "\<And>ls e t. process t = process s \<Longrightarrow> Q (ls, e) t"
  shows "wp (GetExports E d) Q s"
proof -
  have "keeps process (GetExports E d)"
    unfolding GetExports_def open_exports_def scan_exports_def by (intro frame)
  then show ?thesis using assms by (auto simp: keeps_def wp_def) (metis prod.collapse)
qed

subsection \<open>Unmounting\<close>

interpretation unmount: bounded_retry
  "\<lambda>_. run_state (ext (vcsi_UnmountVolume (vcsi E) v (NfsExportDirectory E) (GoMap [(''ServiceName'', sn)])))"
  "\<lambda>e. if e = None then Some None else None" "\<lambda>r _. r" "\<lambda>_ s. snd (run_state (sleep E timeout) s)"
  "\<lambda>n r. run_state (unmount_loop E v sn n r)"
  for E :: "'w env" and v sn :: string
  by unfold_locales (auto split: prod.splits)

lemma UnmountVolume_error:
  "run_state (UnmountVolume E v sn) s = (e, t) \<Longrightarrow> e = None \<or> e = Some (''could not unmount volume '' @ v)"
  using unmount.loop_result[OF refl, where r = "Some (''could not unmount volume '' @ v)" and E = E and v = v
    and sn = sn and n = maxUnmountAttempts and s = s]
  by (auto simp: UnmountVolume_def split: if_splits)

text \<open>A driver that cannot unmount the volume, whatever the reason it gives.\<close>

definition never_unmounts :: "'w env \<Rightarrow> string \<Rightarrow> bool" where
  "never_unmounts E v \<longleftrightarrow> (\<forall>d m w. fst (vcsi_UnmountVolume (vcsi E) v d m w) \<noteq> None)"

lemma UnmountVolume_never:
  assumes "never_unmounts E v" and "run_state (UnmountVolume E v sn) s = (e, t)"
  shows "e = Some (''could not unmount volume '' @ v)"
proof -
  have "run_state (unmount_loop E v sn n r) s = (r, unmount.before_attempt E v sn n n s)" for n r
    by (rule unmount.loop_gives_up) (use assms(1) in \<open>simp_all only: unmount.answer_def\<close>, simp add: never_unmounts_def)
  with assms(2) show ?thesis by (simp add: UnmountVolume_def)
qed

text \<open>The wrapped error shows the reason only when the volume id itself contains it.\<close>

lemma wrapped_error_hides:
  "Contains (''could not unmount volume '' @ v) ''not mounted'' = Contains v ''not mounted''"
  "Contains (''could not unmount volume '' @ v) ''no such file or directory'' =
   Contains v ''no such file or directory''"
  by (simp_all add: HasPrefix_def)

lemma unexport_loop_never:
  assumes "never_unmounts E v" and "\<not> Contains v ''not mounted''"
    and "\<not> Contains v ''no such file or directory''"
  shows "g \<le>s syncedGeneration s \<Longrightarrow> wp (unexport_loop E v sn g resp i n)
    (\<lambda>r _. r = (None, Some ''UnmountVolume timed out after several retries'')) s"
proof (induction n arbitrary: i s)
  case 0
  then show ?case by (simp add: wp_return)
next
  case (Suc n)
  have unmount: "wp (UnmountVolume E v sn) Q u"
    if "\<And>t. syncedGeneration t = syncedGeneration u \<Longrightarrow> Q (Some (''could not unmount volume '' @ v)) t" for Q u
  proof (rule wp_run)
    fix e t
    assume run: "run_state (UnmountVolume E v sn) u = (e, t)"
    have "syncedGeneration t = syncedGeneration u"
      by (rule process_fields(5)[OF keepsD[OF keeps_process_unmount run]])
    then show "Q e t" unfolding UnmountVolume_never[OF assms(1) run] by (rule that)
  qed
  have resync: "wp (ResyncNFSMountd E g) Q u"
    if "g \<le>s syncedGeneration u" and "\<And>v. syncedGeneration v = syncedGeneration u \<Longrightarrow> Q None v" for Q u
    using that by (simp add: wp_def ResyncNFSMountd_saved)
  show ?case unfolding unexport_loop.simps
    by (intro wp_bind wp_sleep unmount wp_case_option wp_if wp_return resync)
       (use Suc assms(2,3) in \<open>auto simp: HasPrefix_def\<close>)
qed

text \<open>What every entry of the table has to do with a directory: the ids of the loop over volumes.\<close>

definition picked :: "bool \<Rightarrow> string list \<Rightarrow> bool list \<Rightarrow> string list" where
  "picked b vids bs = map fst (filter (\<lambda>(v, x). x = b) (zip vids bs))"

lemma picked_simps [simp]:
  "picked b [] bs = []" "picked b (v # vids) (x # bs) = (if x = b then v # picked b vids bs else picked b vids bs)"
  by (auto simp: picked_def)

text \<open>What a loop over volumes reports, given what it had to report before.\<close>

definition multi_result ::
  "string list \<Rightarrow> string list \<Rightarrow> string list \<Rightarrow> err \<Rightarrow> string list \<Rightarrow> string list \<Rightarrow> err \<Rightarrow> bool" where
  "multi_result vids ok bad le ok' bad' e \<longleftrightarrow> (\<exists>bs. length bs = length vids \<and>
     ok' = ok @ picked True vids bs \<and> bad' = bad @ picked False vids bs \<and>
     (e = None \<longleftrightarrow> le = None \<and> picked False vids bs = []))"

lemma multi_result_Nil [simp]: "multi_result [] ok bad le ok' bad' e \<longleftrightarrow> ok' = ok \<and> bad' = bad \<and> (e = None \<longleftrightarrow> le = None)"
  by (auto simp: multi_result_def)

lemma multi_result_bad:
  "multi_result vids ok (bad @ [v]) (Some m) ok' bad' e \<Longrightarrow> multi_result (v # vids) ok bad le ok' bad' e"
  unfolding multi_result_def by (elim exE, rule_tac x = "False # bs" in exI) simp

lemma multi_result_ok:
  "multi_result vids (ok @ [v]) bad le ok' bad' e \<Longrightarrow> multi_result (v # vids) ok bad le ok' bad' e"
  unfolding multi_result_def by (elim exE, rule_tac x = "True # bs" in exI) simp

lemma export_multiple_loop_effect:
  "run_state (export_multiple_loop E fuel vids ctx ok bad le) s = (Done (resp, e), t) \<Longrightarrow>
   multi_result vids ok bad le (expmr_SuccessfulIds resp) (expmr_UnsuccessfulIds resp) e"
proof (induction vids arbitrary: ctx ok bad le s)
  case (Cons v vids)
  obtain r u where r: "run_state (ExportNfsVolume E fuel \<lparr>exp_VolumeId = v, exp_ExportNfsContext = ctx\<rparr>) s = (r, u)"
    by fastforce
  with Cons.prems obtain a e1 c where "r = Done (a, e1, c)" by (cases r) auto
  with Cons.prems r Cons.IH[of c ok "bad @ [v]" e1 u] Cons.IH[of c "ok @ [v]" bad le u] show ?case
    by (cases e1) (auto intro: multi_result_bad multi_result_ok)
qed auto

lemma unexport_multiple_loop_effect:
  "run_state (unexport_multiple_loop E fuel vids ctx ok bad le) s = (Done (resp, e), t) \<Longrightarrow>
   multi_result vids ok bad le (unexpmr_SuccessfulIds resp) (unexpmr_UnsuccessfulIds resp) e"
proof (induction vids arbitrary: ok bad le s)
  case (Cons v vids)
  obtain r u where r: "run_state (UnexportNfsVolume E fuel \<lparr>unexp_VolumeId = v, unexp_UnexportNfsContext = ctx\<rparr>) s = (r, u)"
    by fastforce
  with Cons.prems obtain a e1 where "r = Done (a, e1)" by (cases r) auto
  with Cons.prems r Cons.IH[of ok "bad @ [v]" e1 u] Cons.IH[of "ok @ [v]" bad le u] show ?case
    by (cases e1) (auto intro: multi_result_bad multi_result_ok)
qed auto

lemma export_handler_outcome:
  assumes "run_state (ExportNfsVolume E fuel req) s = (r, t)" and "fuel \<noteq> 0"
  shows "if nfsPVLock s (exp_VolumeId req) = None
    then nfsPVLock t = nfsPVLock s \<and> export_result E req s r t
    else r = Running \<and> nfsPVLock t = nfsPVLock s"
  using assms(1)[unfolded ExportNfsVolume_def] assms(2)
  by (rule nfs_handler[OF _ _ keeps_locks_export export_never_waits export_volume_effect
        iffD1[OF export_result_work]])

lemma unexport_handler_outcome:
  assumes "run_state (UnexportNfsVolume E fuel req) s = (r, t)" and "fuel \<noteq> 0"
  shows "if nfsPVLock s (unexp_VolumeId req) = None
    then nfsPVLock t = nfsPVLock s \<and> unexport_result E req s r t
    else r = Running \<and> nfsPVLock t = nfsPVLock s"
proof (rule nfs_handler[OF assms(1)[unfolded UnexportNfsVolume_def] assms(2)])
  show "keeps locks (do { r \<leftarrow> unexport_volume E req; State_Monad.return (Done r) })" by (intro frame)
  show "fst (run_state (do { r \<leftarrow> unexport_volume E req; State_Monad.return (Done r) }) u) \<noteq> Running" for u
    by (simp split: prod.split)
qed (fact unexport_volume_effect, fact unexport_result_work)

subsection \<open>Success and idempotence\<close>

definition sample_unexport :: UnexportNfsVolumeRequest where
  "sample_unexport = \<lparr>unexp_VolumeId = ''nfs-v1'', unexp_UnexportNfsContext = GoMap [(''ServiceName'', ''nfs-v1'')]\<rparr>"

definition sample_export :: ExportNfsVolumeRequest where
  "sample_export = \<lparr>exp_VolumeId = ''nfs-v1'', exp_ExportNfsContext = GoMap [(''ServiceName'', ''nfs-v1'')]\<rparr>"

text \<open>
  The contract of the host driver's \<open>MountVolume\<close> that the idempotency check and
  \<open>UnexportNfsVolume\<close> build on: it mounts a volume in the export directory, under the service
  name of the request's context. The callers of \<open>ExportNfsVolume\<close> put the service name of the
  volume there.
\<close>

definition mounts_at_service_name :: "'w env \<Rightarrow> bool" where
  "mounts_at_service_name E \<longleftrightarrow> (\<forall>vid c w p.
     fst (vcsi_MountVolume (vcsi E) vid [] (NfsExportDirectory E) c w) = (p, None) \<longrightarrow>
     p = NfsExportDirectory E @ ''/'' @ gm_get c ''ServiceName'')"

definition names_service :: "'w env \<Rightarrow> ExportNfsVolumeRequest \<Rightarrow> bool" where
  "names_service E req \<longleftrightarrow> gm_get (exp_ExportNfsContext req) ''ServiceName'' =
     VolumeIDToServiceName (unicode_ToLower (runtime E)) (exp_VolumeId req)"

lemma export_entries_append:
  assumes "exports_inv E s" and "clean_entry l"
    and "exports_file t = map_option (\<lambda>c. c @ l @ [newline]) (exports_file s)"
  shows "exports_inv E t \<and> export_entries t = export_entries s @ [l]"
proof -
  obtain c where io: "io_ok E" and c: "exports_file s = Some c" "wf_exports c"
    using assms(1) by (auto simp: exports_inv_def)
  with exports_append_entry[OF c(2) assms(2)] assms(3) show ?thesis
    by (simp add: exports_inv_def export_entries_def)
qed

lemma export_success:
  assumes "export_result E req s (Done (a, None, ctx)) t" and "exports_inv E s"
    and "mounts_at_service_name E" and "names_service E req" and "clean_entry (export_entry s (staging_path E (exp_VolumeId req)))"
  shows "exports_inv E t \<and> has_export t (staging_path E (exp_VolumeId req) @ ''/'') \<and>
    (export_entries t = export_entries s \<or>
     export_entries t = export_entries s @ [export_entry s (staging_path E (exp_VolumeId req))])"
proof -
  let ?d = "staging_path E (exp_VolumeId req)"
  from assms(1) consider (again) "work t = work s" "has_export s (?d @ ''/'')"
    | (mounted) path w where "fst (vcsi_MountVolume (vcsi E) (exp_VolumeId req) [] (NfsExportDirectory E)
          (exp_ExportNfsContext req) w) = (path, None)" "exported s path None t"
    using assms(2) by (auto simp: export_result_def)
  then show ?thesis
  proof cases
    case again
    with assms(2) show ?thesis
      by (simp only: work_get[OF again(1)] work_inv[OF again(1)]) simp
  next
    case mounted
    from mounted(1) assms(3,4) have "path = ?d" unfolding mounts_at_service_name_def names_service_def by metis
    with mounted(2) have "exports_file t = map_option (\<lambda>c. c @ export_entry s ?d @ [newline]) (exports_file s)"
      by (auto simp: exported_def)
    note app = export_entries_append[OF assms(2,5) this]
    moreover have "HasPrefix (export_entry s ?d) (?d @ ''/'')"
      unfolding export_entry_def by (rule HasPrefix_append)
    with app have "has_export t (?d @ ''/'')" by (simp add: has_export_def)
    ultimately show ?thesis by blast
  qed
qed

lemma sample_staging: "staging_path sample_env ''nfs-v1'' = ''/e/nfs-v1''"
proof -
  have "valid_id ''nfs-v1''"
    by (simp flip: matches_iff_valid_id) (simp add: matches_validIDRegex_def terminal_char_def separator_char_def)
  from service_name_valid_id[OF this] show ?thesis by (simp add: sample_defs)
qed

lemma clean_export_entry_sample: "clean_entry (export_entry (sample_state []) (staging_path sample_env ''nfs-v1''))"
proof -
  have e: "export_entry (sample_state []) ''/e/nfs-v1'' = ''/e/nfs-v1/ '' @ export_options ''10.0.0.0/8''"
    by (simp add: export_entry_def sample_defs)
  have "TrimSpace (export_entry (sample_state []) ''/e/nfs-v1'') = export_entry (sample_state []) ''/e/nfs-v1''"
    unfolding e by (rule TrimSpace_eval; simp add: space_seqs_def HasPrefix_def export_options_def)
  then show ?thesis unfolding sample_staging clean_entry_def e
    by (simp add: export_options_def MaxScanTokenSize_def)
qed

lemma sample_mounts: "mounts_at_service_name sample_env" "names_service sample_env sample_export"
  using sample_staging
  by (simp_all add: mounts_at_service_name_def names_service_def sample_defs sample_export_def
      gm_get_def gm_lookup_def)

subsection \<open>A node on which everything works\<close>

definition node_works :: "'w env \<Rightarrow> bool" where
  "node_works E \<longleftrightarrow>
     (\<forall>p u g w. fst (os_Chown (opSys E) p u g w) = None) \<and>
     (\<forall>p m w. fst (os_Chmod (opSys E) p m w) = None) \<and>
     (\<forall>c a w. snd (fst (ExecuteCommand (exec E) c a w)) = None) \<and>
     (\<forall>w. \<not> fst (select_done (runtime E) w)) \<and>
     (\<forall>vid c w. fst (vcsi_MountVolume (vcsi E) vid [] (NfsExportDirectory E) c w) =
        (NfsExportDirectory E @ ''/'' @ gm_get c ''ServiceName'', None))"

lemma wp_AddExport_ok:
  assumes "exports_inv E s" and "\<not> has_export s d" and "clean_entry (d @ '' '' @ opts)"
    and "\<And>t. Q (generation t, None) t"
  shows "wp (AddExport E d opts) Q s"
  using AddExport_ok[OF assms(1-3)] assms(4) by (auto simp: wp_def) (metis assms(4))

lemma wp_Resync_ok:
  assumes "node_works E" and "\<And>t. Q None t"
  shows "wp (ResyncNFSMountd E g) Q s"
  using assms
  by (auto simp: wp_def ResyncNFSMountd_def numeral_2_eq_2 node_works_def split: prod.split)
     (metis fst_conv snd_conv option.distinct(1))+

lemma wp_ext_ok: "(\<And>w. fst (f w) = a) \<Longrightarrow> (\<And>w. Q a (s\<lparr>world := w\<rparr>)) \<Longrightarrow> wp (ext f) Q s"
  by (simp add: wp_def)

lemma wp_command_ok:
  "(\<And>w. snd (fst (f w)) = None) \<Longrightarrow> (\<And>out w. Q (out, None) (s\<lparr>world := w\<rparr>)) \<Longrightarrow> wp (ext f) Q s"
  by (simp add: wp_def) (metis prod.collapse)

lemma node_worksD:
  assumes "node_works E"
  shows "fst (os_Chown (opSys E) p u g w) = None" "fst (os_Chmod (opSys E) p m w) = None"
    "snd (fst (ExecuteCommand (exec E) c a w)) = None" "fst (select_done (runtime E) w) = False"
    "fst (vcsi_MountVolume (vcsi E) vid [] (NfsExportDirectory E) cx w) =
       (NfsExportDirectory E @ ''/'' @ gm_get cx ''ServiceName'', None)"
  using assms by (simp_all add: node_works_def)

lemmas wp_works =
  wp_ext_ok[OF node_worksD(1)] wp_ext_ok[OF node_worksD(2)] wp_command_ok[OF node_worksD(3)]
  wp_ext_ok[OF node_worksD(4)] wp_ext_ok[OF node_worksD(5)]

lemma finish_export_works:
  assumes "exports_inv E s" and "\<not> has_export s (path @ ''/'')" and "clean_entry (export_entry s path)"
    and "node_works E"
  shows "wp (finish_export E resp path ctx) (\<lambda>r t. r = (Some resp, None, ctx)) s"
  unfolding finish_export_def
  by (intro wp_bind wp_works[OF assms(4)] wp_return wp_get wp_set_generation wp_case_option wp_case_prod
        wp_Resync_ok[OF assms(4)] wp_AddExport_ok)
     (use assms(1-3) in \<open>auto simp: export_entry_def\<close>)

lemma export_volume_works:
  fixes E :: "'w env"
  assumes "exports_inv E s" and "\<not> has_export s (staging_path E (exp_VolumeId req) @ ''/'')"
    and "clean_entry (export_entry s (staging_path E (exp_VolumeId req)))"
    and "node_works E" and "names_service E req" and "exp_ExportNfsContext req \<noteq> NilMap"
  shows "wp (export_volume E req) (\<lambda>r t. \<exists>ctx. r = Done (Some \<lparr>expr_VolumeId = exp_VolumeId req,
    expr_ExportNfsContext = NilMap\<rparr>, None, ctx)) s"
proof -
  obtain ctx where put: "gm_put (exp_ExportNfsContext req) ''MountPath'' (staging_path E (exp_VolumeId req)) = Some ctx"
    using assms(6) that by (cases "exp_ExportNfsContext req") auto
  have check: "wp (CheckExport E (staging_path E (exp_VolumeId req) @ ''/'')) Q u"
    if "work u = work s" and "\<And>e t. work t = work s \<Longrightarrow> Q (False, e) t" for Q u
  proof (rule wp_CheckExport)
    fix b e and t :: "'w nfs_state"
    assume "process t = process u" and "exports_inv E u \<longrightarrow> b = has_export u (staging_path E (exp_VolumeId req) @ ''/'')"
    then show "Q (b, e) t"
      using that(2)[of t e] process_work[of t u] assms(1,2)
      by (simp only: that(1) work_get[OF that(1)] work_inv[OF that(1)])
  qed
  have mount: "fst (vcsi_MountVolume (vcsi E) (exp_VolumeId req) [] (NfsExportDirectory E) (exp_ExportNfsContext req) w) =
      (staging_path E (exp_VolumeId req), None)" for w
    using node_worksD(5)[OF assms(4)] assms(5) by (simp add: names_service_def)
  have finish: "wp (finish_export E resp path ctx) (\<lambda>r t. r = (Some resp, None, ctx)) u"
    if "path = staging_path E (exp_VolumeId req)" and "work u = work s" for resp path ctx u
    unfolding that(1)
    using assms(1-4) by (intro finish_export_works)
       (simp_all only: export_entry_def work_get[OF that(2)] work_inv[OF that(2)] work_fields[OF that(2)] not_False_eq_True)
  show ?thesis
    unfolding export_volume_def Let_def
    by (intro wp_bind wp_ext[where f = "os_Stat (opSys E) p" for p] check wp_ext_ok[OF node_worksD(4)[OF assms(4)]]
          wp_ext_ok[OF mount] wp_if wp_get wp_return wp_case_prod wp_case_option wp_mono[OF finish])
       (use put in auto)
qed

lemma export_runs:
  assumes "exports_inv E s" and "\<not> has_export s (staging_path E (exp_VolumeId req) @ ''/'')"
    and "clean_entry (export_entry s (staging_path E (exp_VolumeId req)))"
    and "node_works E" and "names_service E req" and "exp_ExportNfsContext req \<noteq> NilMap"
    and "nfsPVLock s (exp_VolumeId req) = None" and "fuel \<noteq> 0"
  shows "\<exists>ctx t. run_state (ExportNfsVolume E fuel req) s =
    (Done (Some \<lparr>expr_VolumeId = exp_VolumeId req, expr_ExportNfsContext = NilMap\<rparr>, None, ctx), t)"
proof -
  let ?ok = "\<lambda>y r (v :: 'a nfs_state). work y = work s \<longrightarrow> (\<exists>ctx. r = Done (Some \<lparr>expr_VolumeId = exp_VolumeId req,
    expr_ExportNfsContext = NilMap\<rparr>, None, ctx))"
  have body: "wp (export_volume E req) (?ok y) y" for y
  proof (cases "work y = work s")
    case True
    have "wp (export_volume E req) (\<lambda>r t. \<exists>ctx. r = Done (Some \<lparr>expr_VolumeId = exp_VolumeId req,
        expr_ExportNfsContext = NilMap\<rparr>, None, ctx)) y"
      by (rule export_volume_works)
         (use assms in \<open>simp_all only: export_entry_def work_get[OF True] work_inv[OF True] work_fields[OF True] not_False_eq_True\<close>)
    then show ?thesis by (rule wp_mono) simp
  qed (simp add: wp_def)
  obtain r t where run: "run_state (ExportNfsVolume E fuel req) s = (r, t)" by fastforce
  have "if nfsPVLock s (exp_VolumeId req) = None then nfsPVLock t = nfsPVLock s \<and> ?ok s r t
    else r = Running \<and> nfsPVLock t = nfsPVLock s"
    by (rule nfs_handler[OF run[unfolded ExportNfsVolume_def] assms(8) keeps_locks_export
          export_never_waits body]) simp
  with assms(7) run show ?thesis by auto
qed

lemma node_works_sample: "node_works sample_env"
  by (simp add: node_works_def sample_defs)

lemma sample_export_runs:
  "\<exists>ctx t. run_state (ExportNfsVolume sample_env 1 sample_export) (sample_state []) =
    (Done (Some \<lparr>expr_VolumeId = ''nfs-v1'', expr_ExportNfsContext = NilMap\<rparr>, None, ctx), t)"
proof -
  have "\<not> has_export (sample_state []) d" for d by (simp add: has_export_def entries_sample_empty)
  with export_runs[OF exports_inv_sample_empty, of sample_export 1] node_works_sample sample_mounts
    clean_export_entry_sample show ?thesis
    by (simp add: sample_export_def sample_state_def)
qed

text \<open>A host driver that unmounts every volume.\<close>

definition unmounts :: "'w env \<Rightarrow> bool" where
  "unmounts E \<longleftrightarrow> (\<forall>vid d c w. fst (vcsi_UnmountVolume (vcsi E) vid d c w) = None)"

lemma unmounts_sample: "unmounts sample_env"
  by (simp add: unmounts_def sample_defs)

lemma wp_unmount_ok:
  assumes "unmounts E" and "\<And>t. Q None t"
  shows "wp (UnmountVolume E v sn) Q s"
proof -
  have n: "maxUnmountAttempts = Suc 9" by (simp add: maxUnmountAttempts_def)
  show ?thesis unfolding UnmountVolume_def n unmount_loop.simps
    by (intro wp_bind wp_ext_ok[where a = None] wp_if wp_return) (use assms in \<open>auto simp: unmounts_def\<close>)
qed

lemma unexport_body_works:
  fixes E :: "'w env"
  assumes "exports_inv E s" and "node_works E" and "unmounts E"
  shows "wp (do { r \<leftarrow> unexport_volume E req; State_Monad.return (Done r) })
    (\<lambda>r t. r = Done (Some \<lparr>unexpr_VolumeId = unexp_VolumeId req, unexpr_UnexportNfsContext = GoMap []\<rparr>, None)) s"
proof -
  have del: "wp (DeleteExport E d) Q s" if "\<And>g t. Q (g, None) t" for d and Q :: "_ \<Rightarrow> 'w nfs_state \<Rightarrow> bool"
    using DeleteExport_ok[OF assms(1), of d] that by (auto simp: wp_def)
  have loop: "unexport_loop E v sn g resp 1 3 = do {
      _ \<leftarrow> sleep E (1 * Second);
      e \<leftarrow> UnmountVolume E v sn;
      case e of
        None \<Rightarrow> State_Monad.return (Some resp, None)
      | Some m \<Rightarrow>
         if Contains m ''not mounted'' \<or> Contains m ''no such file or directory''
         then State_Monad.return (Some resp, None)
         else do {
           e \<leftarrow> ResyncNFSMountd E g;
           case e of
             Some m \<Rightarrow> State_Monad.return (Some resp, Some m)
           | None \<Rightarrow> unexport_loop E v sn g resp (Suc 1) 2 } }" for v sn g resp
    by (simp only: numeral_3_eq_3 numeral_2_eq_2 unexport_loop.simps)
  show ?thesis
    unfolding unexport_volume_def Let_def loop
    by (intro wp_bind del wp_Resync_ok[OF assms(2)] wp_unmount_ok[OF assms(3)] wp_sleep wp_return
        wp_case_prod wp_case_option) auto
qed

lemma unexport_runs:
  assumes "exports_inv E s" and "node_works E" and "unmounts E" and "nfsPVLock s (unexp_VolumeId req) = None"
    and "fuel \<noteq> 0"
  shows "\<exists>t. run_state (UnexportNfsVolume E fuel req) s =
    (Done (Some \<lparr>unexpr_VolumeId = unexp_VolumeId req, unexpr_UnexportNfsContext = GoMap []\<rparr>, None), t)"
proof -
  let ?ok = "\<lambda>y r (v :: 'a nfs_state). work y = work s \<longrightarrow>
    r = Done (Some \<lparr>unexpr_VolumeId = unexp_VolumeId req, unexpr_UnexportNfsContext = GoMap []\<rparr>, None)"
  let ?body = "do { r \<leftarrow> unexport_volume E req; State_Monad.return (Done r) }"
  have body: "wp ?body (?ok y) y" for y
  proof (cases "work y = work s")
    case True
    have "exports_inv E y" by (simp only: work_inv[OF True] assms(1))
    from unexport_body_works[OF this assms(2,3)] show ?thesis by (rule wp_mono) simp
  qed (simp add: wp_def)
  obtain r t where run: "run_state (UnexportNfsVolume E fuel req) s = (r, t)" by fastforce
  have "if nfsPVLock s (unexp_VolumeId req) = None then nfsPVLock t = nfsPVLock s \<and> ?ok s r t
    else r = Running \<and> nfsPVLock t = nfsPVLock s"
  proof (rule nfs_handler[OF run[unfolded UnexportNfsVolume_def] assms(5) _ _ body])
    show "keeps locks ?body" by (intro frame)
    show "fst (run_state ?body u) \<noteq> Running" for u by (simp split: prod.split)
  qed simp
  with assms(4) run show ?thesis by auto
qed

section \<open>Properties\<close>

text \<open>
  C5: what \<open>ExportNfsVolume\<close> does, on every branch. On a volume that another request has locked
  it waits. Otherwise it returns, gives its lock back, and either leaves the table alone (the
  volume was exported already, the request is over, or the mount failed) or mounts the volume,
  notes the mount path in the request's context and appends the entry; an answer without an error
  means that the entry is complete and new, and that the kernel's table was resynchronised. It
  panics only on a request without a context.
\<close>

theorem export_nfs_volume_outcome:
  assumes "run_state (ExportNfsVolume E fuel req) s = (r, t)" and "fuel \<noteq> 0"
  shows "if nfsPVLock s (exp_VolumeId req) = None
    then nfsPVLock t = nfsPVLock s \<and> export_result E req s r t
    else r = Running \<and> nfsPVLock t = nfsPVLock s"
  using assms by (rule export_handler_outcome)

theorem export_nfs_volume_outcome_witness:
  "\<exists>r t. run_state (ExportNfsVolume sample_env 1 sample_export) (sample_state []) = (r, t) \<and>
     export_result sample_env sample_export (sample_state []) r t"
proof -
  obtain r t where "run_state (ExportNfsVolume sample_env 1 sample_export) (sample_state []) = (r, t)"
    by fastforce
  from export_nfs_volume_outcome[OF this] this show ?thesis by (auto simp: sample_state_def)
qed



text \<open>
  A node never answers a ping without an error while it reports that it is not ready; the
  pinger of the controller reads the text of that error.
\<close>

theorem ping_ready_without_error:
  assumes "run_state (Ping E req) s = (Done (resp, None), t)"
  shows "pingr_Ready resp"
proof -
  have "wp (Ping E req) (\<lambda>r _. ping_ok r) s"
    unfolding Ping_def by (intro wp) (auto simp: ping_ok_def)
  from wpD[OF this assms] show ?thesis by (simp add: ping_ok_def)
qed

theorem ping_ready_without_error_witness:
  "\<exists>resp t. run_state (Ping sample_env \<lparr>ping_NodeIpAddress = [], ping_DumpAllExports = False\<rparr>) (sample_state []) =
     (Done (resp, None), t) \<and> pingr_Ready resp"
proof -
  have "run_state (Ping sample_env \<lparr>ping_NodeIpAddress = [], ping_DumpAllExports = False\<rparr>) (sample_state []) =
    (Done (\<lparr>pingr_Ready = True, pingr_Status = []\<rparr>, None), sample_state [])" by (simp add: Ping_def)
  from ping_ready_without_error[OF this] this show ?thesis by blast
qed

text \<open>A request for a volume whose entry is in the file is answered without any work.\<close>

lemma export_again:
  assumes "exports_inv E t" and "has_export t (staging_path E (exp_VolumeId req) @ ''/'')"
    and "nfsPVLock t (exp_VolumeId req) = None" and "fuel \<noteq> 0" and "\<And>p w. fst (os_Stat (opSys E) p w) = None"
    and run: "run_state (ExportNfsVolume E fuel req) t = (r, u)"
  shows "r = Done (Some \<lparr>expr_VolumeId = exp_VolumeId req,
      expr_ExportNfsContext = GoMap [(''idenpotent'', ''true'')]\<rparr>, None, exp_ExportNfsContext req) \<and>
    work u = work t \<and> nfsPVLock u = nfsPVLock t"
proof -
  let ?vid = "exp_VolumeId req"
  let ?Q = "\<lambda>y r v. work y = work t \<longrightarrow> r = Done (Some \<lparr>expr_VolumeId = ?vid,
    expr_ExportNfsContext = GoMap [(''idenpotent'', ''true'')]\<rparr>, None, exp_ExportNfsContext req) \<and>
    work v = work t"
  have again: "wp (export_volume E req) (?Q y) y" for y
  proof (cases "work y = work t")
    case True
    then have "exports_inv E y" "has_export y (staging_path E ?vid @ ''/'')"
      using assms(1,2) by (simp_all only: work_get[OF True] work_inv[OF True])
    then show ?thesis
      unfolding export_volume_def
      by (intro wp) (use assms(5) in \<open>auto dest: process_work simp: prod_eq_iff\<close>)
  qed (simp add: wp_def)
  have "if nfsPVLock t ?vid = None then nfsPVLock u = nfsPVLock t \<and> ?Q t r u
    else r = Running \<and> nfsPVLock u = nfsPVLock t"
    by (rule nfs_handler[OF run[unfolded ExportNfsVolume_def] assms(4) keeps_locks_export
          export_never_waits again]) simp
  with assms(3) show ?thesis by simp
qed

text \<open>With working files a call leaves a well-formed table, whatever else fails.\<close>

lemma keeps_service_ext [simp]: "keeps nfsService (ext f)"
  by (simp add: keeps_def)

lemma keeps_service_add: "keeps nfsService (AddExport E d opts)"
  unfolding AddExport_def checkExport_def open_exports_def scan_exports_def write_exports_def
    fail_generation_def bump_generation_def Let_def
  by (intro frame keeps_service_ext) simp_all

lemma keeps_service_resync: "keeps nfsService (ResyncNFSMountd E g)"
proof -
  have "keeps nfsService (resync_loop E g n r)" for n r
    by (induction n arbitrary: r) (auto intro!: frame simp: sleep_def simp del: run_state_bind)
  then show ?thesis unfolding ResyncNFSMountd_def by (intro frame) simp_all
qed

lemma wp_AddExport_inv:
  assumes "exports_inv E s" and "clean_entry (d @ '' '' @ opts)"
    and "\<And>g e t. exports_inv E t \<Longrightarrow> nfsService t = nfsService s \<Longrightarrow> Q (g, e) t"
  shows "wp (AddExport E d opts) Q s"
proof (rule wp_run)
  fix a t assume run: "run_state (AddExport E d opts) s = (a, t)"
  have "nfsService t = nfsService s" using keeps_service_add[of E d opts] run by (auto simp: keeps_def) (metis snd_conv)
  moreover have "exports_inv E t"
    using AddExport_ok[OF assms(1) _ assms(2)] AddExport_duplicate[OF assms(1), of d opts] assms(1) run
    by (cases "has_export s d") auto
  ultimately show "Q a t" using assms(3) by (cases a) auto
qed

lemma wp_Resync_inv:
  assumes "exports_inv E s" and "\<And>e t. exports_inv E t \<Longrightarrow> nfsService t = nfsService s \<Longrightarrow> Q e t"
  shows "wp (ResyncNFSMountd E g) Q s"
proof (rule wp_run)
  fix e t assume run: "run_state (ResyncNFSMountd E g) s = (e, t)"
  have "nfsService t = nfsService s" using keeps_service_resync[of E g] run by (auto simp: keeps_def) (metis snd_conv)
  moreover have "exports_inv E t"
    using ResyncNFSMountd_effect[OF run] assms(1) by (simp add: exports_inv_def table_state_def)
  ultimately show "Q e t" by (rule assms(2)[rotated])
qed

lemma finish_export_inv:
  assumes "exports_inv E s" and "clean_entry (export_entry s path)"
  shows "wp (finish_export E resp path ctx) (\<lambda>_ t. exports_inv E t \<and> nfsService t = nfsService s) s"
  unfolding finish_export_def
  by (intro wp_bind wp_ext wp_if wp_return wp_get wp_let wp_case_option wp_case_prod wp_set_generation
        wp_AddExport_inv wp_Resync_inv)
     (use assms in \<open>auto simp: export_entry_def exports_inv_def\<close>)

lemma process_inv: "process t = process y \<Longrightarrow> exports_inv E t = exports_inv E y"
  by (drule process_fields(3)) (simp add: exports_inv_def)

lemma export_handler_inv:
  assumes run: "run_state (ExportNfsVolume E fuel req) s = (r, t)" and "exports_inv E s"
    and "mounts_at_service_name E" and "names_service E req"
    and "clean_entry (export_entry s (staging_path E (exp_VolumeId req)))"
  shows "exports_inv E t \<and> nfsService t = nfsService s"
proof -
  let ?Q = "\<lambda>v :: 'a nfs_state. exports_inv E v \<and> nfsService v = nfsService s"
  have mounted: "path = staging_path E (exp_VolumeId req)"
    if "vcsi_MountVolume (vcsi E) (exp_VolumeId req) [] (NfsExportDirectory E) (exp_ExportNfsContext req) w = ((path, None), w')"
    for path w w'
    using assms(3,4) that unfolding mounts_at_service_name_def names_service_def by (metis fst_conv)
  have finish: "wp (finish_export E resp path ctx) (\<lambda>_. ?Q) u"
    if "?Q u" and "path = staging_path E (exp_VolumeId req)" for resp path ctx u
    using finish_export_inv[of E u path resp ctx] assms(5) that by (simp add: export_entry_def)
  have body: "wp (export_volume E req) (\<lambda>_. ?Q) y" if "?Q y" for y
    unfolding export_volume_def Let_def
    by (intro wp_bind wp_ext wp_CheckExport wp_if wp_get wp_return wp_case_prod wp_case_option wp_mono[OF finish])
       (use that in \<open>auto dest: mounted process_inv process_fields(8)\<close>)
  have work: "?Q v" if "work v = work u" and "?Q u" for u v
    using that(2) by (simp only: work_inv[OF that(1)] work_fields[OF that(1)] simp_thms)
  have "wp (ExportNfsVolume E fuel req) (\<lambda>_. ?Q) s"
    unfolding ExportNfsVolume_def locked_def
    by (intro wp_bind wp_return wp_case_outcome wp_keeps[OF keeps_work_lock(3)] wp_keeps[OF keeps_work_unlock(2)] wp_mono[OF body])
       (use assms(2) work in blast)+
  from wpD[OF this run] show ?thesis .
qed

text \<open>
  C24: exporting is idempotent. After a successful \<open>ExportNfsVolume\<close>, on a readable table and with a
  host driver that mounts at the service name, a second request for the volume is recognised: it
  succeeds at once, marks its answer, and changes neither the table nor the generations.
\<close>

theorem export_nfs_volume_idempotent:
  assumes "exports_inv E s" and "mounts_at_service_name E" and "names_service E req" and "fuel \<noteq> 0"
    and "clean_entry (export_entry s (staging_path E (exp_VolumeId req)))"
    and "\<And>p w. fst (os_Stat (opSys E) p w) = None"
    and first: "run_state (ExportNfsVolume E fuel req) s = (Done (a, None, ctx), t)"
    and second: "run_state (ExportNfsVolume E fuel req') t = (r, u)" and "exp_VolumeId req' = exp_VolumeId req"
  shows "r = Done (Some \<lparr>expr_VolumeId = exp_VolumeId req,
      expr_ExportNfsContext = GoMap [(''idenpotent'', ''true'')]\<rparr>, None, exp_ExportNfsContext req') \<and>
    work u = work t \<and> nfsPVLock u = nfsPVLock s"
proof -
  have out: "nfsPVLock s (exp_VolumeId req) = None \<and> nfsPVLock t = nfsPVLock s \<and>
      export_result E req s (Done (a, None, ctx)) t"
    using export_handler_outcome[OF first assms(4)] by (auto split: if_splits)
  then have "exports_inv E t" "has_export t (staging_path E (exp_VolumeId req) @ ''/'')"
    using export_success[of E req s a ctx t] assms(1-3,5) by blast+
  with out export_again[OF _ _ _ assms(4,6) second] assms(9) show ?thesis by simp
qed

theorem export_nfs_volume_idempotent_witness:
  "\<exists>a ctx t u. run_state (ExportNfsVolume sample_env 1 sample_export) (sample_state []) = (Done (a, None, ctx), t) \<and>
     run_state (ExportNfsVolume sample_env 1 sample_export) t =
       (Done (Some \<lparr>expr_VolumeId = ''nfs-v1'', expr_ExportNfsContext = GoMap [(''idenpotent'', ''true'')]\<rparr>,
          None, exp_ExportNfsContext sample_export), u)"
proof -
  obtain ctx t where first: "run_state (ExportNfsVolume sample_env 1 sample_export) (sample_state []) =
    (Done (Some \<lparr>expr_VolumeId = ''nfs-v1'', expr_ExportNfsContext = NilMap\<rparr>, None, ctx), t)"
    using sample_export_runs by blast
  obtain r u where second: "run_state (ExportNfsVolume sample_env 1 sample_export) t = (r, u)" by fastforce
  have stat: "fst (os_Stat (opSys sample_env) p w) = None" for p w by (simp add: sample_defs)
  have vid: "exp_VolumeId sample_export = ''nfs-v1''" by (simp add: sample_export_def)
  from export_nfs_volume_idempotent[OF exports_inv_sample_empty sample_mounts one_neq_zero _ stat first second refl]
    clean_export_entry_sample first second show ?thesis by (auto simp: vid)
qed

text \<open>
  C40: a retry hides a failed resynchronisation. When an export fails after its entry has reached the
  file, as it does when \<open>exportfs\<close> fails, the next request for the volume is answered as already
  exported: it succeeds, and neither the file nor a generation changes, so that the kernel is not
  told. The controller repeats a failed export until it succeeds.
\<close>

theorem failed_export_succeeds_on_retry:
  assumes "exports_inv E s" and "mounts_at_service_name E" and "names_service E req" and "fuel \<noteq> 0"
    and "clean_entry (export_entry s (staging_path E (exp_VolumeId req)))"
    and "\<And>p w. fst (os_Stat (opSys E) p w) = None"
    and first: "run_state (ExportNfsVolume E fuel req) s = (Done (a, Some m, ctx), t)"
    and "has_export t (staging_path E (exp_VolumeId req) @ ''/'')"
    and second: "run_state (ExportNfsVolume E fuel req') t = (r, u)" and "exp_VolumeId req' = exp_VolumeId req"
  shows "r = Done (Some \<lparr>expr_VolumeId = exp_VolumeId req,
      expr_ExportNfsContext = GoMap [(''idenpotent'', ''true'')]\<rparr>, None, exp_ExportNfsContext req') \<and>
    work u = work t"
proof -
  have "nfsPVLock t (exp_VolumeId req) = None"
    using export_handler_outcome[OF first assms(4)] by (auto split: if_splits)
  moreover have "exports_inv E t" using export_handler_inv[OF first assms(1-3,5)] by blast
  ultimately show ?thesis using export_again[OF _ _ _ assms(4,6) second] assms(8,10) by simp
qed

text \<open>A node on which \<open>exportfs\<close> fails, and no other command.\<close>

definition no_exportfs_env :: "sample_world env" where
  "no_exportfs_env = sample_env\<lparr>exec := sample_exec\<lparr>ExecuteCommand :=
     (\<lambda>_ args w. (([], if last args = ''-r'' then Some ''exit status 1'' else None), w))\<rparr>\<rparr>"

lemma no_exportfs_same:
  "exports_inv no_exportfs_env s = exports_inv sample_env s" "staging_path no_exportfs_env v = staging_path sample_env v"
  "mounts_at_service_name no_exportfs_env" "names_service no_exportfs_env sample_export"
  "fst (os_Stat (opSys no_exportfs_env) p w) = None"
  using sample_mounts
  by (simp_all add: exports_inv_def io_ok_def no_exportfs_env_def mounts_at_service_name_def names_service_def)
     (simp_all add: sample_defs)

lemma no_exportfs_first:
  "\<exists>a ctx t. run_state (ExportNfsVolume no_exportfs_env 1 sample_export) (sample_state []) =
      (Done (a, Some ''exit status 1'', ctx), t) \<and> has_export t ''/e/nfs-v1/'' \<and>
      generation t = 1 \<and> syncedGeneration t = 0"
proof -
  let ?s = "(sample_state [])\<lparr>nfsPVLock := [''nfs-v1'' \<mapsto> ''nfs-v1'']\<rparr>"
  let ?opts = "export_options (podCIDR (nfsService (sample_state [])))"
  have inv: "exports_inv no_exportfs_env ?s" "\<not> has_export ?s ''/e/nfs-v1/''"
    using exports_inv_sample_empty entries_sample_empty
    by (simp_all add: no_exportfs_same) (simp_all add: exports_inv_def has_export_def export_entries_def)
  have clean: "clean_entry (''/e/nfs-v1/'' @ '' '' @ ?opts)"
    using clean_export_entry_sample unfolding sample_staging export_entry_def by simp
  obtain t where add: "run_state (AddExport no_exportfs_env ''/e/nfs-v1/'' ?opts) ?s = ((1, None), t)"
    and t: "export_entries t = [''/e/nfs-v1/'' @ '' '' @ ?opts]" "generation t = 1" "syncedGeneration t = 0"
    using AddExport_ok[OF inv clean] entries_sample_empty
    by (auto simp: export_entries_def sample_state_def)
  have "\<not> (1 :: 64 word) \<le>s 0" by (simp add: word_sle_eq)
  then have resync: "run_state (ResyncNFSMountd no_exportfs_env 1) (t\<lparr>generation := 1\<rparr>) =
      (Some ''exit status 1'', t\<lparr>generation := 1\<rparr>)"
    using t by (simp add: ResyncNFSMountd_def numeral_2_eq_2 no_exportfs_env_def sample_defs)
  have check: "run_state (CheckExport no_exportfs_env ''/e/nfs-v1/'') ?s = ((False, None), ?s)"
    by (simp add: CheckExport_def checkExport_def open_exports_def scan_exports_def no_exportfs_env_def sample_defs
        scan_file_def)
  have ops: "NfsExportDirectory no_exportfs_env = ''/e''"
      "VolumeIDToServiceName (unicode_ToLower (runtime no_exportfs_env)) ''nfs-v1'' = ''nfs-v1''"
      "vcsi_MountVolume (vcsi no_exportfs_env) v n d c w = ((d @ ''/'' @ gm_get c ''ServiceName'', None), w)"
      "select_done (runtime no_exportfs_env) w = (False, w)" "os_Chown (opSys no_exportfs_env) p x g w = (None, w)"
      "os_Chmod (opSys no_exportfs_env) p x w = (None, w)" "os_Stat (opSys no_exportfs_env) p w = (None, w)"
      "ExecuteCommand (exec no_exportfs_env) ''chroot'' [''/noderoot'', ''ls'', ''-ld'', p'] w =
        (([], if p' = ''-r'' then Some ''exit status 1'' else None), w)"
    for v n d c w p x g p'
    by (simp_all add: no_exportfs_env_def sample_service_name) (simp_all add: sample_defs)
  have finish: "run_state (finish_export no_exportfs_env resp ''/e/nfs-v1'' c) ?s =
      ((Some resp, Some ''exit status 1'', c), t\<lparr>generation := 1\<rparr>)" for resp c
    by (simp add: finish_export_def set_generation_def ops add resync)
  have req: "exp_VolumeId sample_export = ''nfs-v1''" "gm_get (exp_ExportNfsContext sample_export) ''ServiceName'' = ''nfs-v1''"
    "\<exists>c. gm_put (exp_ExportNfsContext sample_export) ''MountPath'' x = Some c" for x
    by (simp_all add: sample_export_def gm_get_def gm_lookup_def)
  have body: "\<exists>a c. run_state (export_volume no_exportfs_env sample_export) ?s =
      (Done (a, Some ''exit status 1'', c), t\<lparr>generation := 1\<rparr>)"
    using req(3)[of "''/e/nfs-v1''"] by (auto simp: export_volume_def Let_def ops req(1,2) check finish)
  have "nfsPVLock (sample_state []) = Map.empty" by (simp add: sample_state_def)
  then have lock: "run_state (nfsLockPV no_exportfs_env 1 ''nfs-v1'') (sample_state []) = (Done (), ?s)"
    by (simp add: LoadOrStore_def)
  obtain a c where "run_state (ExportNfsVolume no_exportfs_env 1 sample_export) (sample_state []) =
      (Done (a, Some ''exit status 1'', c), (t\<lparr>generation := 1\<rparr>)\<lparr>nfsPVLock := Delete (nfsPVLock t) ''nfs-v1''\<rparr>)"
    using body by (auto simp: ExportNfsVolume_def locked_def req(1) lock nfsUnlockPV_def simp del: nfsLockPV.simps One_nat_def)
  moreover have "has_export (t\<lparr>generation := 1, nfsPVLock := l\<rparr>) ''/e/nfs-v1/''" for l
    using t(1) HasPrefix_append[of "''/e/nfs-v1/''" "'' '' @ ?opts"] by (simp add: has_export_def export_entries_def)
  ultimately show ?thesis using t(3) by fastforce
qed

theorem failed_export_succeeds_on_retry_witness:
  "\<exists>a ctx t u. run_state (ExportNfsVolume no_exportfs_env 1 sample_export) (sample_state []) =
       (Done (a, Some ''exit status 1'', ctx), t) \<and>
     run_state (ExportNfsVolume no_exportfs_env 1 sample_export) t =
       (Done (Some \<lparr>expr_VolumeId = ''nfs-v1'', expr_ExportNfsContext = GoMap [(''idenpotent'', ''true'')]\<rparr>,
          None, exp_ExportNfsContext sample_export), u) \<and> syncedGeneration u <s generation u"
proof -
  obtain a ctx t where first: "run_state (ExportNfsVolume no_exportfs_env 1 sample_export) (sample_state []) =
      (Done (a, Some ''exit status 1'', ctx), t)" and t: "has_export t ''/e/nfs-v1/''" "generation t = 1" "syncedGeneration t = 0"
    using no_exportfs_first by blast
  obtain r u where second: "run_state (ExportNfsVolume no_exportfs_env 1 sample_export) t = (r, u)" by fastforce
  have vid: "exp_VolumeId sample_export = ''nfs-v1''" by (simp add: sample_export_def)
  have inv: "exports_inv no_exportfs_env (sample_state [])" by (simp only: no_exportfs_same exports_inv_sample_empty)
  have clean: "clean_entry (export_entry (sample_state []) (staging_path no_exportfs_env (exp_VolumeId sample_export)))"
    unfolding vid no_exportfs_same by (rule clean_export_entry_sample)
  have has: "has_export t (staging_path no_exportfs_env (exp_VolumeId sample_export) @ ''/'')"
    unfolding vid no_exportfs_same sample_staging using t(1) by simp
  note out = failed_export_succeeds_on_retry[OF inv no_exportfs_same(3,4) one_neq_zero clean no_exportfs_same(5) first has second refl]
  have "(0 :: 64 word) <s 1" by (simp add: word_sless_alt)
  moreover have "syncedGeneration u = 0" "generation u = 1" using work_fields[of u t] out t(2,3) by simp_all
  ultimately show ?thesis using out first second unfolding vid by metis
qed

text \<open>
  C29: on a node where the system calls, the commands and the mount succeed, exporting a volume
  that is not exported and not locked returns without an error.
\<close>

theorem export_nfs_volume_succeeds:
  assumes "exports_inv E s" and "\<not> has_export s (staging_path E (exp_VolumeId req) @ ''/'')"
    and "clean_entry (export_entry s (staging_path E (exp_VolumeId req)))"
    and "node_works E" and "names_service E req" and "exp_ExportNfsContext req \<noteq> NilMap"
    and "nfsPVLock s (exp_VolumeId req) = None" and "fuel \<noteq> 0"
  shows "\<exists>ctx t. run_state (ExportNfsVolume E fuel req) s =
    (Done (Some \<lparr>expr_VolumeId = exp_VolumeId req, expr_ExportNfsContext = NilMap\<rparr>, None, ctx), t)"
  using assms by (rule export_runs)

theorem export_nfs_volume_succeeds_witness:
  "\<exists>r t. run_state (ExportNfsVolume sample_env 1 sample_export) (sample_state []) = (Done r, t)"
proof -
  have "\<not> has_export (sample_state []) d" for d by (simp add: has_export_def entries_sample_empty)
  with export_nfs_volume_succeeds[OF exports_inv_sample_empty, of sample_export 1] node_works_sample sample_mounts
    clean_export_entry_sample show ?thesis
    by (auto simp: sample_export_def sample_state_def)
qed

text \<open>
  C23: an export is undone by an unexport. After a successful \<open>ExportNfsVolume\<close> and a successful
  \<open>UnexportNfsVolume\<close> for its service name, the table holds the entries it held before without
  those that start with the export path; when no other entry starts with it, the table is as
  before. Both calls give their lock back, and the kernel's table is in step.
\<close>

theorem export_unexport_roundtrip:
  assumes "exports_inv E s" and "mounts_at_service_name E" and "names_service E req" and "fuel \<noteq> 0"
    and "clean_entry (export_entry s (staging_path E (exp_VolumeId req)))"
    and "run_state (ExportNfsVolume E fuel req) s = (Done (a, None, ctx), t)"
    and "run_state (UnexportNfsVolume E fuel req') t = (Done (b, None), u)"
    and "unexport_path (NfsExportDirectory E) (unexp_VolumeId req')
      (gm_get (unexp_UnexportNfsContext req') ''ServiceName'') = staging_path E (exp_VolumeId req)"
  shows "export_entries u =
      filter (\<lambda>l. \<not> HasPrefix l (staging_path E (exp_VolumeId req))) (export_entries s) \<and>
    nfsPVLock u = nfsPVLock s \<and> generation u \<le>s syncedGeneration u"
proof -
  let ?d = "staging_path E (exp_VolumeId req)"
  have out: "nfsPVLock t = nfsPVLock s \<and> export_result E req s (Done (a, None, ctx)) t"
    using export_handler_outcome[OF assms(6,4)] by (auto split: if_splits)
  then have t: "exports_inv E t" and entries: "export_entries t = export_entries s \<or>
      export_entries t = export_entries s @ [export_entry s ?d]"
    using export_success[of E req s a ctx t] assms(1-3,5) by blast+
  have "nfsPVLock u = nfsPVLock t \<and> unexport_result E req' t (Done (b, None)) u"
    using unexport_handler_outcome[OF assms(7,4)] by (auto split: if_splits)
  then have l: "nfsPVLock u = nfsPVLock t" and gone: "exports_file u = Some (unlines (filter (\<lambda>l. \<not> HasPrefix l ?d) (export_entries t)))"
    and g: "generation u \<le>s syncedGeneration u"
    by (auto simp: unexport_result_def assms(8) Let_def)
  have "\<And>l. l \<in> set (export_entries t) \<Longrightarrow> clean_entry l"
    using t trimmed_line_clean by (auto simp: exports_inv_def export_entries_def)
  then have "export_entries u = filter (\<lambda>l. \<not> HasPrefix l ?d) (export_entries t)"
    using wf_unlines[of "filter (\<lambda>l. \<not> HasPrefix l ?d) (export_entries t)"]
    by (simp add: export_entries_def[of u] gone)
  moreover have "HasPrefix (export_entry s ?d) ?d"
    unfolding export_entry_def by (rule HasPrefix_trans[OF HasPrefix_append HasPrefix_append])
  ultimately show ?thesis using entries l out g by auto
qed

theorem export_unexport_roundtrip_witness:
  "\<exists>a ctx t b u. run_state (ExportNfsVolume sample_env 1 sample_export) (sample_state []) = (Done (a, None, ctx), t) \<and>
     run_state (UnexportNfsVolume sample_env 1 sample_unexport) t = (Done (b, None), u) \<and>
     export_entries u = []"
proof -
  obtain ctx t where first: "run_state (ExportNfsVolume sample_env 1 sample_export) (sample_state []) =
    (Done (Some \<lparr>expr_VolumeId = ''nfs-v1'', expr_ExportNfsContext = NilMap\<rparr>, None, ctx), t)"
    using sample_export_runs by blast
  have "nfsPVLock t = nfsPVLock (sample_state []) \<and> export_result sample_env sample_export (sample_state [])
    (Done (Some \<lparr>expr_VolumeId = ''nfs-v1'', expr_ExportNfsContext = NilMap\<rparr>, None, ctx)) t"
    using export_handler_outcome[OF first] by (auto simp: sample_state_def split: if_splits)
  then have t: "exports_inv sample_env t" "nfsPVLock t = Map.empty"
    using export_success[of sample_env sample_export "sample_state []" _ ctx t] exports_inv_sample_empty
      sample_mounts clean_export_entry_sample
    by (auto simp: sample_state_def sample_export_def)
  then obtain b u where second: "run_state (UnexportNfsVolume sample_env 1 sample_unexport) t = (Done (Some b, None), u)"
    using unexport_runs[OF t(1) node_works_sample unmounts_sample, of sample_unexport 1] by auto
  have path: "unexport_path (NfsExportDirectory sample_env) (unexp_VolumeId sample_unexport)
      (gm_get (unexp_UnexportNfsContext sample_unexport) ''ServiceName'') = staging_path sample_env (exp_VolumeId sample_export)"
    using sample_staging
    by (simp add: unexport_path_def sample_unexport_def sample_export_def gm_get_def gm_lookup_def
        sample_defs HasPrefix_def)
  from export_unexport_roundtrip[OF exports_inv_sample_empty sample_mounts one_neq_zero _ first second path]
    clean_export_entry_sample first second show ?thesis by (auto simp: entries_sample_empty sample_export_def)
qed

text \<open>
  C30: \<open>UnexportNfsVolume\<close> looks for \<open>not mounted\<close> in the error of its own \<open>UnmountVolume\<close>, which
  drops the driver's reason and reports only the volume id. A volume that the driver cannot
  unmount because it is not mounted is therefore never recognised: after the export is gone and
  thirty attempts have been made, the request fails, and so does every repetition.
\<close>

theorem unexport_of_unmounted_volume_fails:
  assumes "exports_inv E s" and "node_works E" and "never_unmounts E (unexp_VolumeId req)"
    and "\<not> Contains (unexp_VolumeId req) ''not mounted''"
    and "\<not> Contains (unexp_VolumeId req) ''no such file or directory''"
    and "run_state (UnexportNfsVolume E fuel req) s = (r, t)" and "r \<noteq> Running"
  shows "r = Done (None, Some ''UnmountVolume timed out after several retries'')"
proof -
  obtain u v where u: "work u = work s"
    and b: "run_state (do { r \<leftarrow> unexport_volume E req; State_Monad.return (Done r) }) u = (r, v)"
    using nfs_locked_run[OF assms(6)[unfolded UnexportNfsVolume_def] assms(7)] by blast
  have inv: "exports_inv E u" by (simp only: work_inv[OF u] assms(1))
  have del: "wp (DeleteExport E d) Q u" if "\<And>g t. g = generation t \<Longrightarrow> Q (g, None) t" for d Q
    using DeleteExport_ok[OF inv, of d] that by (auto simp: wp_def) metis
  have resync: "wp (ResyncNFSMountd E g) Q x" if "\<And>t. g \<le>s syncedGeneration t \<Longrightarrow> Q None t" for g Q x
  proof (rule wp_run)
    fix e t
    assume run: "run_state (ResyncNFSMountd E g) x = (e, t)"
    have "wp (ResyncNFSMountd E g) (\<lambda>e _. e = None) x" by (rule wp_Resync_ok[OF assms(2) refl])
    from wpD[OF this run] have "e = None" .
    with ResyncNFSMountd_effect[OF run] that show "Q e t" by (auto split: if_splits)
  qed
  have "wp (do { r \<leftarrow> unexport_volume E req; State_Monad.return (Done r) })
    (\<lambda>r _. r = Done (None, Some ''UnmountVolume timed out after several retries'')) u"
    unfolding unexport_volume_def Let_def
    by (intro wp_bind del resync wp_case_prod wp_case_option wp_return
        wp_mono[OF unexport_loop_never[OF assms(3-5)]]) auto
  from wpD[OF this b] show ?thesis .
qed

text \<open>A host driver for which no volume is mounted.\<close>

definition unmounted_env :: "sample_world env" where
  "unmounted_env = sample_env\<lparr>vcsi := sample_vcsi\<lparr>vcsi_UnmountVolume := \<lambda>_ _ _ w. (Some ''not mounted'', w)\<rparr>\<rparr>"

theorem unexport_of_unmounted_volume_fails_witness:
  "\<exists>t. run_state (UnexportNfsVolume unmounted_env 1 sample_unexport) (sample_state []) =
     (Done (None, Some ''UnmountVolume timed out after several retries''), t)"
proof -
  obtain r t where run: "run_state (UnexportNfsVolume unmounted_env 1 sample_unexport) (sample_state []) = (r, t)"
    by fastforce
  have inv: "exports_inv unmounted_env (sample_state [])"
    using exports_inv_sample_empty by (simp add: exports_inv_def io_ok_def unmounted_env_def)
  have works: "node_works unmounted_env" "never_unmounts unmounted_env (unexp_VolumeId sample_unexport)"
    using node_works_sample
    by (simp_all add: node_works_def unmounted_env_def never_unmounts_def sample_defs)
  have "unexport_result unmounted_env sample_unexport (sample_state []) r t"
    using unexport_handler_outcome[OF run] by (simp add: sample_state_def)
  then have "r \<noteq> Running" by (auto simp: unexport_result_def)
  with unexport_of_unmounted_volume_fails[OF inv works _ _ run] run show ?thesis
    by (auto simp: sample_unexport_def HasPrefix_def)
qed

definition api_unreachable :: "'w env \<Rightarrow> bool" where
  "api_unreachable E \<longleftrightarrow> (\<forall>ns n w. \<exists>m. fst (cs_GetService (clientset E) ns n w) = Inl m \<and>
     \<not> cs_IsNotFound (clientset E) m)"

lemma get_service_unreachable:
  assumes "api_unreachable E"
  shows "fst (run_state (get_service_loop E sn n) s) = (None, None)"
proof (induction n arbitrary: s)
  case (Suc n)
  obtain m w where "cs_GetService (clientset E) (DriverNamespace E) sn (world s) = (Inl m, w)"
    and "\<not> cs_IsNotFound (clientset E) m"
    using assms unfolding api_unreachable_def by (metis prod.collapse)
  with Suc show ?case by (simp add: GetService_def)
qed simp

text \<open>
  C31: the error that \<open>GetServiceContent\<close> returns after its last attempt is a variable that its loop
  shadows: it is nil. When the API server is unreachable, a ping that dumps the exports therefore
  dereferences a nil service, and the node's NFS server goes down.
\<close>

theorem ping_panics_without_api_server:
  assumes "exports_inv E s" and "api_unreachable E"
    and "exports_file s = Some c" and "\<exists>l \<in> set (raw_lines c). HasPrefix (dropCR l) (NfsExportDirectory E)"
    and "ping_DumpAllExports req"
  shows "fst (run_state (Ping E req) s) = Panicked nil_deref_panic"
proof -
  obtain w where g: "run_state (GetExports E (NfsExportDirectory E)) s =
    ((filter (\<lambda>l. HasPrefix l (NfsExportDirectory E)) (map dropCR (raw_lines c)), None), s\<lparr>world := w\<rparr>)"
    using GetExports_ok[OF assms(1,3)] by blast
  from assms(4) obtain l ls where
    ls: "filter (\<lambda>l. HasPrefix l (NfsExportDirectory E)) (map dropCR (raw_lines c)) = l # ls"
    by (cases "filter (\<lambda>l. HasPrefix l (NfsExportDirectory E)) (map dropCR (raw_lines c))")
       (auto simp: filter_empty_conv)
  have "fst (run_state (ping_export E l True 0) t) = Panicked nil_deref_panic" for t
  proof -
    let ?sn = "export_service_name (NfsExportDirectory E) (Clean (hd (Split l (CHR '' ''))))"
    have "fst (run_state (GetServiceContent E ?sn) t) = (None, None)"
      unfolding GetServiceContent_def by (rule get_service_unreachable[OF assms(2)])
    then show ?thesis
      unfolding ping_export_def Let_def
      by (cases "run_state (GetServiceContent E ?sn) t") simp
  qed
  then obtain u where p: "run_state (ping_export E l True 0) (s\<lparr>world := w\<rparr>) = (Panicked nil_deref_panic, u)"
    by (metis prod.collapse)
  show ?thesis using assms(5) by (simp add: Ping_def g ls p Let_def)
qed

text \<open>An API server that does not answer, and a table with one export.\<close>

definition unreachable_env :: "sample_world env" where
  "unreachable_env = sample_env\<lparr>clientset := sample_clientset\<lparr>cs_GetService := \<lambda>_ _ w. (Inl ''i/o timeout'', w)\<rparr>\<rparr>"

theorem ping_panics_without_api_server_witness:
  "fst (run_state (Ping unreachable_env \<lparr>ping_NodeIpAddress = [], ping_DumpAllExports = True\<rparr>)
     (sample_state ''/e/nfs-v1/ a\<newline>'')) = Panicked nil_deref_panic"
proof (rule ping_panics_without_api_server)
  show "exports_inv unreachable_env (sample_state ''/e/nfs-v1/ a\<newline>'')"
    using io_ok_sample
    by (simp add: exports_inv_def io_ok_def unreachable_env_def sample_state_def wf_exports_def
        raw_lines_def MaxScanTokenSize_def)
  show "api_unreachable unreachable_env"
    by (simp add: api_unreachable_def unreachable_env_def sample_defs HasPrefix_def)
  show "exports_file (sample_state ''/e/nfs-v1/ a\<newline>'') = Some ''/e/nfs-v1/ a\<newline>''"
    by (simp add: sample_state_def)
  show "\<exists>l \<in> set (raw_lines ''/e/nfs-v1/ a\<newline>''). HasPrefix (dropCR l) (NfsExportDirectory unreachable_env)"
    by (simp add: raw_lines_def dropCR_def HasPrefix_def unreachable_env_def sample_defs)
qed simp

text \<open>
  C32: the export path that \<open>UnexportNfsVolume\<close> deletes has no slash at its end, unlike the path
  that \<open>ExportNfsVolume\<close> adds, and entries are deleted by prefix: unexporting one volume also
  removes the entry of every volume whose service name starts with its service name.
\<close>

theorem unexport_removes_entry_of_other_volume:
  "\<exists>b t. run_state (UnexportNfsVolume sample_env 1 sample_unexport)
      (sample_state ''/e/nfs-v1/ a\<newline>/e/nfs-v10/ b\<newline>'') = (Done (b, None), t) \<and>
    export_entries (sample_state ''/e/nfs-v1/ a\<newline>/e/nfs-v10/ b\<newline>'') = [''/e/nfs-v1/ a'', ''/e/nfs-v10/ b''] \<and>
    exports_file t = Some []"
proof -
  let ?s = "sample_state ''/e/nfs-v1/ a\<newline>/e/nfs-v10/ b\<newline>''"
  have trims: "TrimSpace ''/e/nfs-v1/ a'' = ''/e/nfs-v1/ a''" "TrimSpace ''/e/nfs-v10/ b'' = ''/e/nfs-v10/ b''"
    by (rule TrimSpace_eval; simp add: space_seqs_def HasPrefix_def)+
  have entries: "export_entries ?s = [''/e/nfs-v1/ a'', ''/e/nfs-v10/ b'']"
    by (simp add: export_entries_def sample_state_def exports_lines_def raw_lines_def dropCR_def trims)
  have "exports_inv sample_env ?s"
    using io_ok_sample by (simp add: exports_inv_def sample_state_def wf_exports_def raw_lines_def MaxScanTokenSize_def)
  then obtain b t where run: "run_state (UnexportNfsVolume sample_env 1 sample_unexport) ?s = (Done (b, None), t)"
    using unexport_runs[OF _ node_works_sample unmounts_sample, of ?s sample_unexport 1]
    by (auto simp: sample_state_def)
  have path: "unexport_path (NfsExportDirectory sample_env) (unexp_VolumeId sample_unexport)
      (gm_get (unexp_UnexportNfsContext sample_unexport) ''ServiceName'') = ''/e/nfs-v1''"
    by (simp add: unexport_path_def sample_unexport_def gm_get_def gm_lookup_def sample_defs HasPrefix_def)
  have "unexport_result sample_env sample_unexport ?s (Done (b, None)) t"
    using unexport_handler_outcome[OF run] by (auto split: if_splits)
  then have "exports_file t = Some (unlines (filter (\<lambda>l. \<not> HasPrefix l ''/e/nfs-v1'') (export_entries ?s)))"
    by (auto simp: unexport_result_def path Let_def)
  then have "exports_file t = Some []" by (simp add: entries HasPrefix_def unlines_def)
  with run entries show ?thesis by blast
qed

text \<open>
  \<open>ExportMultipleNfsVolumes\<close> and \<open>UnexportMultipleNfsVolumes\<close> try every volume of the request:
  the reported ids are those of the request, each on one of the two lists and in order, and there
  is an error exactly when some volume failed.
\<close>

lemma multiple_volumes_partition:
  "(run_state (ExportMultipleNfsVolumes E fuel req) s = (Done (resp, e), t) \<longrightarrow>
     multi_result (expm_VolumeIds req) [] [] None (expmr_SuccessfulIds resp) (expmr_UnsuccessfulIds resp) e) \<and>
   (run_state (UnexportMultipleNfsVolumes E fuel req') s' = (Done (resp', e'), t') \<longrightarrow>
     multi_result (unexpm_VolumeIds req') [] [] None (unexpmr_SuccessfulIds resp') (unexpmr_UnsuccessfulIds resp') e')"
  by (auto simp: ExportMultipleNfsVolumes_def UnexportMultipleNfsVolumes_def
      dest: export_multiple_loop_effect unexport_multiple_loop_effect)

theorem multiple_volumes_partition_witness:
  "\<exists>resp t. run_state (ExportMultipleNfsVolumes sample_env 1 \<lparr>expm_VolumeIds = [''nfs-v1''],
       expm_ExportNfsContext = GoMap [(''ServiceName'', ''nfs-v1'')]\<rparr>) (sample_state []) = (Done (resp, None), t) \<and>
     multi_result [''nfs-v1''] [] [] None (expmr_SuccessfulIds resp) (expmr_UnsuccessfulIds resp) None"
proof -
  obtain resp t where run: "run_state (ExportMultipleNfsVolumes sample_env 1 \<lparr>expm_VolumeIds = [''nfs-v1''],
       expm_ExportNfsContext = GoMap [(''ServiceName'', ''nfs-v1'')]\<rparr>) (sample_state []) = (Done (resp, None), t)"
    using sample_export_runs by (auto simp: ExportMultipleNfsVolumes_def sample_export_def)
  with multiple_volumes_partition[of sample_env 1 _ "sample_state []" resp None t] show ?thesis by fastforce
qed

end
