(* ===== verification/Node_Monitor.thy ===== *)
theory Node_Monitor
  imports Nfs_Service
begin

text \<open>
  The monitor of the nodes (\<open>src/nfs/nodemonitor.go\<close>): one pinger per worker node, which keeps the
  node's \<open>NodeStatus\<close> and starts the recovery of the node, and the count of the exports of all
  nodes.

  A pinger owns the entry of \<open>nodeIPAddress\<close> at its node's address. Its endless loop is given by
  its rounds: \<open>pinger_update\<close> is what a ping's answer does to the status, and tells whether the
  recovery goroutine is started; \<open>pinger_round\<close> is one turn of the loop and \<open>pinger\<close> a number of
  them. The counters of pings are unbounded integers.
\<close>

section \<open>Definitions\<close>

definition GetExportsTimeout :: nat where "GetExportsTimeout = 5 * Second"
definition Pinger_timeout :: nat where "Pinger_timeout = 10 * Second"
definition maxBadPing :: int where "maxBadPing = 2"

definition setPingRate :: "nat \<Rightarrow> ('w nfs_state, unit) state" where
  "setPingRate rate = State_Monad.update (\<lambda>s. s\<lparr>pingRate := rate\<rparr>)"

definition getPingRate :: "('w nfs_state, nat) state" where
  "getPingRate = do { s \<leftarrow> State_Monad.get; State_Monad.return (pingRate s) }"

definition isControlPlaneNode :: "Node \<Rightarrow> bool" where
  "isControlPlaneNode node \<longleftrightarrow>
     (\<exists>key \<in> fst ` set (entries (node_labels node)). key = ''node-role.kubernetes.io/control-plane'')"

definition GetNodeStatus :: "string \<Rightarrow> ('w nfs_state, NodeStatus option) state" where
  "GetNodeStatus address = do { s \<leftarrow> State_Monad.get; State_Monad.return (map_of (nodeIPAddress s) address) }"

definition ping :: "'w env \<Rightarrow> PingRequest \<Rightarrow> ('w nfs_state, PingResponse option \<times> err) state" where
  "ping E pingRequest = do {
     s \<leftarrow> State_Monad.get;
     nodeClient \<leftarrow> getNfsClient E (ping_NodeIpAddress pingRequest) (nfsClientServicePort (nfsService s));
     case nodeClient of
       Inl m \<Rightarrow> State_Monad.return (None, Some m)
     | Inr addr \<Rightarrow> ext (rpc_Ping (nfsClient E) addr pingRequest) }"

definition getExports :: "'w env \<Rightarrow> string \<Rightarrow> ('w nfs_state, (string list \<times> err) outcome) state" where
  "getExports E nodeIP = do {
     s \<leftarrow> State_Monad.get;
     nodeClient \<leftarrow> getNfsClient E nodeIP (nfsClientServicePort (nfsService s));
     case nodeClient of
       Inl m \<Rightarrow> State_Monad.return (Done ([], Some m))
     | Inr addr \<Rightarrow> do {
         (resp, e) \<leftarrow> ext (rpc_GetExports (nfsClient E) addr);
         State_Monad.return (case e of
           Some m \<Rightarrow> Done ([], Some m)
         | None \<Rightarrow> (case resp of None \<Rightarrow> Panicked nil_deref_panic | Some r \<Rightarrow> Done (getr_Exports r, None))) } }"

text \<open>Errors that say more about the controller's own network than about the node.\<close>

definition transient_error :: "string \<Rightarrow> bool" where
  "transient_error m \<longleftrightarrow> Contains m ''network is unreachable'' \<or>
     Contains m ''error while waiting for new LB policy update'' \<or>
     Contains m ''deadline exceeded while waiting for connections to become ready''"

text \<open>
  One answer to a ping: the new status, and whether \<open>go s.nodeRecovery(nodeIP)\<close> is reached. The log
  line of the failure branch calls \<open>err.Error()\<close>, and the other branch reads \<open>resp.Status\<close>.
\<close>

definition pinger_update ::
  "NodeStatus \<Rightarrow> PingResponse option \<Rightarrow> err \<Rightarrow> (NodeStatus \<times> bool) outcome" where
  "pinger_update st resp e =
     (if e \<noteq> None \<or> (\<exists>r. resp = Some r \<and> \<not> pingr_Ready r) then
        (case e of
           None \<Rightarrow> Panicked nil_deref_panic
         | Some m \<Rightarrow>
             if \<not> transient_error m then
               (let st = st\<lparr>online := False, badPings := badPings st + 1, goodPings := 0\<rparr>
                in if \<not> inRecovery st \<and> badPings st \<ge> maxBadPing
                   then Done (st\<lparr>inRecovery := True, dumpingExports := True\<rparr>, True)
                   else Done (st, False))
             else Done (st, False))
      else
        (case resp of
           None \<Rightarrow> Panicked nil_deref_panic
         | Some r \<Rightarrow>
             let st = st\<lparr>ns_status := pingr_Status r, online := True, badPings := 0,
                         goodPings := goodPings st + 1\<rparr>;
                 st = (if goodPings st \<ge> 2 then st\<lparr>dumpingExports := False\<rparr> else st)
             in Done (st\<lparr>inRecovery := False\<rparr>, False)))"

definition initial_status :: "string \<Rightarrow> string \<Rightarrow> NodeStatus" where
  "initial_status name ip = \<lparr>ns_nodeName = name, ns_nodeIP = ip, badPings = 0, goodPings = 0,
     inRecovery = False, online = False, ns_status = [], dumpingExports = False\<rparr>"

definition set_status :: "string \<Rightarrow> NodeStatus \<Rightarrow> ('w nfs_state, unit) state" where
  "set_status ip st = State_Monad.update (\<lambda>s. s\<lparr>nodeIPAddress := AList.update ip st (nodeIPAddress s)\<rparr>)"

definition pinger_round :: "'w env \<Rightarrow> NodeStatus \<Rightarrow> ('w nfs_state, (NodeStatus \<times> bool) outcome) state" where
  "pinger_round E st = do {
     (resp, e) \<leftarrow> ping E \<lparr>ping_NodeIpAddress = ns_nodeIP st, ping_DumpAllExports = dumpingExports st\<rparr>;
     case pinger_update st resp e of
       Done (st, recover) \<Rightarrow> do {
         _ \<leftarrow> set_status (ns_nodeIP st) st;
         rate \<leftarrow> getPingRate;
         _ \<leftarrow> sleep E rate;
         State_Monad.return (Done (st, recover)) }
     | Panicked m \<Rightarrow> State_Monad.return (Panicked m)
     | Running \<Rightarrow> State_Monad.return Running }"

text \<open>A number of turns of the endless loop: in which of them a recovery is started.\<close>

fun pinger_loop :: "'w env \<Rightarrow> nat \<Rightarrow> NodeStatus \<Rightarrow> ('w nfs_state, (bool list \<times> NodeStatus) outcome) state" where
  "pinger_loop E 0 st = State_Monad.return (Done ([], st))"
| "pinger_loop E (Suc rounds) st = do {
     r \<leftarrow> pinger_round E st;
     case r of
       Done (st, recover) \<Rightarrow> do {
         r \<leftarrow> pinger_loop E rounds st;
         State_Monad.return (case r of
           Done (recs, st) \<Rightarrow> Done (recover # recs, st)
         | Panicked m \<Rightarrow> Panicked m
         | Running \<Rightarrow> Running) }
     | Panicked m \<Rightarrow> State_Monad.return (Panicked m)
     | Running \<Rightarrow> State_Monad.return Running }"

definition pinger :: "'w env \<Rightarrow> nat \<Rightarrow> Node \<Rightarrow> ('w nfs_state, bool list outcome) state" where
  "pinger E rounds node =
     (case node_addresses node of
        [] \<Rightarrow> State_Monad.return (Done [])
      | ip # _ \<Rightarrow> do {
          let st = initial_status (node_name node) ip;
          _ \<leftarrow> set_status ip st;
          r \<leftarrow> pinger_loop E rounds st;
          State_Monad.return (case r of
            Done (recs, st) \<Rightarrow> Done recs | Panicked m \<Rightarrow> Panicked m | Running \<Rightarrow> Running) })"

text \<open>\<open>go s.pinger(node)\<close> for every node that is not a control plane node.\<close>

definition startNodeMonitor :: "'w env \<Rightarrow> nat \<Rightarrow> Node \<Rightarrow> ('w nfs_state, bool list outcome) state" where
  "startNodeMonitor E rounds node =
     (if isControlPlaneNode node then State_Monad.return (Done []) else pinger E rounds node)"

text \<open>
  The goroutines of \<open>getNodeExportCounts\<close> one after the other: a node that answers and is not in
  recovery is counted.
\<close>

fun count_exports ::
  "'w env \<Rightarrow> (string \<times> NodeStatus) list \<Rightarrow> (string \<times> int) list \<Rightarrow> ('w nfs_state, (string \<times> int) list outcome) state" where
  "count_exports E [] exportsMap = State_Monad.return (Done exportsMap)"
| "count_exports E ((_, status) # rest) exportsMap = do {
     r \<leftarrow> getExports E (ns_nodeIP status);
     case r of
       Done (exports, e) \<Rightarrow>
         if e = None \<and> \<not> inRecovery status
         then count_exports E rest (AList.update (ns_nodeName status) (int (length exports)) exportsMap)
         else count_exports E rest exportsMap
     | Panicked m \<Rightarrow> State_Monad.return (Panicked m)
     | Running \<Rightarrow> State_Monad.return Running }"

definition getNodeExportCounts :: "'w env \<Rightarrow> ('w nfs_state, (string \<times> int) list outcome) state" where
  "getNodeExportCounts E = do { s \<leftarrow> State_Monad.get; count_exports E (nodeIPAddress s) [] }"

section \<open>The status as a state machine\<close>

definition status_start :: "NodeStatus \<Rightarrow> bool" where
  "status_start st \<longleftrightarrow> (\<exists>name ip. st = initial_status name ip)"

inductive status_step :: "NodeStatus \<Rightarrow> NodeStatus \<Rightarrow> bool" where
  "pinger_update st resp e = Done (st', recover) \<Longrightarrow> status_step st st'"

inductive_cases status_stepE: "status_step st st'"

interpretation status_machine: transition_system status_start status_step .

text \<open>The counters tell the flags.\<close>

definition status_inv :: "NodeStatus \<Rightarrow> bool" where
  "status_inv st \<longleftrightarrow> 0 \<le> badPings st \<and> 0 \<le> goodPings st \<and>
     (inRecovery st \<longleftrightarrow> badPings st \<ge> maxBadPing) \<and>
     (online st \<longleftrightarrow> goodPings st > 0) \<and> (online st \<longrightarrow> badPings st = 0) \<and>
     (inRecovery st \<longrightarrow> dumpingExports st) \<and> (goodPings st \<ge> 2 \<longrightarrow> \<not> dumpingExports st)"

lemma status_inv_start: "status_start st \<Longrightarrow> status_inv st"
  by (auto simp: status_start_def initial_status_def status_inv_def maxBadPing_def)

lemma status_inv_update:
  "status_inv st \<Longrightarrow> pinger_update st resp e = Done (st', r) \<Longrightarrow> status_inv st'"
  by (auto simp: pinger_update_def status_inv_def maxBadPing_def Let_def split: if_splits option.splits)

lemma status_inv_step: "status_inv st \<Longrightarrow> status_step st st' \<Longrightarrow> status_inv st'"
  by (auto elim!: status_stepE intro: status_inv_update)

text \<open>A sequence of answers, with the recoveries it starts.\<close>

fun pinger_updates ::
  "NodeStatus \<Rightarrow> (PingResponse option \<times> err) list \<Rightarrow> (bool list \<times> NodeStatus) outcome" where
  "pinger_updates st [] = Done ([], st)"
| "pinger_updates st ((resp, e) # rs) = (case pinger_update st resp e of
     Done (st, recover) \<Rightarrow> (case pinger_updates st rs of
       Done (recs, st) \<Rightarrow> Done (recover # recs, st) | Panicked m \<Rightarrow> Panicked m | Running \<Rightarrow> Running)
   | Panicked m \<Rightarrow> Panicked m | Running \<Rightarrow> Running)"

text \<open>The failures that count.\<close>

definition counted :: "string list \<Rightarrow> nat" where
  "counted ms = length (filter (\<lambda>m. \<not> transient_error m) ms)"

lemma counted_simps [simp]:
  "counted [] = 0" "counted (m # ms) = (if transient_error m then counted ms else Suc (counted ms))"
  by (simp_all add: counted_def)

lemma outage_in_recovery:
  assumes "inRecovery st"
  shows "\<exists>st'. pinger_updates st (map (\<lambda>m. (resp, Some m)) ms) = Done (replicate (length ms) False, st') \<and>
    inRecovery st' \<and> badPings st' = badPings st + int (counted ms)"
  using assms
proof (induction ms arbitrary: st)
  case (Cons m ms)
  obtain u where "pinger_update st resp (Some m) = Done (u, False)" "inRecovery u"
    "badPings u = badPings st + (if transient_error m then 0 else 1)"
    using Cons.prems that by (cases "transient_error m") (simp_all add: pinger_update_def Let_def)
  with Cons.IH[of u] show ?case by auto
qed simp

lemma outage:
  assumes "status_inv st" and "\<not> inRecovery st"
  shows "\<exists>recs st'. pinger_updates st (map (\<lambda>m. (resp, Some m)) ms) = Done (recs, st') \<and>
    length recs = length ms \<and> badPings st' = badPings st + int (counted ms) \<and>
    (inRecovery st' \<longleftrightarrow> badPings st' \<ge> maxBadPing) \<and>
    length (filter (\<lambda>r. r) recs) = (if badPings st' \<ge> maxBadPing then 1 else 0)"
  using assms
proof (induction ms arbitrary: st)
  case Nil
  then show ?case by (auto simp: status_inv_def)
next
  case (Cons m ms)
  consider (same) "transient_error m" | (bad) u where "\<not> transient_error m" "badPings st + 1 < maxBadPing"
      "pinger_update st resp (Some m) = Done (u, False)" "\<not> inRecovery u" "badPings u = badPings st + 1"
    | (recover) u where "\<not> transient_error m" "badPings st + 1 \<ge> maxBadPing"
      "pinger_update st resp (Some m) = Done (u, True)" "inRecovery u" "badPings u = badPings st + 1"
    using Cons.prems by (force simp: pinger_update_def Let_def)
  then show ?case
  proof cases
    case same
    then have "pinger_update st resp (Some m) = Done (st, False)" by (simp add: pinger_update_def)
    with Cons.IH[OF Cons.prems] same show ?thesis by fastforce
  next
    case bad
    with Cons.IH[OF status_inv_update[OF Cons.prems(1) bad(3)]] show ?thesis by fastforce
  next
    case recover
    obtain v where v: "pinger_updates u (map (\<lambda>m. (resp, Some m)) ms) = Done (replicate (length ms) False, v)"
      "inRecovery v" "badPings v = badPings u + int (counted ms)"
      using outage_in_recovery[OF recover(4)] by blast
    have "badPings v \<ge> maxBadPing" using v(3) recover by simp
    with v recover show ?thesis by simp
  qed
qed

subsection \<open>Counting exports\<close>

lemma set_update_subset: "set (AList.update k v al) \<subseteq> insert (k, v) (set al)"
  by (induction al) auto

definition answers_count :: "'w env \<Rightarrow> string \<Rightarrow> string \<Rightarrow> int \<Rightarrow> bool" where
  "answers_count E port ip k \<longleftrightarrow> (\<exists>w r. fst (rpc_GetExports (nfsClient E) (ip @ '':'' @ port) w) = (Some r, None) \<and>
     k = int (length (getr_Exports r)))"

lemma getExports_effect:
  assumes "run_state (getExports E ip) s = (r, t)"
  shows "process t = process s \<and> (\<forall>ls. r = Done (ls, None) \<longrightarrow>
    answers_count E (nfsClientServicePort (nfsService s)) ip (int (length ls)))"
  using assms
  by (force simp: getExports_def getNfsClient_def answers_count_def split: option.splits sum.splits prod.splits)

lemma count_exports_effect:
  "run_state (count_exports E sts m) s = (Done m', t) \<Longrightarrow> process t = process s \<and>
   (distinct (map fst m) \<longrightarrow> distinct (map fst m')) \<and>
   (\<forall>x \<in> set m'. x \<in> set m \<or> (\<exists>(ip, st) \<in> set sts. fst x = ns_nodeName st \<and> \<not> inRecovery st \<and>
      answers_count E (nfsClientServicePort (nfsService s)) (ns_nodeIP st) (snd x)))"
proof (induction sts arbitrary: m s)
  case (Cons a sts)
  obtain ip st where a: "a = (ip, st)" by fastforce
  obtain r u where g: "run_state (getExports E (ns_nodeIP st)) s = (r, u)" by fastforce
  note eff = getExports_effect[OF g]
  then have u: "process u = process s" by simp
  note svc = process_fields(8)[OF u]
  obtain ls e where r: "r = Done (ls, e)" using Cons.prems g by (cases r) (auto simp: a)
  show ?case
  proof (cases "e = None \<and> \<not> inRecovery st")
    case True
    let ?m = "AList.update (ns_nodeName st) (int (length ls)) m"
    have "run_state (count_exports E sts ?m) u = (Done m', t)" using Cons.prems g r True by (simp add: a)
    from Cons.IH[OF this] show ?thesis
      using u svc eff r True set_update_subset[of "ns_nodeName st" "int (length ls)" m]
      by (fastforce simp: a distinct_update)
  next
    case False
    then have "run_state (count_exports E sts m) u = (Done m', t)" using Cons.prems g r by (auto simp: a)
    from Cons.IH[OF this] u svc show ?thesis by (fastforce simp: a)
  qed
qed auto

section \<open>Properties\<close>



text \<open>
  C20: an outage starts one recovery. From a status that is not in recovery, a row of failed pings
  starts a recovery exactly once if the failures that are not transient reach two, and not at all
  otherwise; the pinger does not panic on a failed ping.
\<close>

theorem outage_starts_one_recovery:
  assumes "status_machine.reachable st" and "\<not> inRecovery st"
  shows "\<exists>recs st'. pinger_updates st (map (\<lambda>m. (resp, Some m)) ms) = Done (recs, st') \<and>
    length (filter (\<lambda>r. r) recs) = (if badPings st + int (counted ms) \<ge> 2 then 1 else 0)"
proof -
  have "status_inv st"
    by (rule status_machine.reachable_invariant[OF assms(1) status_inv_start status_inv_step])
  from outage[OF this assms(2), of resp ms] show ?thesis by (auto simp: maxBadPing_def)
qed

theorem outage_starts_one_recovery_witness:
  "\<exists>recs st'. pinger_updates (initial_status ''n'' ''i'') (map (\<lambda>m. (None, Some m)) [''refused'', ''refused'', ''refused'']) =
     Done (recs, st') \<and> length (filter (\<lambda>r. r) recs) = 1"
proof -
  have "status_machine.reachable (initial_status ''n'' ''i'')"
    by (rule status_machine.reachable_start) (auto simp: status_start_def)
  from outage_starts_one_recovery[OF this, of None "[''refused'', ''refused'', ''refused'']"]
  show ?thesis by (simp add: initial_status_def transient_error_def HasPrefix_def)
qed



text \<open>
  The table of export counts has one entry per node name, and only names of nodes that answered
  with that many exports and were not in recovery; counting changes nothing in the process.
\<close>

theorem export_counts_of_answering_nodes:
  assumes "run_state (getNodeExportCounts E) s = (Done m, t)"
  shows "process t = process s \<and> distinct (map fst m) \<and>
    (\<forall>(name, k) \<in> set m. \<exists>(ip, st) \<in> set (nodeIPAddress s). name = ns_nodeName st \<and> \<not> inRecovery st \<and>
       answers_count E (nfsClientServicePort (nfsService s)) (ns_nodeIP st) k)"
  using count_exports_effect[of E "nodeIPAddress s" "[]" s m t] assms
  by (fastforce simp: getNodeExportCounts_def)

theorem export_counts_of_answering_nodes_witness:
  "\<exists>t. run_state (getNodeExportCounts sample_env)
      ((sample_state [])\<lparr>nodeIPAddress := [(''i'', initial_status ''n'' ''i'')]\<rparr>) = (Done [(''n'', 0)], t) \<and>
    nodeIPAddress t = [(''i'', initial_status ''n'' ''i'')]"
proof -
  obtain r t where run: "run_state (getNodeExportCounts sample_env)
      ((sample_state [])\<lparr>nodeIPAddress := [(''i'', initial_status ''n'' ''i'')]\<rparr>) = (r, t)" by fastforce
  moreover from run have r: "r = Done [(''n'', 0)]"
    by (auto simp: getNodeExportCounts_def getExports_def getNfsClient_def sample_defs initial_status_def)
  ultimately have "process t = process ((sample_state [])\<lparr>nodeIPAddress := [(''i'', initial_status ''n'' ''i'')]\<rparr>)"
    using export_counts_of_answering_nodes by blast
  from process_fields(6)[OF this] run r show ?thesis by auto
qed

end
