(* ===== verification/Kube_Laws.thy ===== *)
theory Kube_Laws
  imports K8s_Client
begin

text \<open>
  What the controller relies on in the Kubernetes API server: an object store, seen through a view
  \<open>V\<close> of the world. The laws are those of a server that answers (get, create, update and delete by
  namespace and name; a missing object is reported as \<open>not found\<close>, an existing one is not created
  again, an object is stored under its own name), and say that nothing else the program calls
  writes Services or EndpointSlices. Each law comes as a rule of the weakest-precondition calculus.
\<close>

section \<open>Definitions\<close>

type_synonym object_key = "string \<times> string"

record kube =
  k_services :: "object_key \<rightharpoonup> Service"
  k_slices :: "object_key \<rightharpoonup> EndpointSlice"

definition quiet :: "('w \<Rightarrow> kube) \<Rightarrow> ('w \<Rightarrow> 'a \<times> 'w) \<Rightarrow> bool" where
  "quiet V f \<longleftrightarrow> (\<forall>w. V (snd (f w)) = V w)"

definition get_law ::
  "('w \<Rightarrow> kube) \<Rightarrow> (kube \<Rightarrow> object_key \<rightharpoonup> 'v) \<Rightarrow> (string \<Rightarrow> string \<Rightarrow> 'w \<Rightarrow> (string + 'v) \<times> 'w) \<Rightarrow> bool" where
  "get_law V sel f \<longleftrightarrow> (\<forall>ns n w. V (snd (f ns n w)) = V w \<and>
     (case sel (V w) (ns, n) of
        None \<Rightarrow> \<exists>m. fst (f ns n w) = Inl m \<and> Contains m ''not found''
      | Some v \<Rightarrow> fst (f ns n w) = Inr v))"

definition create_law ::
  "('w \<Rightarrow> kube) \<Rightarrow> (kube \<Rightarrow> object_key \<rightharpoonup> 'v) \<Rightarrow> (((object_key \<rightharpoonup> 'v) \<Rightarrow> (object_key \<rightharpoonup> 'v)) \<Rightarrow> kube \<Rightarrow> kube) \<Rightarrow>
   ('v \<Rightarrow> string) \<Rightarrow> ('v \<Rightarrow> 'v \<Rightarrow> bool) \<Rightarrow> (string \<Rightarrow> 'v \<Rightarrow> 'w \<Rightarrow> (string + 'v) \<times> 'w) \<Rightarrow> bool" where
  "create_law V sel upd name filled f \<longleftrightarrow> (\<forall>ns v w.
     (case sel (V w) (ns, name v) of
        None \<Rightarrow> \<exists>v'. filled v v' \<and> fst (f ns v w) = Inr v' \<and>
          V (snd (f ns v w)) = upd (\<lambda>m. m((ns, name v) \<mapsto> v')) (V w)
      | Some _ \<Rightarrow> (\<exists>m. fst (f ns v w) = Inl m) \<and> V (snd (f ns v w)) = V w))"

text \<open>The server fills in a Service's cluster address; a slice is stored as it is given.\<close>

definition address_filled :: "Service \<Rightarrow> Service \<Rightarrow> bool" where
  "address_filled v v' \<longleftrightarrow> v' = v\<lparr>svc_clusterIP := svc_clusterIP v'\<rparr>"

definition update_law ::
  "('w \<Rightarrow> kube) \<Rightarrow> (kube \<Rightarrow> object_key \<rightharpoonup> 'v) \<Rightarrow> (((object_key \<rightharpoonup> 'v) \<Rightarrow> (object_key \<rightharpoonup> 'v)) \<Rightarrow> kube \<Rightarrow> kube) \<Rightarrow>
   ('v \<Rightarrow> string) \<Rightarrow> (string \<Rightarrow> 'v \<Rightarrow> 'w \<Rightarrow> (string + 'v) \<times> 'w) \<Rightarrow> bool" where
  "update_law V sel upd name f \<longleftrightarrow> (\<forall>ns v w.
     (case sel (V w) (ns, name v) of
        Some _ \<Rightarrow> fst (f ns v w) = Inr v \<and> V (snd (f ns v w)) = upd (\<lambda>m. m((ns, name v) \<mapsto> v)) (V w)
      | None \<Rightarrow> (\<exists>m. fst (f ns v w) = Inl m) \<and> V (snd (f ns v w)) = V w))"

definition delete_law ::
  "('w \<Rightarrow> kube) \<Rightarrow> (kube \<Rightarrow> object_key \<rightharpoonup> 'v) \<Rightarrow> (((object_key \<rightharpoonup> 'v) \<Rightarrow> (object_key \<rightharpoonup> 'v)) \<Rightarrow> kube \<Rightarrow> kube) \<Rightarrow>
   (string \<Rightarrow> string \<Rightarrow> 'w \<Rightarrow> err \<times> 'w) \<Rightarrow> bool" where
  "delete_law V sel upd f \<longleftrightarrow> (\<forall>ns n w.
     (case sel (V w) (ns, n) of
        Some _ \<Rightarrow> fst (f ns n w) = None \<and> V (snd (f ns n w)) = upd (\<lambda>m. m((ns, n) := None)) (V w)
      | None \<Rightarrow> fst (f ns n w) \<noteq> None \<and> V (snd (f ns n w)) = V w))"

text \<open>Every object is stored under its own namespace and name.\<close>

definition kube_wf :: "kube \<Rightarrow> bool" where
  "kube_wf k \<longleftrightarrow>
     (\<forall>ns n v. k_services k (ns, n) = Some v \<longrightarrow> svc_namespace v = ns \<and> svc_name v = n) \<and>
     (\<forall>ns n v. k_slices k (ns, n) = Some v \<longrightarrow> es_namespace v = ns \<and> es_name v = n)"

definition kube_laws :: "'w env \<Rightarrow> ('w \<Rightarrow> kube) \<Rightarrow> bool" where
  "kube_laws E V \<longleftrightarrow>
     get_law V k_services (cs_GetService (clientset E)) \<and>
     get_law V k_slices (cs_GetEndpointSlice (clientset E)) \<and>
     create_law V k_services k_services_update svc_name address_filled (cs_CreateService (clientset E)) \<and>
     create_law V k_slices k_slices_update es_name (=) (cs_CreateEndpointSlice (clientset E)) \<and>
     update_law V k_services k_services_update svc_name (cs_UpdateService (clientset E)) \<and>
     update_law V k_slices k_slices_update es_name (cs_UpdateEndpointSlice (clientset E)) \<and>
     delete_law V k_services k_services_update (cs_DeleteService (clientset E)) \<and>
     delete_law V k_slices k_slices_update (cs_DeleteEndpointSlice (clientset E)) \<and>
     quiet V (cs_ListNodes (clientset E)) \<and>
     (\<forall>n. quiet V (cs_GetNode (clientset E) n)) \<and> (\<forall>n. quiet V (cs_GetPersistentVolume (clientset E) n))"

text \<open>The other calls of the controller do not write Services or EndpointSlices.\<close>

definition outside_quiet :: "'w env \<Rightarrow> ('w \<Rightarrow> kube) \<Rightarrow> bool" where
  "outside_quiet E V \<longleftrightarrow>
     (\<forall>a. quiet V (grpc_NewClient (nfsClient E) a)) \<and>
     (\<forall>a r. quiet V (rpc_ExportNfsVolume (nfsClient E) a r)) \<and>
     (\<forall>a r. quiet V (rpc_UnexportNfsVolume (nfsClient E) a r)) \<and>
     (\<forall>r. quiet V (vcsi_ControllerPublishVolume (vcsi E) r)) \<and>
     (\<forall>r. quiet V (vcsi_ControllerUnpublishVolume (vcsi E) r)) \<and>
     quiet V (select_done (runtime E)) \<and> (\<forall>d w. V (time_Sleep (runtime E) d w) = V w)"

section \<open>Rules\<close>

lemma kube_lawsD:
  assumes "kube_laws E V"
  shows "get_law V k_services (cs_GetService (clientset E))"
    "get_law V k_slices (cs_GetEndpointSlice (clientset E))"
    "create_law V k_services k_services_update svc_name address_filled (cs_CreateService (clientset E))"
    "create_law V k_slices k_slices_update es_name (=) (cs_CreateEndpointSlice (clientset E))"
    "update_law V k_services k_services_update svc_name (cs_UpdateService (clientset E))"
    "update_law V k_slices k_slices_update es_name (cs_UpdateEndpointSlice (clientset E))"
    "delete_law V k_services k_services_update (cs_DeleteService (clientset E))"
    "delete_law V k_slices k_slices_update (cs_DeleteEndpointSlice (clientset E))"
    "quiet V (cs_ListNodes (clientset E))"
    "quiet V (cs_GetNode (clientset E) n)" "quiet V (cs_GetPersistentVolume (clientset E) n)"
  using assms by (simp_all add: kube_laws_def)

lemma outside_quietD:
  assumes "outside_quiet E V"
  shows "quiet V (grpc_NewClient (nfsClient E) a)" "quiet V (rpc_ExportNfsVolume (nfsClient E) a er)"
    "quiet V (rpc_UnexportNfsVolume (nfsClient E) a ur)" "quiet V (vcsi_ControllerPublishVolume (vcsi E) pr)"
    "quiet V (vcsi_ControllerUnpublishVolume (vcsi E) qr)" "quiet V (select_done (runtime E))"
    "V (time_Sleep (runtime E) d w) = V w"
  using assms by (simp_all add: outside_quiet_def)

lemma wp_quiet:
  assumes "quiet V f" and "\<And>a w. f (world s) = (a, w) \<Longrightarrow> V w = V (world s) \<Longrightarrow> Q a (s\<lparr>world := w\<rparr>)"
  shows "wp (ext f) Q s"
  using assms by (simp add: wp_def quiet_def)

text \<open>A quiet step: whatever it answers, the view is as before.\<close>

lemma wp_ext_quiet:
  assumes "quiet V f" and "\<And>a w. V w = V (world s) \<Longrightarrow> Q a (s\<lparr>world := w\<rparr>)"
  shows "wp (ext f) Q s"
  using assms by (simp add: wp_def quiet_def)

lemma wp_get_law:
  assumes "get_law V sel f"
    and "\<And>w m. V w = V (world s) \<Longrightarrow> sel (V (world s)) (ns, n) = None \<Longrightarrow> Contains m ''not found'' \<Longrightarrow>
      Q (Inl m) (s\<lparr>world := w\<rparr>)"
    and "\<And>w v. V w = V (world s) \<Longrightarrow> sel (V (world s)) (ns, n) = Some v \<Longrightarrow> Q (Inr v) (s\<lparr>world := w\<rparr>)"
  shows "wp (ext (f ns n)) Q s"
proof -
  note law = assms(1)[unfolded get_law_def, rule_format, of ns n "world s"]
  show ?thesis
    using law assms(2,3) by (cases "sel (V (world s)) (ns, n)") (auto simp: wp_def)
qed

lemma wp_create_law:
  assumes "create_law V sel upd name filled f"
    and "\<And>w m. V w = V (world s) \<Longrightarrow> sel (V (world s)) (ns, name v) \<noteq> None \<Longrightarrow> Q (Inl m) (s\<lparr>world := w\<rparr>)"
    and "\<And>w v'. V w = upd (\<lambda>m. m((ns, name v) \<mapsto> v')) (V (world s)) \<Longrightarrow> filled v v' \<Longrightarrow>
      sel (V (world s)) (ns, name v) = None \<Longrightarrow> Q (Inr v') (s\<lparr>world := w\<rparr>)"
  shows "wp (ext (f ns v)) Q s"
proof -
  note law = assms(1)[unfolded create_law_def, rule_format, of v ns "world s"]
  show ?thesis
    using law assms(2,3) by (cases "sel (V (world s)) (ns, name v)") (auto simp: wp_def)
qed

lemma wp_update_law:
  assumes "update_law V sel upd name f"
    and "\<And>w m. V w = V (world s) \<Longrightarrow> sel (V (world s)) (ns, name v) = None \<Longrightarrow> Q (Inl m) (s\<lparr>world := w\<rparr>)"
    and "\<And>w. V w = upd (\<lambda>m. m((ns, name v) \<mapsto> v)) (V (world s)) \<Longrightarrow>
      sel (V (world s)) (ns, name v) \<noteq> None \<Longrightarrow> Q (Inr v) (s\<lparr>world := w\<rparr>)"
  shows "wp (ext (f ns v)) Q s"
proof -
  note law = assms(1)[unfolded update_law_def, rule_format, of ns v "world s"]
  show ?thesis
    using law assms(2,3) by (cases "sel (V (world s)) (ns, name v)") (auto simp: wp_def)
qed

lemma wp_delete_law:
  assumes "delete_law V sel upd f"
    and "\<And>w m. V w = V (world s) \<Longrightarrow> sel (V (world s)) (ns, n) = None \<Longrightarrow> Q (Some m) (s\<lparr>world := w\<rparr>)"
    and "\<And>w. V w = upd (\<lambda>m. m((ns, n) := None)) (V (world s)) \<Longrightarrow>
      sel (V (world s)) (ns, n) \<noteq> None \<Longrightarrow> Q None (s\<lparr>world := w\<rparr>)"
  shows "wp (ext (f ns n)) Q s"
proof -
  note law = assms(1)[unfolded delete_law_def, rule_format, of ns n "world s"]
  show ?thesis
    using law assms(2,3) by (cases "sel (V (world s)) (ns, n)") (auto simp: wp_def)
qed

text \<open>The client's functions under the laws.\<close>

lemmas wp_GetService_law = wp_get_law[OF kube_lawsD(1), folded GetService_def]
lemmas wp_GetEndpointSlice_law = wp_get_law[OF kube_lawsD(2), folded GetEndpointSlice_def]
lemmas wp_CreateService_law = wp_create_law[OF kube_lawsD(3), folded CreateService_def]
lemmas wp_CreateEndpointSlice_law = wp_create_law[OF kube_lawsD(4), folded CreateEndpointSlice_def]
lemmas wp_UpdateService_law = wp_update_law[OF kube_lawsD(5), folded UpdateService_def]
lemmas wp_UpdateEndpointSlice_law = wp_update_law[OF kube_lawsD(6), folded UpdateEndpointSlice_def]
lemmas wp_DeleteService_law = wp_delete_law[OF kube_lawsD(7), folded DeleteService_def]
lemmas wp_DeleteEndpointSlice_law = wp_delete_law[OF kube_lawsD(8), folded DeleteEndpointSlice_def]

lemma wp_GetNodeByCSINodeID_law:
  assumes "kube_laws E V" and "\<And>r w. V w = V (world s) \<Longrightarrow> Q r (s\<lparr>world := w\<rparr>)"
  shows "wp (GetNodeByCSINodeID E k i) Q s"
  unfolding GetNodeByCSINodeID_def
  by (intro wp_bind wp_ext_quiet[OF kube_lawsD(9)[OF assms(1)]] wp_return) (rule assms(2))

text \<open>The view together with the process state: what a quiet computation keeps.\<close>

definition view :: "('w \<Rightarrow> kube) \<Rightarrow> 'w nfs_state \<Rightarrow> kube \<times> unit nfs_state" where
  "view V s = (V (world s), process s)"

lemma keeps_view_ext: "quiet V f \<Longrightarrow> keeps (view V) (ext f)"
  by (simp add: keeps_def view_def quiet_def)

lemma keeps_view_sleep: "outside_quiet E V \<Longrightarrow> keeps (view V) (sleep E d)"
  by (simp add: keeps_def view_def outside_quietD)

lemmas keeps_view_outside =
  keeps_view_ext[OF outside_quietD(1)] keeps_view_ext[OF outside_quietD(2)] keeps_view_ext[OF outside_quietD(3)]
  keeps_view_ext[OF outside_quietD(4)] keeps_view_ext[OF outside_quietD(5)] keeps_view_ext[OF outside_quietD(6)]
  keeps_view_sleep

lemma view_simps [simp]: "view V (s\<lparr>world := w\<rparr>) = (V w, process s)"
  by (simp add: view_def)

text \<open>The sample environment obeys the laws.\<close>

definition sample_view :: "sample_world \<Rightarrow> kube" where
  "sample_view w = \<lparr>k_services = map_of (w_services w), k_slices = map_of (w_slices w)\<rparr>"

lemma sample_kube: "kube_laws sample_env sample_view" "outside_quiet sample_env sample_view"
  by (auto simp: kube_laws_def outside_quiet_def get_law_def create_law_def update_law_def delete_law_def
      quiet_def address_filled_def sample_view_def sample_defs update_conv' delete_conv' HasPrefix_def split: option.splits)

end
