(* ===== verification/Controller.thy ===== *)
theory Controller
  imports Node_Monitor Kube_Laws
begin

text \<open>
  The CSI controller service (\<open>src/nfs/controller.go\<close>): creating a volume, publishing it to a
  node, which makes the first node its NFS server and records every node as a client on the
  Service, and unpublishing it, which takes everything down with the last client.

  A request whose fields the code overwrites is passed on updated; \<open>subreq := req\<close> copies a
  pointer, so the same updates reach the request of the caller. The export retry of
  \<open>makeNfsService\<close> ends with the request's context only; it takes fuel.
\<close>

section \<open>Definitions\<close>

definition DriverVolumeID :: string where "DriverVolumeID = ''driverVolumeID''"
definition ServiceName :: string where "ServiceName = ''ServiceName''"
definition DefaultNFSServerPort :: string where "DefaultNFSServerPort = ''2049''"

definition getRequestIDFromContext :: "request_ctx \<Rightarrow> string" where
  "getRequestIDFromContext ctx =
     (case ctx_metadata ctx of
        None \<Rightarrow> []
      | Some headers \<Rightarrow>
          (case gm_lookup headers ''csi.requestid'' of
             Some (req # _) \<Rightarrow> req
           | _ \<Rightarrow> []))"

definition status_error :: "string \<Rightarrow> string \<Rightarrow> string" where
  "status_error code desc = ''rpc error: code = '' @ code @ '' desc = '' @ desc"

definition block_capability :: VolumeCapability where
  "block_capability = \<lparr>cap_type = AccessBlock, cap_mode = MULTI_NODE_MULTI_WRITER\<rparr>"

definition create_subrequest :: "CreateVolumeRequest \<Rightarrow> CreateVolumeRequest" where
  "create_subrequest req = req\<lparr>cv_Parameters := gm_delete (cv_Parameters req) CsiNfsParameter,
     cv_VolumeCapabilities := [block_capability]\<rparr>"

definition CreateVolume ::
  "'w env \<Rightarrow> CreateVolumeRequest \<Rightarrow> ('w nfs_state, (CreateVolumeResponse option \<times> err) outcome) state" where
  "CreateVolume E req = do {
     (resp, e) \<leftarrow> ext (vcsi_CreateVolume (vcsi E) (create_subrequest req));
     State_Monad.return (case e of
       Some m \<Rightarrow> Done (resp, Some m)
     | None \<Rightarrow> (case resp of
         None \<Rightarrow> Panicked nil_deref_panic
       | Some r \<Rightarrow> (case cvr_VolumeId r of
           None \<Rightarrow> Panicked nil_deref_panic
         | Some v \<Rightarrow> Done (Some (r\<lparr>cvr_VolumeId := Some (ArrayToNFSVolumeID v)\<rparr>), None)))) }"

definition getServiceAndSlice ::
  "'w env \<Rightarrow> string \<Rightarrow> ('w nfs_state, Service option \<times> EndpointSlice option \<times> err) state" where
  "getServiceAndSlice E serviceName = do {
     r \<leftarrow> GetEndpointSlice E (DriverNamespace E) serviceName;
     case r of
       Inl m \<Rightarrow> State_Monad.return (None, None, Some m)
     | Inr endpoint \<Rightarrow> do {
         r \<leftarrow> GetService E (DriverNamespace E) serviceName;
         case r of
           Inl m \<Rightarrow> State_Monad.return (None, None, Some m)
         | Inr service \<Rightarrow> State_Monad.return (Some service, Some endpoint, None) } }"

definition callExportNfsVolume ::
  "'w env \<Rightarrow> string \<Rightarrow> ExportNfsVolumeRequest \<Rightarrow> ('w nfs_state, ExportNfsVolumeResponse option \<times> err) state" where
  "callExportNfsVolume E nodeIP req = do {
     s \<leftarrow> State_Monad.get;
     nodeClient \<leftarrow> getNfsClient E nodeIP (nfsClientServicePort (nfsService s));
     case nodeClient of
       Inl m \<Rightarrow> State_Monad.return (None, Some m)
     | Inr addr \<Rightarrow> ext (rpc_ExportNfsVolume (nfsClient E) addr req) }"

definition callUnexportNfsVolume ::
  "'w env \<Rightarrow> string \<Rightarrow> UnexportNfsVolumeRequest \<Rightarrow> ('w nfs_state, UnexportNfsVolumeResponse option \<times> err) state" where
  "callUnexportNfsVolume E nodeIP req = do {
     s \<leftarrow> State_Monad.get;
     nodeClient \<leftarrow> getNfsClient E nodeIP (nfsClientServicePort (nfsService s));
     case nodeClient of
       Inl m \<Rightarrow> State_Monad.return (None, Some m)
     | Inr addr \<Rightarrow> do {
         (resp, e) \<leftarrow> ext (rpc_UnexportNfsVolume (nfsClient E) addr req);
         State_Monad.return (case e of Some m \<Rightarrow> (None, Some m) | None \<Rightarrow> (resp, None)) } }"

text \<open>
  The loop \<open>exportRetry\<close>: \<open>None\<close> when the node has exported the volume, or the error of the
  request's context. The answer of a call that the end of the context overtakes is dropped.
\<close>

fun export_retry :: "'w env \<Rightarrow> nat \<Rightarrow> string \<Rightarrow> ExportNfsVolumeRequest \<Rightarrow> ('w nfs_state, err outcome) state" where
  "export_retry E 0 nodeIP req = State_Monad.return Running"
| "export_retry E (Suc fuel) nodeIP req = do {
     (_, e) \<leftarrow> callExportNfsVolume E nodeIP req;
     over \<leftarrow> ext (select_done (runtime E));
     if over then do {
       s \<leftarrow> State_Monad.get;
       State_Monad.return (Done (Some (status_error ''DeadlineExceeded'' (ctx_Err (runtime E) (world s))))) }
     else if e = None then State_Monad.return (Done None)
     else do {
       _ \<leftarrow> sleep E (10 * Second);
       export_retry E fuel nodeIP req } }"

text \<open>\<open>int32(port)\<close> truncates.\<close>

definition server_port :: "string \<Rightarrow> 32 word" where
  "server_port configured =
     (case Atoi configured of
        Some port \<Rightarrow> word_of_int port
      | None \<Rightarrow> (case Atoi DefaultNFSServerPort of Some port \<Rightarrow> word_of_int port | None \<Rightarrow> 0))"

definition make_slice :: "string \<Rightarrow> string \<Rightarrow> string \<Rightarrow> string \<Rightarrow> string \<Rightarrow> string \<Rightarrow> 32 word \<Rightarrow> EndpointSlice" where
  "make_slice namespace name pvName nid nodeIP arrayID port = \<lparr>
     es_name = name, es_namespace = namespace,
     es_labels = GoMap [(''nodeID'', nid), (''nodeIP'', nodeIP),
       (''kubernetes.io/service-name'', name), (''pvName'', pvName)],
     es_annotations = GoMap [(DriverVolumeID, arrayID)],
     es_addressType = ''IPv4'',
     es_endpoints = [\<lparr>ep_addresses = [nodeIP], ep_ready = Some True\<rparr>],
     es_ports = [(''nfs-server'', port)]\<rparr>"

definition client_label :: "string \<Rightarrow> string" where
  "client_label nid = ''client/'' @ nid"

definition make_service :: "string \<Rightarrow> string \<Rightarrow> string \<Rightarrow> string \<Rightarrow> string \<Rightarrow> string \<Rightarrow> 32 word \<Rightarrow> Service" where
  "make_service namespace name pvName nid nodeIP arrayID port = \<lparr>
     svc_name = name, svc_namespace = namespace,
     svc_labels = GoMap [(''NodeId'', nid), (client_label nid, nid),
       (''NodeIp'', nodeIP), (''pvName'', pvName)],
     svc_annotations = GoMap [(DriverVolumeID, arrayID)],
     svc_ports = [(''nfs-server'', port, ''TCP'')],
     svc_type = ''ClusterIP'', svc_clusterIP = []\<rparr>"

text \<open>\<open>makeNfsService\<close> after the host driver has published the volume with context \<open>ctx\<close>.\<close>

definition export_and_record ::
  "'w env \<Rightarrow> nat \<Rightarrow> string \<Rightarrow> string \<Rightarrow> string \<Rightarrow> string \<Rightarrow> string \<Rightarrow> string \<Rightarrow> smap \<Rightarrow>
   ('w nfs_state, (Service option \<times> err) outcome) state" where
  "export_and_record E fuel namespace name pvName nodeIP nid arrayID ctx = do {
     r \<leftarrow> export_retry E fuel nodeIP
       \<lparr>exp_VolumeId = ArrayToNFSVolumeID arrayID, exp_ExportNfsContext = ctx\<rparr>;
     case r of
       Running \<Rightarrow> State_Monad.return Running
     | Panicked m \<Rightarrow> State_Monad.return (Panicked m)
     | Done (Some m) \<Rightarrow> State_Monad.return (Done (None, Some m))
     | Done None \<Rightarrow> do {
         s \<leftarrow> State_Monad.get;
         let port = server_port (nfsServerPort (nfsService s));
         r \<leftarrow> CreateEndpointSlice E namespace
           (make_slice namespace name pvName nid nodeIP arrayID port);
         case r of
           Inl m \<Rightarrow> State_Monad.return (Done (None, Some m))
         | Inr _ \<Rightarrow> do {
             r \<leftarrow> CreateService E namespace
               (make_service namespace name pvName nid nodeIP arrayID port);
             State_Monad.return (case r of
               Inl m \<Rightarrow> Done (None, Some m)
             | Inr service \<Rightarrow> Done (Some service, None)) } } }"

definition makeNfsService ::
  "'w env \<Rightarrow> nat \<Rightarrow> string \<Rightarrow> string \<Rightarrow> string \<Rightarrow> string \<Rightarrow> ControllerPublishVolumeRequest \<Rightarrow>
   ('w nfs_state, (Service option \<times> err) outcome) state" where
  "makeNfsService E fuel namespace name pvName nodeIP req = (
     let nid = pub_NodeId req;
         arrayID = ToArrayVolumeID (pub_VolumeId req)
     in case gm_put (pub_VolumeContext req) ''shared-nfs'' [] of
          None \<Rightarrow> State_Monad.return (Panicked nil_map_panic)
        | Some vctx \<Rightarrow> do {
            (resp, e) \<leftarrow> ext (vcsi_ControllerPublishVolume (vcsi E)
              (req\<lparr>pub_VolumeId := arrayID, pub_VolumeContext := vctx,
                   pub_VolumeCapability := Some block_capability\<rparr>));
            case e of
              Some m \<Rightarrow> State_Monad.return (Done (None, Some m))
            | None \<Rightarrow> (case resp of
                None \<Rightarrow> State_Monad.return (Panicked nil_deref_panic)
              | Some subpublish \<Rightarrow>
                 (case Option.bind (gm_put vctx ServiceName name)
                         (\<lambda>ctx. gm_copy ctx (pubr_PublishContext subpublish)) of
                    None \<Rightarrow> State_Monad.return (Panicked nil_map_panic)
                  | Some ctx \<Rightarrow>
                      export_and_record E fuel namespace name pvName nodeIP nid arrayID ctx)) })"

definition addNodeToNfsService ::
  "'w env \<Rightarrow> Service \<Rightarrow> ControllerPublishVolumeRequest \<Rightarrow> ('w nfs_state, (Service option \<times> err) outcome) state" where
  "addNodeToNfsService E service req = (
     let nid = pub_NodeId req
     in if gm_get (svc_labels service) (client_label nid) = [] then
          (case gm_put (svc_labels service) (client_label nid) nid of
             None \<Rightarrow> State_Monad.return (Panicked nil_map_panic)
           | Some labels \<Rightarrow> do {
               r \<leftarrow> UpdateService E (svc_namespace service) (service\<lparr>svc_labels := labels\<rparr>);
               State_Monad.return (case r of
                 Inl m \<Rightarrow> Done (None, Some m)
               | Inr _ \<Rightarrow> Done (Some (service\<lparr>svc_labels := labels\<rparr>), None)) })
        else State_Monad.return (Done (Some service, None)))"

text \<open>The labels of the clients that remain.\<close>

definition client_keys :: "smap \<Rightarrow> string list" where
  "client_keys labels = filter (\<lambda>k. HasPrefix k ''client/'') (map fst (entries labels))"

definition removeNodeFromNfsService ::
  "'w env \<Rightarrow> Service \<Rightarrow> ControllerUnpublishVolumeRequest \<Rightarrow>
   ('w nfs_state, bool \<times> (string + Service)) state" where
  "removeNodeFromNfsService E service req = (
     let labels = gm_delete (svc_labels service) (client_label (unpub_NodeId req));
         nclients = length (client_keys labels)
     in do {
       r \<leftarrow> UpdateService E (svc_namespace service) (service\<lparr>svc_labels := labels\<rparr>);
       State_Monad.return (nclients = 0, r) })"

type_synonym publish_answer = "ControllerPublishVolumeResponse option \<times> err"

definition publish_volume ::
  "'w env \<Rightarrow> nat \<Rightarrow> ControllerPublishVolumeRequest \<Rightarrow> ('w nfs_state, publish_answer outcome) state" where
  "publish_volume E fuel req = (
     let name = gm_get (pub_VolumeContext req) ''Name'';
         serviceName = VolumeIDToServiceName (unicode_ToLower (runtime E)) (pub_VolumeId req);
         namespace = DriverNamespace E
     in do {
       r \<leftarrow> GetNodeByCSINodeID E (DriverName E) (pub_NodeId req);
       case r of
         Inl m \<Rightarrow> State_Monad.return (Done (None, Some (status_error ''Internal''
           (''could not retrieve Node '' @ pub_NodeId req @ '': '' @ m))))
       | Inr node \<Rightarrow>
         (case node_addresses node of
            [] \<Rightarrow> State_Monad.return (Done (None, Some (status_error ''Internal''
              (''could not determine address of Node '' @ pub_NodeId req))))
          | nodeIP # _ \<Rightarrow> do {
              (service, endpoint, _) \<leftarrow> getServiceAndSlice E serviceName;
              let resp = \<lparr>pubr_PublishContext = GoMap [(''name'', name), (CsiNfsPrefix, serviceName)]\<rparr>;
              if endpoint = None \<and> service = None then do {
                nodeStatus \<leftarrow> GetNodeStatus nodeIP;
                if (case nodeStatus of None \<Rightarrow> True | Some st \<Rightarrow> \<not> online st \<or> inRecovery st)
                then State_Monad.return (Done (None, Some (status_error ''ResourceExhausted''
                  (''Node  '' @ pub_NodeId req @ '' ('' @ nodeIP @ '') is not online or is in node recovery''))))
                else do {
                  r \<leftarrow> makeNfsService E fuel namespace serviceName name nodeIP req;
                  State_Monad.return (case r of
                    Done (_, e) \<Rightarrow> Done (Some resp, e)
                  | Panicked m \<Rightarrow> Panicked m | Running \<Rightarrow> Running) } }
              else (case (endpoint, service) of
                (Some _, Some service) \<Rightarrow> do {
                  r \<leftarrow> addNodeToNfsService E service req;
                  State_Monad.return (case r of
                    Done (_, e) \<Rightarrow> Done (Some resp, e)
                  | Panicked m \<Rightarrow> Panicked m | Running \<Rightarrow> Running) }
              | _ \<Rightarrow> State_Monad.return (Done (Some \<lparr>pubr_PublishContext = NilMap\<rparr>, None))) }) })"

definition ControllerPublishVolume ::
  "'w env \<Rightarrow> nat \<Rightarrow> request_ctx \<Rightarrow> ControllerPublishVolumeRequest \<Rightarrow> ('w nfs_state, publish_answer outcome) state" where
  "ControllerPublishVolume E fuel ctx req =
     locked (LockPV E fuel (pub_VolumeId req) (getRequestIDFromContext ctx) False)
       (UnlockPV (pub_VolumeId req)) (publish_volume E fuel req)"

text \<open>
  Taking a volume down after its last client. The messages of \<open>ControllerUnpublishVolume\<close>'s
  response have no fields, so its answer is the error alone.
\<close>

definition remove_service ::
  "'w env \<Rightarrow> string \<Rightarrow> string \<Rightarrow> Service \<Rightarrow> EndpointSlice \<Rightarrow> ControllerUnpublishVolumeRequest \<Rightarrow>
   ('w nfs_state, err outcome) state" where
  "remove_service E serviceName nodeIP service es req = do {
     (_, e) \<leftarrow> callUnexportNfsVolume E nodeIP \<lparr>unexp_VolumeId = unpub_VolumeId req,
       unexp_UnexportNfsContext = GoMap [(ServiceName, serviceName)]\<rparr>;
     if (case e of None \<Rightarrow> False
         | Some m \<Rightarrow> \<not> Contains m ''i/o timeout'' \<and> \<not> Contains m ''no route to host'')
     then State_Monad.return (Done e)
     else do {
       e \<leftarrow> DeleteEndpointSlice E (es_namespace es) serviceName;
       case e of
         Some m \<Rightarrow> State_Monad.return (Done (Some m))
       | None \<Rightarrow> do {
           e \<leftarrow> DeleteService E (svc_namespace service) serviceName;
           case e of
             Some m \<Rightarrow> State_Monad.return (Done (Some m))
           | None \<Rightarrow> do {
               e \<leftarrow> ext (vcsi_ControllerUnpublishVolume (vcsi E)
                 \<lparr>unpub_VolumeId = ToArrayVolumeID (unpub_VolumeId req),
                  unpub_NodeId = gm_get (es_labels es) ''nodeID''\<rparr>);
               State_Monad.return (Done e) } } } }"

definition unpublish_volume ::
  "'w env \<Rightarrow> ControllerUnpublishVolumeRequest \<Rightarrow> ('w nfs_state, err outcome) state" where
  "unpublish_volume E req = (
     let serviceName = VolumeIDToServiceName (unicode_ToLower (runtime E)) (unpub_VolumeId req)
     in do {
       (service, es, e) \<leftarrow> getServiceAndSlice E serviceName;
       case e of
         Some m \<Rightarrow> State_Monad.return (Done (if Contains m ''not found'' then None else Some m))
       | None \<Rightarrow>
         (case (service, es) of
            (Some service, Some es) \<Rightarrow>
              (if es_endpoints es \<noteq> [] \<and> ep_addresses (hd (es_endpoints es)) = []
               then State_Monad.return (Panicked index_panic)
               else
                 let nodeIP = (if es_endpoints es = [] then [] else hd (ep_addresses (hd (es_endpoints es))))
                 in if nodeIP = [] then State_Monad.return (Done (Some
                      (''no IP address found for endpointslice: '' @ fmt_EndpointSlice (runtime E) es)))
                    else do {
                      (lastClient, r) \<leftarrow> removeNodeFromNfsService E service req;
                      case r of
                        Inl m \<Rightarrow> State_Monad.return (Done (Some (''removeNodeFromNfsService failed: '' @ m)))
                      | Inr service \<Rightarrow>
                          if lastClient then remove_service E serviceName nodeIP service es req
                          else State_Monad.return (Done None) })
          | _ \<Rightarrow> State_Monad.return (Panicked nil_deref_panic)) })"

definition ControllerUnpublishVolume ::
  "'w env \<Rightarrow> nat \<Rightarrow> request_ctx \<Rightarrow> ControllerUnpublishVolumeRequest \<Rightarrow> ('w nfs_state, err outcome) state" where
  "ControllerUnpublishVolume E fuel ctx req =
     locked (LockPV E fuel (unpub_VolumeId req) (getRequestIDFromContext ctx) False)
       (UnlockPV (unpub_VolumeId req)) (unpublish_volume E req)"

subsection \<open>Calls without an implementation\<close>

text \<open>They answer with an empty message and no error, \<open>ControllerGetVolume\<close> with an error.\<close>

definition DeleteVolume :: err where "DeleteVolume = None"
definition ValidateVolumeCapabilities :: err where "ValidateVolumeCapabilities = None"
definition ListVolumes :: err where "ListVolumes = None"
definition GetCapacity :: err where "GetCapacity = None"
definition ControllerGetCapabilities :: err where "ControllerGetCapabilities = None"
definition CreateSnapshot :: err where "CreateSnapshot = None"
definition DeleteSnapshot :: err where "DeleteSnapshot = None"
definition ListSnapshots :: err where "ListSnapshots = None"
definition ControllerExpandVolume :: err where "ControllerExpandVolume = None"
definition ControllerGetVolume :: err where
  "ControllerGetVolume = Some (status_error ''Code(400)'' ''Not implemented'')"

section \<open>Lemmas\<close>

subsection \<open>Frames\<close>

text \<open>The record of an object in the store and its key.\<close>

abbreviation service_key :: "'w env \<Rightarrow> string \<Rightarrow> object_key" where
  "service_key E vid \<equiv> (DriverNamespace E, VolumeIDToServiceName (unicode_ToLower (runtime E)) vid)"

lemma keeps_view_getNfsClient: "outside_quiet E V \<Longrightarrow> keeps (view V) (getNfsClient E ip port)"
  unfolding getNfsClient_def by (intro frame keeps_view_outside)

lemma keeps_view_calls:
  assumes "outside_quiet E V"
  shows "keeps (view V) (callExportNfsVolume E ip req)" "keeps (view V) (callUnexportNfsVolume E ip req')"
  unfolding callExportNfsVolume_def callUnexportNfsVolume_def
  by (intro frame keeps_view_getNfsClient keeps_view_outside assms)+

lemma keeps_view_export_retry: "outside_quiet E V \<Longrightarrow> keeps (view V) (export_retry E n ip req)"
  by (induction n) (auto intro!: frame keeps_view_calls keeps_view_outside simp del: run_state_bind)

lemma wp_view:
  assumes "keeps (view V) m" and "\<And>a t. V (world t) = V (world s) \<Longrightarrow> process t = process s \<Longrightarrow> Q a t"
  shows "wp m Q s"
  using assms by (simp add: keeps_def wp_def view_def)

subsection \<open>Looking up\<close>

lemma getServiceAndSlice_both_or_neither:
  "run_state (getServiceAndSlice E sn) s = ((service, es, e), t) \<Longrightarrow>
   (service = None \<longleftrightarrow> es = None) \<and> (e = None \<longleftrightarrow> service \<noteq> None)"
  by (auto simp: getServiceAndSlice_def GetEndpointSlice_def GetService_def split: sum.splits prod.splits)

lemma wp_getServiceAndSlice_law:
  assumes "kube_laws E V"
    and "\<And>w m. V w = V (world s) \<Longrightarrow> k_slices (V (world s)) (DriverNamespace E, sn) = None \<or>
        k_services (V (world s)) (DriverNamespace E, sn) = None \<Longrightarrow> Contains m ''not found'' \<Longrightarrow>
      Q (None, None, Some m) (s\<lparr>world := w\<rparr>)"
    and "\<And>w service es. V w = V (world s) \<Longrightarrow> k_slices (V (world s)) (DriverNamespace E, sn) = Some es \<Longrightarrow>
        k_services (V (world s)) (DriverNamespace E, sn) = Some service \<Longrightarrow>
      Q (Some service, Some es, None) (s\<lparr>world := w\<rparr>)"
  shows "wp (getServiceAndSlice E sn) Q s"
  unfolding getServiceAndSlice_def
  by (intro wp wp_GetEndpointSlice_law[OF assms(1)] wp_GetService_law[OF assms(1)])
     (auto intro: assms(2,3))

subsection \<open>Publishing\<close>

text \<open>
  What a call to publish may leave in the store. With a Service and a slice in place the node
  becomes one of its clients, if it is not yet; otherwise a success has created both, for an online
  node that is not in recovery.
\<close>

definition client_added ::
  "('w \<Rightarrow> kube) \<Rightarrow> object_key \<Rightarrow> string \<Rightarrow> 'w nfs_state \<Rightarrow> 'w nfs_state \<Rightarrow> bool" where
  "client_added V K nid s t \<longleftrightarrow> (\<exists>service labels.
     k_services (V (world s)) K = Some service \<and> k_slices (V (world s)) K \<noteq> None \<and>
     (if gm_get (svc_labels service) (client_label nid) = []
      then gm_put (svc_labels service) (client_label nid) nid = Some labels
      else labels = svc_labels service) \<and>
     V (world t) = (V (world s))\<lparr>k_services := (k_services (V (world s)))(K \<mapsto> service\<lparr>svc_labels := labels\<rparr>)\<rparr>)"

definition objects_created ::
  "('w \<Rightarrow> kube) \<Rightarrow> object_key \<Rightarrow> string \<Rightarrow> string \<Rightarrow> string \<Rightarrow> string \<Rightarrow> 'w nfs_state \<Rightarrow> 'w nfs_state \<Rightarrow> bool" where
  "objects_created V K pvName nid ip arrayID s t \<longleftrightarrow> (\<exists>service.
     let port = server_port (nfsServerPort (nfsService s));
         namespace = fst K; name = snd K
     in k_services (V (world s)) K = None \<and> k_slices (V (world s)) K = None \<and>
        address_filled (make_service namespace name pvName nid ip arrayID port) service \<and>
        V (world t) = (V (world s))
          \<lparr>k_slices := (k_slices (V (world s)))(K \<mapsto> make_slice namespace name pvName nid ip arrayID port),
           k_services := (k_services (V (world s)))(K \<mapsto> service)\<rparr>)"

definition service_created ::
  "('w \<Rightarrow> kube) \<Rightarrow> object_key \<Rightarrow> string \<Rightarrow> string \<Rightarrow> string \<Rightarrow> 'w nfs_state \<Rightarrow> 'w nfs_state \<Rightarrow> bool" where
  "service_created V K pvName nid arrayID s t \<longleftrightarrow> (\<exists>ip st.
     map_of (nodeIPAddress s) ip = Some st \<and> online st \<and> \<not> inRecovery st \<and>
     objects_created V K pvName nid ip arrayID s t)"

definition ended_ok :: "('a \<times> err) outcome \<Rightarrow> bool" where
  "ended_ok r \<longleftrightarrow> (\<exists>a. r = Done (a, None))"

text \<open>
  Otherwise the store is as before; only a Service without a slice makes a failing call leave the
  slice behind.
\<close>

definition publish_result ::
  "'w env \<Rightarrow> ('w \<Rightarrow> kube) \<Rightarrow> ControllerPublishVolumeRequest \<Rightarrow> 'w nfs_state \<Rightarrow>
   publish_answer outcome \<Rightarrow> 'w nfs_state \<Rightarrow> bool" where
  "publish_result E V req s r t \<longleftrightarrow> (
     let K = service_key E (pub_VolumeId req);
         name = gm_get (pub_VolumeContext req) ''Name'';
         resp = \<lparr>pubr_PublishContext = GoMap [(''name'', name), (CsiNfsPrefix, snd K)]\<rparr>
     in if ended_ok r
        then r = Done (Some resp, None) \<and>
          (client_added V K (pub_NodeId req) s t \<or>
           service_created V K name (pub_NodeId req) (ToArrayVolumeID (pub_VolumeId req)) s t)
        else V (world t) = V (world s) \<or> k_services (V (world s)) K \<noteq> None \<and> k_slices (V (world s)) K = None)"

lemma ended_ok_simps [simp]:
  "ended_ok (Done (a, e)) \<longleftrightarrow> e = None" "\<not> ended_ok (Panicked m)" "\<not> ended_ok Running"
  by (auto simp: ended_ok_def)

lemma publish_resultI:
  "V (world t) = V (world s) \<Longrightarrow> e \<noteq> None \<Longrightarrow> publish_result E V req s (Done (a, e)) t"
  by (auto simp: publish_result_def Let_def)

lemma kube_wfD:
  assumes "kube_wf k"
  shows "k_services k (ns, n) = Some v \<Longrightarrow> svc_namespace v = ns \<and> svc_name v = n"
    "k_slices k (ns, n) = Some e \<Longrightarrow> es_namespace e = ns \<and> es_name e = n"
  using assms by (auto simp: kube_wf_def)

lemma store_same: "k_services k K = Some v \<Longrightarrow> k\<lparr>k_services := (k_services k)(K \<mapsto> v)\<rparr> = k"
  by (simp add: fun_upd_idem)

lemma addNode_effect:
  assumes "kube_laws E V" and "kube_wf (V (world s))"
    and "k_services (V (world s)) K = Some service" and "k_slices (V (world s)) K \<noteq> None"
  shows "wp (addNodeToNfsService E service req) (\<lambda>r t.
    if ended_ok r then client_added V K (pub_NodeId req) s t else V (world t) = V (world s)) s"
proof -
  have key: "(svc_namespace service, svc_name service) = K"
    using kube_wfD(1)[OF assms(2), of "fst K" "snd K" service] assms(3) by simp
  have upd: "wp (UpdateService E (svc_namespace service) (service\<lparr>svc_labels := labels\<rparr>)) Q s"
    if "\<And>w. V w = (V (world s))\<lparr>k_services := (k_services (V (world s)))(K \<mapsto> service\<lparr>svc_labels := labels\<rparr>)\<rparr> \<Longrightarrow>
      Q (Inr (service\<lparr>svc_labels := labels\<rparr>)) (s\<lparr>world := w\<rparr>)" for labels Q
    by (rule wp_UpdateService_law[OF assms(1)]) (use key assms(3) that in auto)
  show ?thesis unfolding addNodeToNfsService_def
    by (intro wp_let wp_if wp_case_option wp_return wp_bind upd)
       (auto simp: client_added_def assms store_same)
qed


lemma made_names [simp]:
  "es_name (make_slice ns n p i ip a port) = n" "svc_name (make_service ns n p i ip a port) = n"
  "es_namespace (make_slice ns n p i ip a port) = ns" "svc_namespace (make_service ns n p i ip a port) = ns"
  by (simp_all add: make_slice_def make_service_def)

lemma export_and_record_effect:
  assumes "kube_laws E V" and "outside_quiet E V"
  shows "wp (export_and_record E fuel namespace name pvName ip nid arrayID ctx)
    (\<lambda>r t. if ended_ok r then objects_created V (namespace, name) pvName nid ip arrayID s t
      else V (world t) = V (world s) \<or>
        k_services (V (world s)) (namespace, name) \<noteq> None \<and> k_slices (V (world s)) (namespace, name) = None) s"
  unfolding export_and_record_def
  by (intro wp wp_view[OF keeps_view_export_retry[OF assms(2)]] wp_CreateEndpointSlice_law[OF assms(1)]
      wp_CreateService_law[OF assms(1)])
     (auto simp: objects_created_def Let_def dest!: process_fields(8))

lemma objects_created_cong:
  assumes "V (world u) = V (world s)" and "process u = process s"
  shows "objects_created V K p n ip a u t = objects_created V K p n ip a s t"
  using assms process_fields(8)[OF assms(2)] by (simp add: objects_created_def Let_def)

lemma client_added_cong: "V (world u) = V (world s) \<Longrightarrow> client_added V K n u t = client_added V K n s t"
  by (simp add: client_added_def)

lemma makeNfsService_effect:
  assumes "kube_laws E V" and "outside_quiet E V"
  shows "wp (makeNfsService E fuel namespace name pvName ip req) (\<lambda>r t.
    if ended_ok r
    then objects_created V (namespace, name) pvName (pub_NodeId req) ip (ToArrayVolumeID (pub_VolumeId req)) s t
    else V (world t) = V (world s) \<or>
      k_services (V (world s)) (namespace, name) \<noteq> None \<and> k_slices (V (world s)) (namespace, name) = None) s"
  unfolding makeNfsService_def
  by (intro wp_let wp_case_option wp_bind wp_case_prod wp_return wp_ext_quiet[OF outside_quietD(4)[OF assms(2)]]
      wp_mono[OF export_and_record_effect[OF assms]])
     (auto simp: objects_created_def)

lemma publish_volume_effect:
  fixes E :: "'w env"
  assumes "kube_laws E V" and "outside_quiet E V" and "kube_wf (V (world s))"
  shows "wp (publish_volume E fuel req) (publish_result E V req s) s"
proof -
  let ?K = "service_key E (pub_VolumeId req)"
  have add: "wp (addNodeToNfsService E service req) (\<lambda>r t.
      if ended_ok r then client_added V ?K (pub_NodeId req) s t else V (world t) = V (world s)) u"
    if "V (world u) = V (world s)" "k_services (V (world s)) ?K = Some service" "k_slices (V (world s)) ?K = Some es"
    for u :: "'w nfs_state" and service es
    by (rule wp_mono[OF addNode_effect[OF assms(1)]])
       (use that assms(3) client_added_cong[OF that(1)] in \<open>auto split: if_splits\<close>)
  have make: "wp (makeNfsService E fuel (fst ?K) (snd ?K) name ip req) (\<lambda>r t.
      if ended_ok r then service_created V ?K name (pub_NodeId req) (ToArrayVolumeID (pub_VolumeId req)) s t
      else V (world t) = V (world s) \<or> k_services (V (world s)) ?K \<noteq> None \<and> k_slices (V (world s)) ?K = None) u"
    if "V (world u) = V (world s)" "process u = process s" "\<not> (case map_of (nodeIPAddress s) ip of None \<Rightarrow> True | Some st \<Rightarrow> \<not> online st \<or> inRecovery st)"
    for u :: "'w nfs_state" and ip name
  proof -
    from that(3) obtain st where st: "map_of (nodeIPAddress s) ip = Some st \<and> online st \<and> \<not> inRecovery st"
      by (auto split: option.splits)
    note same = that(1) objects_created_cong[OF that(1,2)]
    have made: "service_created V ?K name nid a s t" if "objects_created V ?K name nid ip a s t" for nid a and t :: "'w nfs_state"
      unfolding service_created_def using st that by blast
    show ?thesis
      by (rule wp_mono[OF makeNfsService_effect[OF assms(1,2)]]) (use same made in \<open>auto split: if_splits\<close>)
  qed
  have pass: "wp (State_Monad.return (case r of Done (_, e) \<Rightarrow> Done (Some resp, e)
      | Panicked m \<Rightarrow> Panicked m | Running \<Rightarrow> Running)) (publish_result E V req s) t"
    if "if ended_ok r then client_added V ?K (pub_NodeId req) s t \<or>
        service_created V ?K (gm_get (pub_VolumeContext req) ''Name'') (pub_NodeId req) (ToArrayVolumeID (pub_VolumeId req)) s t
        else V (world t) = V (world s) \<or> k_services (V (world s)) ?K \<noteq> None \<and> k_slices (V (world s)) ?K = None"
      and "resp = \<lparr>pubr_PublishContext = GoMap [(''name'', gm_get (pub_VolumeContext req) ''Name''), (CsiNfsPrefix, snd ?K)]\<rparr>"
    for r :: "(Service option \<times> err) outcome" and resp and t :: "'w nfs_state"
    using that by (cases r) (auto simp: wp_def publish_result_def Let_def split: if_splits)
  show ?thesis unfolding publish_volume_def GetNodeStatus_def
    apply (intro wp_let wp_bind wp_GetNodeByCSINodeID_law[OF assms(1)] wp_case_sum wp_case_list wp_return
      wp_getServiceAndSlice_law[OF assms(1)] wp_case_prod wp_if wp_get wp_case_option publish_resultI)
    apply simp_all
    subgoal by (rule wp_mono[OF make[simplified]]) (auto intro!: pass split: if_splits)
    subgoal by (rule wp_mono[OF add]) (auto intro!: pass split: if_splits)
    done
qed

subsection \<open>Unpublishing\<close>

text \<open>What a call to unpublish may leave in the store.\<close>

definition missing :: "kube \<Rightarrow> object_key \<Rightarrow> bool" where
  "missing k K \<longleftrightarrow> k_slices k K = None \<or> k_services k K = None"

definition without_client :: "string \<Rightarrow> Service \<Rightarrow> Service" where
  "without_client nid service = service\<lparr>svc_labels := gm_delete (svc_labels service) (client_label nid)\<rparr>"

definition label_removed ::
  "('w \<Rightarrow> kube) \<Rightarrow> object_key \<Rightarrow> string \<Rightarrow> bool \<Rightarrow> 'w nfs_state \<Rightarrow> 'w nfs_state \<Rightarrow> bool" where
  "label_removed V K nid clients s t \<longleftrightarrow> (\<exists>service.
     k_services (V (world s)) K = Some service \<and> k_slices (V (world s)) K \<noteq> None \<and>
     (clients \<longrightarrow> client_keys (svc_labels (without_client nid service)) \<noteq> []) \<and>
     V (world t) = (V (world s))\<lparr>k_services := (k_services (V (world s)))(K \<mapsto> without_client nid service)\<rparr>)"

definition volume_removed ::
  "'w env \<Rightarrow> ('w \<Rightarrow> kube) \<Rightarrow> object_key \<Rightarrow> string \<Rightarrow> string \<Rightarrow> err \<Rightarrow> 'w nfs_state \<Rightarrow> 'w nfs_state \<Rightarrow> bool" where
  "volume_removed E V K arrayID nid e s t \<longleftrightarrow> (\<exists>service es w.
     k_services (V (world s)) K = Some service \<and> k_slices (V (world s)) K = Some es \<and>
     client_keys (svc_labels (without_client nid service)) = [] \<and>
     vcsi_ControllerUnpublishVolume (vcsi E)
       \<lparr>unpub_VolumeId = arrayID, unpub_NodeId = gm_get (es_labels es) ''nodeID''\<rparr> w = (e, world t) \<and>
     V (world t) = (V (world s))\<lparr>k_slices := (k_slices (V (world s)))(K := None),
       k_services := (k_services (V (world s)))(K := None)\<rparr>)"

definition unpublish_result ::
  "'w env \<Rightarrow> ('w \<Rightarrow> kube) \<Rightarrow> ControllerUnpublishVolumeRequest \<Rightarrow> 'w nfs_state \<Rightarrow>
   err outcome \<Rightarrow> 'w nfs_state \<Rightarrow> bool" where
  "unpublish_result E V req s r t \<longleftrightarrow> (
     let K = service_key E (unpub_VolumeId req); nid = unpub_NodeId req;
         arrayID = ToArrayVolumeID (unpub_VolumeId req);
         unchanged = (V (world t) = V (world s))
     in if missing (V (world s)) K then r = Done None \<and> unchanged
        else if r = Done None then label_removed V K nid True s t \<or> volume_removed E V K arrayID nid None s t
        else unchanged \<or> label_removed V K nid False s t \<or>
          (\<exists>m. r = Done (Some m) \<and> volume_removed E V K arrayID nid (Some m) s t))"

lemma label_removed_removed:
  "label_removed V K nid True s t \<Longrightarrow> \<not> missing (V (world s)) K \<and> \<not> missing (V (world t)) K"
  by (auto simp: label_removed_def missing_def)

lemma unpublish_resultI:
  "V (world t) = V (world s) \<Longrightarrow> \<not> missing (V (world s)) K \<Longrightarrow> r \<noteq> Done None \<Longrightarrow>
     K = service_key E (unpub_VolumeId req) \<Longrightarrow> unpublish_result E V req s r t"
  "label_removed V K (unpub_NodeId req) (r = Done None) s t \<Longrightarrow>
     K = service_key E (unpub_VolumeId req) \<Longrightarrow> unpublish_result E V req s r t"
  "volume_removed E V K (ToArrayVolumeID (unpub_VolumeId req)) (unpub_NodeId req) e s t \<Longrightarrow>
     K = service_key E (unpub_VolumeId req) \<Longrightarrow> unpublish_result E V req s (Done e) t"
  "V (world t) = V (world s) \<Longrightarrow> missing (V (world s)) K \<Longrightarrow>
     K = service_key E (unpub_VolumeId req) \<Longrightarrow> unpublish_result E V req s (Done None) t"
  by (auto simp: unpublish_result_def Let_def label_removed_def volume_removed_def missing_def; cases e; simp)+

lemma remove_service_effect:
  fixes E :: "'w env"
  assumes "kube_laws E V" and "outside_quiet E V"
    and "k_services (V (world s)) K = Some service" and "k_slices (V (world s)) K = Some es"
    and "client_keys (svc_labels (without_client (unpub_NodeId req) service)) = []"
    and "V (world u) = (V (world s))\<lparr>k_services := (k_services (V (world s)))(K \<mapsto> without_client (unpub_NodeId req) service)\<rparr>"
    and "K = (es_namespace es, sn)" and "K = (svc_namespace service, sn)" and "K = service_key E (unpub_VolumeId req)"
  shows "wp (remove_service E sn ip (without_client (unpub_NodeId req) service) es req) (unpublish_result E V req s) u"
proof -
  let ?s' = "(V (world s))\<lparr>k_services := (k_services (V (world s)))(K \<mapsto> without_client (unpub_NodeId req) service)\<rparr>"
  have failed: "unpublish_result E V req s (Done e) t" if "e \<noteq> None" and "V (world t) = ?s'" for e and t :: "'w nfs_state"
    by (rule unpublish_resultI(2)[OF _ assms(9)]) (use assms(3,4) that in \<open>auto simp: label_removed_def\<close>)
  have gone: "unpublish_result E V req s (Done e) t"
    if "vcsi_ControllerUnpublishVolume (vcsi E)
       \<lparr>unpub_VolumeId = ToArrayVolumeID (unpub_VolumeId req), unpub_NodeId = gm_get (es_labels es) ''nodeID''\<rparr> w = (e, world t)"
      and "V (world t) = (V (world s))\<lparr>k_slices := (k_slices (V (world s)))(K := None),
       k_services := (k_services (V (world s)))(K := None)\<rparr>" for e w and t :: "'w nfs_state"
    by (rule unpublish_resultI(3)[OF _ assms(9)]) (use assms(3-5) that in \<open>auto simp: volume_removed_def\<close>)
  have ns: "svc_namespace (without_client (unpub_NodeId req) service) = svc_namespace service"
    by (simp add: without_client_def)
  show ?thesis unfolding remove_service_def ns
    by (intro wp_bind wp_view[OF keeps_view_calls(2)[OF assms(2)]] wp_case_prod wp_case_option wp_if wp_return
        wp_DeleteEndpointSlice_law[OF assms(1)] wp_DeleteService_law[OF assms(1)] wp_quiet[OF outside_quietD(5)[OF assms(2)]])
       (use assms(4,6,7,8) in \<open>auto intro: failed gone split: option.splits\<close>)
qed

lemma unpublish_volume_effect:
  fixes E :: "'w env"
  assumes "kube_laws E V" and "outside_quiet E V" and "kube_wf (V (world s))"
  shows "wp (unpublish_volume E req) (unpublish_result E V req s) s"
proof -
  let ?K = "service_key E (unpub_VolumeId req)"
  have upd: "wp (UpdateService E (svc_namespace service) (service\<lparr>svc_labels := labels\<rparr>)) Q u"
    if "V (world u) = V (world s)" "k_services (V (world s)) ?K = Some service"
      and labels: "labels = gm_delete (svc_labels service) (client_label (unpub_NodeId req))"
      and "\<And>w. V w = (V (world s))\<lparr>k_services := (k_services (V (world s)))(?K \<mapsto> without_client (unpub_NodeId req) service)\<rparr> \<Longrightarrow>
        Q (Inr (without_client (unpub_NodeId req) service)) (u\<lparr>world := w\<rparr>)" for labels Q service and u :: "'w nfs_state"
    by (rule wp_UpdateService_law[OF assms(1)])
       (use kube_wfD(1)[OF assms(3) that(2)] that in \<open>auto simp: without_client_def\<close>)
  have rem: "wp (remove_service E (snd ?K) ip (without_client (unpub_NodeId req) service) es req) (unpublish_result E V req s) u"
    if "k_services (V (world s)) ?K = Some service" "k_slices (V (world s)) ?K = Some es"
      "client_keys (gm_delete (svc_labels service) (client_label (unpub_NodeId req))) = []"
      "V (world u) = (V (world s))\<lparr>k_services := (k_services (V (world s)))(?K \<mapsto> without_client (unpub_NodeId req) service)\<rparr>"
    for service es ip and u :: "'w nfs_state"
    by (rule remove_service_effect[OF assms(1,2) that(1,2) _ that(4)])
       (use kube_wfD(1)[OF assms(3) that(1)] kube_wfD(2)[OF assms(3) that(2)] that(3) in \<open>auto simp: without_client_def\<close>)
  show ?thesis unfolding unpublish_volume_def removeNodeFromNfsService_def
    apply (intro wp_let wp_bind wp_case_sum wp_case_list wp_return upd
      wp_getServiceAndSlice_law[OF assms(1)] wp_case_prod wp_if wp_get wp_case_option)
                  apply (simp_all add: rem[simplified])
    subgoal by (rule unpublish_resultI(4)[OF _ _ refl]) (auto simp: missing_def)
    subgoal by (rule unpublish_resultI(1)[OF _ _ _ refl]) (auto simp: missing_def)
    subgoal by (rule unpublish_resultI(1)[OF _ _ _ refl]) (auto simp: missing_def)
    subgoal by (rule unpublish_resultI(2)[OF _ refl]) (auto simp: label_removed_def without_client_def)
    done
qed

subsection \<open>Handlers under their lock\<close>

lemma keeps_process_calls [frame]:
  "keeps process (callExportNfsVolume E ip req)" "keeps process (callUnexportNfsVolume E ip req')"
  unfolding callExportNfsVolume_def callUnexportNfsVolume_def getNfsClient_def
  by (intro frame keeps_process_ext)+

lemma keeps_process_export_retry [frame]: "keeps process (export_retry E n ip req)"
  by (induction n) (auto intro!: frame simp del: run_state_bind)

lemma keeps_process_handlers:
  "keeps process (publish_volume E fuel req)" "keeps process (unpublish_volume E req')"
  unfolding publish_volume_def unpublish_volume_def getServiceAndSlice_def GetNodeStatus_def
    makeNfsService_def export_and_record_def addNodeToNfsService_def removeNodeFromNfsService_def remove_service_def
  by (intro frame keeps_case_list)+

lemma process_unlocked:
  assumes "PVLock s k = None" and "process v = process (s\<lparr>PVLock := (PVLock s)(k \<mapsto> rid)\<rparr>)"
  shows "process (v\<lparr>PVLock := Delete (PVLock v) k\<rparr>) = process s"
  using assms process_fields(1)[OF assms(2)] by (auto simp: process_def Delete_def fun_eq_iff)

text \<open>
  A handler under its lock does what its body does, if that depends on the world and on the node
  table and the settings only, and gives the lock back.
\<close>

lemma controller_locked:
  assumes "run_state (locked (LockPV E n k rid prio) (UnlockPV k) body) s = (r, t)" and "r \<noteq> Running"
    and "keeps process body" and "\<And>u. world u = world s \<Longrightarrow> wp body (Q u) u"
    and "\<And>u v p t. world u = world s \<Longrightarrow> nodeIPAddress u = nodeIPAddress s \<Longrightarrow> nfsService u = nfsService s \<Longrightarrow>
      world v = world t \<Longrightarrow> Q u r v \<Longrightarrow> Q s r t"
  shows "Q s r t \<and> PVLock s k = None \<and> process t = process s"
proof -
  let ?u = "s\<lparr>PVLock := (PVLock s)(k \<mapsto> rid)\<rparr>"
  obtain v where free: "PVLock s k = None" and b: "run_state body ?u = (r, v)"
    and t: "t = v\<lparr>PVLock := Delete (PVLock v) k\<rparr>"
    by (rule pv_locked_free[OF assms(1,2)])
  have "Q ?u r v" by (rule wpD[OF assms(4) b]) simp
  then have "Q s r t" by (rule assms(5)[rotated 4]) (simp_all add: t)
  with free process_unlocked[OF free keepsD[OF assms(3) b]] t show ?thesis by simp
qed

lemma publish_outcome:
  assumes "kube_laws E V" and "outside_quiet E V" and "kube_wf (V (world s))"
    and "run_state (ControllerPublishVolume E fuel ctx req) s = (r, t)" and "r \<noteq> Running"
  shows "publish_result E V req s r t \<and> PVLock s (pub_VolumeId req) = None \<and> process t = process s"
proof (rule controller_locked[OF assms(4)[unfolded ControllerPublishVolume_def] assms(5) keeps_process_handlers(1)])
  show "wp (publish_volume E fuel req) (publish_result E V req u) u" if "world u = world s" for u
    by (rule publish_volume_effect[OF assms(1,2)]) (simp add: that assms(3))
qed (simp add: publish_result_def client_added_def service_created_def objects_created_def Let_def cong: if_cong split del: if_split)

lemma unpublish_outcome:
  assumes "kube_laws E V" and "outside_quiet E V" and "kube_wf (V (world s))"
    and "run_state (ControllerUnpublishVolume E fuel ctx req) s = (r, t)" and "r \<noteq> Running"
  shows "unpublish_result E V req s r t \<and> PVLock s (unpub_VolumeId req) = None \<and> process t = process s"
proof (rule controller_locked[OF assms(4)[unfolded ControllerUnpublishVolume_def] assms(5) keeps_process_handlers(2)])
  show "wp (unpublish_volume E req) (unpublish_result E V req u) u" if "world u = world s" for u
    by (rule unpublish_volume_effect[OF assms(1,2)]) (simp add: that assms(3))
qed (simp add: unpublish_result_def label_removed_def volume_removed_def Let_def cong: if_cong split del: if_split)

text \<open>Nothing the tear-down calls fails, but for the host driver, which answers \<open>e\<close>.\<close>

definition teardown_works :: "'w env \<Rightarrow> err \<Rightarrow> bool" where
  "teardown_works E e \<longleftrightarrow> (\<forall>a w. fst (grpc_NewClient (nfsClient E) a w) = None) \<and>
     (\<forall>a r w. snd (fst (rpc_UnexportNfsVolume (nfsClient E) a r w)) = None) \<and>
     (\<forall>r w. fst (vcsi_ControllerUnpublishVolume (vcsi E) r w) = e)"

lemma callUnexport_works:
  assumes "teardown_works E e" and "outside_quiet E V"
    and "\<And>a t. V (world t) = V (world s) \<Longrightarrow> Q (a, None) t"
  shows "wp (callUnexportNfsVolume E ip req) Q s"
  unfolding callUnexportNfsVolume_def getNfsClient_def
  apply (intro wp_bind wp_get wp_return wp_case_sum wp_case_prod wp_case_option
      wp_quiet[OF outside_quietD(1)[OF assms(2)]] wp_quiet[OF outside_quietD(3)[OF assms(2)]])
  using assms(1,3) unfolding teardown_works_def by (auto split: option.splits) (metis fst_conv snd_conv option.distinct(1))+

definition has_address :: "EndpointSlice \<Rightarrow> bool" where
  "has_address es \<longleftrightarrow> es_endpoints es \<noteq> [] \<and> ep_addresses (hd (es_endpoints es)) \<noteq> [] \<and>
     hd (ep_addresses (hd (es_endpoints es))) \<noteq> []"

lemma unpublish_volume_works:
  fixes E :: "'w env"
  assumes "kube_laws E V" and "outside_quiet E V" and "kube_wf (V (world s))" and "teardown_works E e"
    and service: "k_services (V (world s)) (service_key E (unpub_VolumeId req)) = Some service"
    and slice: "k_slices (V (world s)) (service_key E (unpub_VolumeId req)) = Some es" and "has_address es"
  shows "wp (unpublish_volume E req) (\<lambda>r t.
    if client_keys (svc_labels (without_client (unpub_NodeId req) service)) = []
    then r = Done e \<and> k_slices (V (world t)) (service_key E (unpub_VolumeId req)) = None else r = Done None) s"
proof -
  note ns = kube_wfD(1)[OF assms(3) service] kube_wfD(2)[OF assms(3) slice]
  have host: "wp (ext (vcsi_ControllerUnpublishVolume (vcsi E) r)) Q u"
    if "\<And>w. V w = V (world u) \<Longrightarrow> Q e (u\<lparr>world := w\<rparr>)" for r Q and u :: "'w nfs_state"
  proof (rule wp_quiet[OF outside_quietD(5)[OF assms(2)]])
    fix a w assume "vcsi_ControllerUnpublishVolume (vcsi E) r (world u) = (a, w)" "V w = V (world u)"
    moreover have "fst (vcsi_ControllerUnpublishVolume (vcsi E) r (world u)) = e"
      using assms(4) by (simp add: teardown_works_def)
    ultimately show "Q a (u\<lparr>world := w\<rparr>)" using that by simp
  qed
  show ?thesis
    unfolding unpublish_volume_def removeNodeFromNfsService_def remove_service_def
    by (intro wp_let wp_bind wp_case_sum wp_return wp_getServiceAndSlice_law[OF assms(1)] wp_case_prod wp_if wp_get
        wp_case_option callUnexport_works[OF assms(4,2)] wp_UpdateService_law[OF assms(1)]
        wp_DeleteEndpointSlice_law[OF assms(1)] wp_DeleteService_law[OF assms(1)] host)
       (use assms(5-7) ns in \<open>simp_all add: has_address_def without_client_def\<close>)
qed

lemma kube_wf_update:
  "kube_wf k \<Longrightarrow> svc_namespace v = fst K \<Longrightarrow> svc_name v = snd K \<Longrightarrow> kube_wf (k\<lparr>k_services := (k_services k)(K \<mapsto> v)\<rparr>)"
  "kube_wf k \<Longrightarrow> es_namespace e = fst K \<Longrightarrow> es_name e = snd K \<Longrightarrow> kube_wf (k\<lparr>k_slices := (k_slices k)(K \<mapsto> e)\<rparr>)"
  by (auto simp: kube_wf_def)

lemma address_filledD:
  assumes "address_filled v v'"
  shows "svc_name v' = svc_name v" "svc_namespace v' = svc_namespace v" "svc_labels v' = svc_labels v"
proof -
  have v': "v' = v\<lparr>svc_clusterIP := svc_clusterIP v'\<rparr>" using assms by (simp add: address_filled_def)
  show "svc_name v' = svc_name v" "svc_namespace v' = svc_namespace v" "svc_labels v' = svc_labels v"
    by (subst v', simp)+
qed

lemma objects_created_wf:
  assumes "objects_created V K p nid ip a s t" and "kube_wf (V (world s))"
  shows "kube_wf (V (world t))"
proof -
  from assms(1) obtain service where v: "address_filled (make_service (fst K) (snd K) p nid ip a (server_port (nfsServerPort (nfsService s)))) service"
    and t: "V (world t) = (V (world s))\<lparr>k_slices := (k_slices (V (world s)))(K \<mapsto>
        make_slice (fst K) (snd K) p nid ip a (server_port (nfsServerPort (nfsService s)))),
      k_services := (k_services (V (world s)))(K \<mapsto> service)\<rparr>"
    unfolding objects_created_def Let_def by blast
  have "kube_wf ((V (world s))\<lparr>k_slices := (k_slices (V (world s)))(K \<mapsto>
        make_slice (fst K) (snd K) p nid ip a (server_port (nfsServerPort (nfsService s))))\<rparr>)"
    by (rule kube_wf_update(2)[OF assms(2)]) simp_all
  from kube_wf_update(1)[OF this, of service K] address_filledD(1,2)[OF v] t show ?thesis by simp
qed

text \<open>The node that created a Service is its only client.\<close>

lemma created_client_keys:
  assumes "address_filled (make_service ns n p nid ip a port) service"
  shows "client_keys (svc_labels (without_client nid service)) = []"
  by (simp add: without_client_def address_filledD(3)[OF assms] make_service_def client_keys_def client_label_def HasPrefix_def)

lemma service_createdE:
  assumes "service_created V K p nid a s t"
  obtains ip service where "map_of (nodeIPAddress s) ip \<noteq> None" and "k_services (V (world t)) K = Some service"
    and "k_slices (V (world t)) K = Some (make_slice (fst K) (snd K) p nid ip a (server_port (nfsServerPort (nfsService s))))"
    and "address_filled (make_service (fst K) (snd K) p nid ip a (server_port (nfsServerPort (nfsService s)))) service"
proof -
  from assms obtain ip st where "map_of (nodeIPAddress s) ip = Some st" "objects_created V K p nid ip a s t"
    unfolding service_created_def by blast
  then show ?thesis by (intro that[of ip "the (k_services (V (world t)) K)"]) (auto simp: objects_created_def Let_def)
qed

lemma made_has_address: "ip \<noteq> [] \<Longrightarrow> has_address (make_slice ns n p nid ip a port)"
  by (simp add: has_address_def make_slice_def)

lemma unpublish_works:
  fixes E :: "'w env"
  assumes "kube_laws E V" and "outside_quiet E V" and "kube_wf (V (world s))" and "teardown_works E e"
    and "k_services (V (world s)) (service_key E (unpub_VolumeId req)) = Some service"
    and "k_slices (V (world s)) (service_key E (unpub_VolumeId req)) = Some es" and "has_address es"
    and "run_state (ControllerUnpublishVolume E fuel ctx req) s = (r, t)" and "r \<noteq> Running"
  shows "if client_keys (svc_labels (without_client (unpub_NodeId req) service)) = []
    then r = Done e \<and> k_slices (V (world t)) (service_key E (unpub_VolumeId req)) = None else r = Done None"
    (is "?P r t")
proof -
  have "?P r t \<and> PVLock s (unpub_VolumeId req) = None \<and> process t = process s"
  proof (rule controller_locked[OF assms(8)[unfolded ControllerUnpublishVolume_def] assms(9) keeps_process_handlers(2),
        where Q = "\<lambda>_. ?P"])
    show "wp (unpublish_volume E req) ?P u" if "world u = world s" for u
      by (rule unpublish_volume_works[OF assms(1,2) _ assms(4) _ _ assms(7)]) (simp_all add: that assms(3,5,6))
  qed (simp cong: if_cong split del: if_split)
  then show ?thesis ..
qed

text \<open>On a volume without a slice the host driver is not consulted.\<close>

lemma lock_loop_vcsi: "lock_loop (E\<lparr>vcsi := h\<rparr>) d n k v = lock_loop E d n k v"
proof -
  have "sleep (E\<lparr>vcsi := h\<rparr>) = sleep E" by (simp add: sleep_def fun_eq_iff)
  then show ?thesis by (induction n) (simp_all cong: prod.case_cong if_cong)
qed

lemma locked_cong:
  "run_state b (snd (run_state lock s)) = run_state b' (snd (run_state lock s)) \<Longrightarrow>
   run_state (locked lock unlock b) s = run_state (locked lock unlock b') s"
  by (auto simp: locked_def split: prod.split outcome.split)

lemma keeps_view_lock: "outside_quiet E V \<Longrightarrow> keeps (\<lambda>s. V (world s)) (LockPV E n k v prio)"
proof -
  have "keeps (\<lambda>s. V (world s)) (lock_loop E d n k v)" if "outside_quiet E V" for d
    using outside_quietD(7)[OF that]
    by (induction n) (auto simp: LoadOrStore_def keeps_def split: option.splits)
  then show "outside_quiet E V \<Longrightarrow> ?thesis" by (simp add: LockPV_def)
qed

lemma unpublish_without_slice:
  assumes "kube_laws E V" and "outside_quiet E V"
    and "k_slices (V (world s)) (service_key E (unpub_VolumeId req)) = None"
  shows "run_state (ControllerUnpublishVolume (E\<lparr>vcsi := h\<rparr>) fuel ctx req) s =
    run_state (ControllerUnpublishVolume E fuel ctx req) s"
proof -
  let ?u = "snd (run_state (LockPV E fuel (unpub_VolumeId req) (getRequestIDFromContext ctx) False) s)"
  have lock: "LockPV (E\<lparr>vcsi := h\<rparr>) = LockPV E" by (simp add: LockPV_def lock_loop_vcsi fun_eq_iff)
  have "V (world ?u) = V (world s)" using keeps_view_lock[OF assms(2)] by (simp add: keeps_def)
  then obtain m where "fst (cs_GetEndpointSlice (clientset E) (DriverNamespace E) (snd (service_key E (unpub_VolumeId req))) (world ?u)) = Inl m"
    using kube_lawsD(2)[OF assms(1), unfolded get_law_def, rule_format, of "DriverNamespace E" _ "world ?u"] assms(3)
    by (force split: option.splits)
  then have "run_state (unpublish_volume (E\<lparr>vcsi := h\<rparr>) req) ?u = run_state (unpublish_volume E req) ?u"
    by (simp add: unpublish_volume_def getServiceAndSlice_def GetEndpointSlice_def Let_def)
  then show ?thesis unfolding ControllerUnpublishVolume_def lock by (rule locked_cong)
qed

text \<open>On a free volume the handlers end.\<close>

lemma unpublish_ends:
  assumes "PVLock s (unpub_VolumeId req) = None"
  shows "fst (run_state (ControllerUnpublishVolume E (Suc n) ctx req) s) \<noteq> Running"
proof -
  have "wp (unpublish_volume E req) (\<lambda>r _. r \<noteq> Running) u" for u
    unfolding unpublish_volume_def removeNodeFromNfsService_def remove_service_def
    by (intro wp_let wp_bind wp_case_sum wp_return wp_case_prod wp_if wp_get wp_case_option wp_run) simp_all
  then have "fst (run_state (unpublish_volume E req) u) \<noteq> Running" for u by (simp add: wp_def)
  with assms show ?thesis
    by (simp add: ControllerUnpublishVolume_def locked_def LockPV_def LoadOrStore_def UnlockPV_def split: prod.split outcome.split)
       (metis fst_conv)
qed

section \<open>A sample run\<close>

text \<open>A controller that knows one online node.\<close>

definition sample_controller :: "sample_world nfs_state" where
  "sample_controller = (sample_state [])\<lparr>
     nodeIPAddress := [(''10.0.0.1'', \<lparr>ns_nodeName = ''n1'', ns_nodeIP = ''10.0.0.1'', badPings = 0, goodPings = 2,
       inRecovery = False, online = True, ns_status = [], dumpingExports = False\<rparr>)],
     world := sample_start\<lparr>w_nodes := [(''n1'', \<lparr>node_name = ''n1'', node_labels = GoMap [],
       node_annotations = GoMap [(''csi.volume.kubernetes.io/nodeid'', ''n1'')],
       node_addresses = [''10.0.0.1'']\<rparr>)]\<rparr>\<rparr>"

definition sample_publish :: ControllerPublishVolumeRequest where
  "sample_publish = \<lparr>pub_VolumeId = ''nfs-v1'', pub_NodeId = ''n1'', pub_VolumeContext = GoMap [(''Name'', ''pv1'')],
     pub_VolumeCapability = None\<rparr>"

definition sample_ctx :: request_ctx where "sample_ctx = \<lparr>ctx_metadata = None\<rparr>"

lemmas controller_sample_defs =
  locked_def LockPV_def UnlockPV_def LoadOrStore_def client_defs getRequestIDFromContext_def
  publish_volume_def getServiceAndSlice_def GetNodeStatus_def makeNfsService_def export_and_record_def
  callExportNfsVolume_def getNfsClient_def carries_csi_id_def find_csi_node_find

definition sample_publish_answer :: publish_answer where
  "sample_publish_answer = (Some \<lparr>pubr_PublishContext = GoMap [(''name'', ''pv1''), (''nfs'', ''nfs-v1'')]\<rparr>, None)"

lemma sample_lookup:
  "run_state (GetNodeByCSINodeID sample_env ''driver'' ''n1'') sample_controller =
     (Inr (hd (map snd (w_nodes (world sample_controller)))), sample_controller)"
  by (simp add: client_defs sample_controller_def sample_defs find_csi_node_find carries_csi_id_def gm_lookup_def)

lemma sample_export_retry: "run_state (export_retry sample_env (Suc n) ip req) s = (Done None, s)"
  by (simp add: callExportNfsVolume_def getNfsClient_def sample_defs)

lemma sample_get:
  "map_of (w_slices (world s)) (''ns'', n) = None \<Longrightarrow>
   run_state (getServiceAndSlice sample_env n) s = ((None, None, Some ''not found''), s)"
  by (simp add: getServiceAndSlice_def client_defs sample_defs)

lemma sample_make:
  assumes "map_of (w_services (world s)) (ns, n) = None" "map_of (w_slices (world s)) (ns, n) = None"
    and "pub_VolumeContext req = GoMap al"
  shows "\<exists>v t. run_state (makeNfsService sample_env (Suc k) ns n pv ip req) s = (Done (Some v, None), t)"
proof -
  have "\<exists>v t. run_state (export_and_record sample_env (Suc k) ns n pv ip i a c) s = (Done (Some v, None), t)" for i a c
    unfolding export_and_record_def using assms(1,2)
    by (simp add: sample_export_retry del: export_retry.simps)
       (simp add: client_defs sample_defs Let_def)
  then show ?thesis
    unfolding makeNfsService_def Let_def assms(3) by (simp add: sample_env_def sample_vcsi_def gm_copy_def)
qed

lemma sample_fields:
  "DriverNamespace sample_env = ''ns''" "DriverName sample_env = ''driver''"
  "w_services (world sample_controller) = []" "w_slices (world sample_controller) = []"
  "PVLock sample_controller = Map.empty"
  "pub_VolumeId sample_publish = ''nfs-v1''" "pub_NodeId sample_publish = ''n1''"
  "pub_VolumeContext sample_publish = GoMap [(''Name'', ''pv1'')]"
  "node_addresses (snd (hd (w_nodes (world sample_controller)))) = [''10.0.0.1'']"
  "\<exists>st. map_of (nodeIPAddress sample_controller) ''10.0.0.1'' = Some st \<and> online st \<and> \<not> inRecovery st"
  by (simp_all add: sample_controller_def sample_defs sample_publish_def)

lemma sample_publish_run:
  "\<exists>t. run_state (ControllerPublishVolume sample_env 1 sample_ctx sample_publish) sample_controller =
     (Done sample_publish_answer, t)"
proof -
  let ?s = "sample_controller\<lparr>PVLock := [''nfs-v1'' \<mapsto> []]\<rparr>"
  have lookup: "run_state (GetNodeByCSINodeID sample_env ''driver'' ''n1'') ?s =
     (Inr (snd (hd (w_nodes (world sample_controller)))), ?s)"
    by (simp add: client_defs sample_controller_def sample_defs find_csi_node_find carries_csi_id_def gm_lookup_def)
  have get: "run_state (getServiceAndSlice sample_env ''nfs-v1'') ?s = ((None, None, Some ''not found''), ?s)"
    by (rule sample_get) (simp add: sample_fields)
  obtain v t where make: "run_state (makeNfsService sample_env (Suc 0) ''ns'' ''nfs-v1'' ''pv1'' ''10.0.0.1'' sample_publish) ?s =
     (Done (Some v, None), t)"
    using sample_make[of ?s "''ns''" "''nfs-v1''" sample_publish "[(''Name'', ''pv1'')]" 0 "''pv1''" "''10.0.0.1''"]
    by (auto simp: sample_fields)
  obtain st where st: "map_of (nodeIPAddress sample_controller) ''10.0.0.1'' = Some st" "online st" "\<not> inRecovery st"
    using sample_fields(10) by blast
  have name: "gm_get (GoMap [(''Name'', ''pv1'')]) ''Name'' = ''pv1''" by (simp add: gm_get_def gm_lookup_def)
  have "run_state (publish_volume sample_env 1 sample_publish) ?s = (Done sample_publish_answer, t)"
    by (simp add: publish_volume_def sample_fields lookup get make name sample_service_name GetNodeStatus_def st
        sample_publish_answer_def CsiNfsPrefix_def Let_def)
  then show ?thesis
    by (simp add: ControllerPublishVolume_def locked_def LockPV_def UnlockPV_def LoadOrStore_def sample_fields
        getRequestIDFromContext_def sample_ctx_def)
qed

lemma sample_wf: "kube_wf (sample_view (world sample_controller))"
  by (simp add: kube_wf_def sample_view_def sample_fields)

lemma publish_ends_sample:
  assumes "PVLock s (pub_VolumeId req) = None"
  shows "fst (run_state (ControllerPublishVolume sample_env (Suc n) ctx req) s) \<noteq> Running"
proof -
  have retry: "wp (export_retry sample_env (Suc n) ip e) Q u" if "Q (Done None) u" for ip e Q u
    using that by (simp add: wp_def sample_export_retry del: export_retry.simps)
  have recorded: "wp (export_and_record sample_env (Suc n) ns nm pv ip nid a c) (\<lambda>r _. r \<noteq> Running) u" for ns nm pv ip nid a c u
    unfolding export_and_record_def client_defs
    by (intro wp_bind retry wp_case_outcome wp_case_option wp_get wp_let wp_case_sum wp_return wp_ext)
       (auto split: sum.splits)
  have make: "wp (makeNfsService sample_env (Suc n) ns nm pv ip req) Q u" if "\<And>r t. r \<noteq> Running \<Longrightarrow> Q r t"
    for ns nm pv ip req Q u
  proof -
    have "wp (makeNfsService sample_env (Suc n) ns nm pv ip req) (\<lambda>r _. r \<noteq> Running) u"
      unfolding makeNfsService_def by (intro wp_let wp_bind wp_return wp_case_prod wp_case_option wp_ext recorded) simp_all
    then show ?thesis by (rule wp_mono) (rule that)
  qed
  have add: "wp (addNodeToNfsService sample_env v req) Q u" if "\<And>r t. r \<noteq> Running \<Longrightarrow> Q r t" for v req Q u
    unfolding addNodeToNfsService_def client_defs
    by (intro wp_let wp_bind wp_return wp_if wp_case_option wp_ext that) (auto split: sum.splits)
  have "wp (publish_volume sample_env (Suc n) req) (\<lambda>r _. r \<noteq> Running) u" for u
    unfolding publish_volume_def GetNodeStatus_def getServiceAndSlice_def client_defs
    by (intro wp_let wp_bind wp_case_sum wp_return wp_case_prod wp_case_list wp_if wp_get wp_case_option wp_ext make add)
       (auto split: outcome.splits)
  then have "fst (run_state (publish_volume sample_env (Suc n) req) u) \<noteq> Running" for u by (simp add: wp_def)
  with assms show ?thesis
    by (simp add: ControllerPublishVolume_def locked_def LockPV_def LoadOrStore_def UnlockPV_def split: prod.split outcome.split)
       (metis fst_conv)
qed

section \<open>Properties\<close>

text \<open>
  C2: \<open>ControllerPublishVolume\<close>, on every branch, against an API server that answers. A success
  carries the publish context with the volume's name and service name, and either there were a
  Service and a slice, and the node is now a client on the Service, or there were none, and both
  have been made for an online node that is not in recovery. Otherwise the store is as before
  (a slice may stay behind only beside a Service without one). The volume's lock was free and is
  given back, and nothing else of the process changes.
\<close>

theorem controller_publish_outcome:
  assumes "kube_laws E V" and "outside_quiet E V" and "kube_wf (V (world s))"
    and "run_state (ControllerPublishVolume E fuel ctx req) s = (r, t)" and "r \<noteq> Running"
  shows "publish_result E V req s r t \<and> PVLock s (pub_VolumeId req) = None \<and> process t = process s"
  by (rule publish_outcome[OF assms])

theorem controller_publish_outcome_witness:
  "\<exists>t. run_state (ControllerPublishVolume sample_env 1 sample_ctx sample_publish) sample_controller =
     (Done sample_publish_answer, t) \<and>
   publish_result sample_env sample_view sample_publish sample_controller (Done sample_publish_answer) t"
proof -
  obtain t where run: "run_state (ControllerPublishVolume sample_env 1 sample_ctx sample_publish) sample_controller =
     (Done sample_publish_answer, t)" using sample_publish_run ..
  from controller_publish_outcome[OF sample_kube sample_wf run] run show ?thesis by blast
qed

text \<open>
  C3: \<open>ControllerUnpublishVolume\<close>, on every branch. A volume without Service or slice is a
  success that changes nothing. Otherwise a success removes the node's client label while other
  clients remain; with the last client both objects are gone, and the host driver has been told to
  unpublish the array's volume from the node that the slice names. After a failure the store is as
  before, or the label is gone and the rest stays, or the host driver's failure is reported with
  both objects gone.
\<close>

theorem controller_unpublish_outcome:
  assumes "kube_laws E V" and "outside_quiet E V" and "kube_wf (V (world s))"
    and "run_state (ControllerUnpublishVolume E fuel ctx req) s = (r, t)" and "r \<noteq> Running"
  shows "unpublish_result E V req s r t \<and> PVLock s (unpub_VolumeId req) = None \<and> process t = process s"
  by (rule unpublish_outcome[OF assms])

definition sample_unpublish :: ControllerUnpublishVolumeRequest where
  "sample_unpublish = \<lparr>unpub_VolumeId = ''nfs-v1'', unpub_NodeId = ''n1''\<rparr>"

lemma sample_publish_state:
  obtains t where "run_state (ControllerPublishVolume sample_env 1 sample_ctx sample_publish) sample_controller =
     (Done sample_publish_answer, t)" and "kube_wf (sample_view (world t))" and "PVLock t = Map.empty"
    and "service_created sample_view (''ns'', ''nfs-v1'') ''pv1'' ''n1'' (ToArrayVolumeID ''nfs-v1'') sample_controller t"
proof -
  obtain t where run: "run_state (ControllerPublishVolume sample_env 1 sample_ctx sample_publish) sample_controller =
     (Done sample_publish_answer, t)" using sample_publish_run ..
  have empty: "k_services (sample_view (world sample_controller)) K = None" for K
    by (simp add: sample_view_def sample_fields)
  have name: "gm_get (GoMap [(''Name'', ''pv1'')]) ''Name'' = ''pv1''" by (simp add: gm_get_def gm_lookup_def)
  from publish_outcome[OF sample_kube sample_wf run]
  have res: "publish_result sample_env sample_view sample_publish sample_controller (Done sample_publish_answer) t"
    and t: "process t = process sample_controller" by simp_all
  from res empty have created: "service_created sample_view (''ns'', ''nfs-v1'') ''pv1'' ''n1''
      (ToArrayVolumeID ''nfs-v1'') sample_controller t"
    by (simp add: publish_result_def Let_def sample_publish_answer_def client_added_def sample_fields
        sample_service_name name)
  have "kube_wf (sample_view (world t))"
    using created objects_created_wf sample_wf unfolding service_created_def by blast
  moreover have "PVLock t = Map.empty" using process_fields(1)[OF t] by (simp add: sample_fields)
  ultimately show ?thesis using that run created by blast
qed

theorem controller_unpublish_outcome_witness:
  "\<exists>s r t. k_services (sample_view (world s)) (''ns'', ''nfs-v1'') \<noteq> None \<and>
     run_state (ControllerUnpublishVolume sample_env 1 sample_ctx sample_unpublish) s = (r, t) \<and>
     unpublish_result sample_env sample_view sample_unpublish s r t"
proof -
  obtain s where s: "kube_wf (sample_view (world s))" "PVLock s = Map.empty"
    "service_created sample_view (''ns'', ''nfs-v1'') ''pv1'' ''n1'' (ToArrayVolumeID ''nfs-v1'') sample_controller s"
    by (rule sample_publish_state)
  obtain r t where run: "run_state (ControllerUnpublishVolume sample_env 1 sample_ctx sample_unpublish) s = (r, t)"
    by fastforce
  have "r \<noteq> Running" using unpublish_ends[of s sample_unpublish sample_env 0 sample_ctx] run s(2) by simp
  from controller_unpublish_outcome[OF sample_kube s(1) run this] run s(3) show ?thesis
    by (auto simp: service_created_def objects_created_def Let_def intro!: exI[of _ s])
qed

text \<open>
  C12: unpublishing undoes publishing. A node publishes a volume that has neither Service nor
  slice, and unpublishes it again while nothing the tear-down calls fails: the second call
  succeeds, the store is as before the first, and the last the host driver was asked is to
  unpublish the array's volume from that node.
\<close>

theorem controller_publish_unpublish_roundtrip:
  assumes "kube_laws E V" and "outside_quiet E V" and "kube_wf (V (world s))" and "teardown_works E None"
    and "k_services (V (world s)) (service_key E (pub_VolumeId req)) = None"
    and "[] \<notin> fst ` set (nodeIPAddress s)"
    and "run_state (ControllerPublishVolume E fuel ctx req) s = (Done (a, None), t)"
    and "unpub_VolumeId req' = pub_VolumeId req" and "unpub_NodeId req' = pub_NodeId req"
    and "run_state (ControllerUnpublishVolume E fuel' ctx' req') t = (r, u)" and "r \<noteq> Running"
  shows "r = Done None \<and> V (world u) = V (world s) \<and>
    (\<exists>w. vcsi_ControllerUnpublishVolume (vcsi E)
       \<lparr>unpub_VolumeId = ToArrayVolumeID (pub_VolumeId req), unpub_NodeId = pub_NodeId req\<rparr> w = (None, world u))"
proof -
  let ?K = "service_key E (pub_VolumeId req)" and ?nid = "pub_NodeId req"
  let ?name = "gm_get (pub_VolumeContext req) ''Name''" and ?arr = "ToArrayVolumeID (pub_VolumeId req)"
  let ?port = "server_port (nfsServerPort (nfsService s))"
  from publish_outcome[OF assms(1-3,7)] assms(5)
  have "service_created V ?K ?name ?nid ?arr s t"
    by (simp add: publish_result_def Let_def client_added_def)
  then obtain ip st where ip: "map_of (nodeIPAddress s) ip = Some st"
    and made: "objects_created V ?K ?name ?nid ip ?arr s t" unfolding service_created_def by blast
  from made obtain service where noslice: "k_slices (V (world s)) ?K = None"
    and filled: "address_filled (make_service (fst ?K) (snd ?K) ?name ?nid ip ?arr ?port) service"
    and t: "V (world t) = (V (world s))\<lparr>k_slices := (k_slices (V (world s)))(?K \<mapsto> make_slice (fst ?K) (snd ?K) ?name ?nid ip ?arr ?port),
        k_services := (k_services (V (world s)))(?K \<mapsto> service)\<rparr>"
    unfolding objects_created_def Let_def by blast
  have wf: "kube_wf (V (world t))" by (rule objects_created_wf[OF made assms(3)])
  have "ip \<noteq> []" using ip assms(6) by (metis image_eqI fst_conv map_of_SomeD)
  then have addr: "has_address (make_slice (fst ?K) (snd ?K) ?name ?nid ip ?arr ?port)" by (rule made_has_address)
  have stored: "k_services (V (world t)) (service_key E (unpub_VolumeId req')) = Some service"
    "k_slices (V (world t)) (service_key E (unpub_VolumeId req')) = Some (make_slice (fst ?K) (snd ?K) ?name ?nid ip ?arr ?port)"
    by (simp_all add: t assms(8))
  from unpublish_works[OF assms(1,2) wf assms(4) stored addr assms(10,11)] have r: "r = Done None"
    by (simp split: if_splits)
  have "client_keys (svc_labels (without_client ?nid service)) = []" by (rule created_client_keys[OF filled])
  with unpublish_outcome[OF assms(1,2) wf assms(10,11)] stored
  have gone: "volume_removed E V ?K ?arr ?nid None t u"
    by (auto simp: unpublish_result_def r missing_def label_removed_def assms(8,9) Let_def)
  have "gm_get (es_labels (make_slice (fst ?K) (snd ?K) ?name ?nid ip ?arr ?port)) ''nodeID'' = ?nid"
    by (simp add: make_slice_def gm_get_def gm_lookup_def)
  moreover have "V (world u) = V (world s)"
    using gone assms(5) noslice by (auto simp: volume_removed_def t fun_upd_idem)
  ultimately show ?thesis using gone stored r by (auto simp: volume_removed_def assms(8))
qed

theorem controller_publish_unpublish_roundtrip_witness:
  "\<exists>t u. run_state (ControllerPublishVolume sample_env 1 sample_ctx sample_publish) sample_controller =
      (Done sample_publish_answer, t) \<and>
    run_state (ControllerUnpublishVolume sample_env 1 sample_ctx sample_unpublish) t = (Done None, u) \<and>
    sample_view (world t) \<noteq> sample_view (world sample_controller) \<and>
    sample_view (world u) = sample_view (world sample_controller)"
proof -
  obtain t where t: "run_state (ControllerPublishVolume sample_env 1 sample_ctx sample_publish) sample_controller =
     (Done sample_publish_answer, t)" "PVLock t = Map.empty"
    and made: "service_created sample_view (''ns'', ''nfs-v1'') ''pv1'' ''n1'' (ToArrayVolumeID ''nfs-v1'') sample_controller t"
    by (rule sample_publish_state)
  obtain r u where run: "run_state (ControllerUnpublishVolume sample_env 1 sample_ctx sample_unpublish) t = (r, u)"
    by fastforce
  have r: "r \<noteq> Running" using unpublish_ends[of t sample_unpublish sample_env 0 sample_ctx] run t(2) by simp
  have none: "k_services (sample_view (world sample_controller)) K = None" for K
    by (simp add: sample_view_def sample_fields)
  have works: "teardown_works sample_env None" by (simp add: teardown_works_def sample_defs)
  have addresses: "[] \<notin> fst ` set (nodeIPAddress sample_controller)" by (simp add: sample_controller_def)
  from made have "k_services (sample_view (world t)) (''ns'', ''nfs-v1'') \<noteq> None"
    by (auto simp: service_created_def objects_created_def Let_def)
  with none have "sample_view (world t) \<noteq> sample_view (world sample_controller)" by metis
  moreover have "r = Done None \<and> sample_view (world u) = sample_view (world sample_controller)"
    using controller_publish_unpublish_roundtrip[OF sample_kube sample_wf works none addresses
      t(1)[unfolded sample_publish_answer_def] _ _ run r]
    by (simp add: sample_unpublish_def sample_fields)
  ultimately show ?thesis using t(1) run by blast
qed

text \<open>
  C35: a slice without a Service, as a failed creation of the Service leaves it behind, is never
  repaired. Publishing the volume fails whatever node asks, because the slice cannot be created
  again, and unpublishing it reports success and leaves the slice where it is.
\<close>

theorem orphan_slice_blocks_volume:
  assumes "kube_laws E V" and "outside_quiet E V" and "kube_wf (V (world s))"
    and "k_services (V (world s)) (service_key E vid) = None"
    and "k_slices (V (world s)) (service_key E vid) = Some es"
    and "run_state (ControllerPublishVolume E fuel ctx req) s = (r, t)" and "r \<noteq> Running" and "pub_VolumeId req = vid"
    and "run_state (ControllerUnpublishVolume E fuel ctx req') s = (r', t')" and "r' \<noteq> Running" and "unpub_VolumeId req' = vid"
  shows "\<not> ended_ok r \<and> V (world t) = V (world s) \<and> r' = Done None \<and> V (world t') = V (world s)"
  using publish_outcome[OF assms(1-3,6,7)] unpublish_outcome[OF assms(1-3,9,10)] assms(4,5,8,11)
  by (auto simp: publish_result_def unpublish_result_def Let_def missing_def client_added_def service_created_def
      objects_created_def split: if_splits)

definition orphan_state :: "sample_world nfs_state" where
  "orphan_state = sample_controller\<lparr>world := (world sample_controller)
     \<lparr>w_slices := [((''ns'', ''nfs-v1''), make_slice ''ns'' ''nfs-v1'' ''pv1'' ''n1'' ''10.0.0.1'' ''v1'' 2049)]\<rparr>\<rparr>"

theorem orphan_slice_blocks_volume_witness:
  "\<exists>r t r' t'. run_state (ControllerPublishVolume sample_env 1 sample_ctx sample_publish) orphan_state = (r, t) \<and>
     \<not> ended_ok r \<and>
     run_state (ControllerUnpublishVolume sample_env 1 sample_ctx sample_unpublish) orphan_state = (r', t') \<and>
     r' = Done None \<and> k_slices (sample_view (world t')) (''ns'', ''nfs-v1'') \<noteq> None"
proof -
  obtain r t where run: "run_state (ControllerPublishVolume sample_env 1 sample_ctx sample_publish) orphan_state = (r, t)"
    by fastforce
  obtain r' t' where run': "run_state (ControllerUnpublishVolume sample_env 1 sample_ctx sample_unpublish) orphan_state = (r', t')"
    by fastforce
  have view: "k_services (sample_view (world orphan_state)) K = None"
    "k_slices (sample_view (world orphan_state)) K = (if K = (''ns'', ''nfs-v1'')
      then Some (make_slice ''ns'' ''nfs-v1'' ''pv1'' ''n1'' ''10.0.0.1'' ''v1'' 2049) else None)" for K
    by (simp_all add: sample_view_def orphan_state_def sample_fields)
  have wf: "kube_wf (sample_view (world orphan_state))" by (simp add: kube_wf_def view)
  have free: "PVLock orphan_state = Map.empty" by (simp add: orphan_state_def sample_fields)
  have "r' \<noteq> Running" using unpublish_ends[of orphan_state sample_unpublish sample_env 0 sample_ctx] run' free by simp
  moreover have "r \<noteq> Running" using publish_ends_sample[of orphan_state sample_publish 0 sample_ctx] run free by simp
  ultimately show ?thesis
    using orphan_slice_blocks_volume[OF sample_kube wf _ _ run _ _ run', of "''nfs-v1''"]
      run run' view by (simp add: sample_service_name sample_fields sample_unpublish_def)
qed

text \<open>
  C36: when the host driver fails to unpublish the volume of the last client, the slice and the
  Service are gone already. The caller repeats the request, and the repetition reports success
  without asking the host driver, whatever the host driver is: the array's volume stays attached to
  the node, and no request names that node any more.
\<close>

theorem failed_host_unpublish_is_lost:
  assumes "kube_laws E V" and "outside_quiet E V" and "kube_wf (V (world s))"
    and "run_state (ControllerUnpublishVolume E fuel ctx req) s = (Done (Some m), t)"
    and "k_slices (V (world t)) (service_key E (unpub_VolumeId req)) = None"
    and "run_state (ControllerUnpublishVolume E fuel' ctx' req') t = (r, u)" and "r \<noteq> Running"
    and "unpub_VolumeId req' = unpub_VolumeId req"
  shows "volume_removed E V (service_key E (unpub_VolumeId req)) (ToArrayVolumeID (unpub_VolumeId req))
      (unpub_NodeId req) (Some m) s t \<and>
    r = Done None \<and> run_state (ControllerUnpublishVolume (E\<lparr>vcsi := h\<rparr>) fuel' ctx' req') t = (r, u)"
proof -
  from unpublish_outcome[OF assms(1-4)]
  have first: "unpublish_result E V req s (Done (Some m)) t" by simp
  then have removed: "volume_removed E V (service_key E (unpub_VolumeId req)) (ToArrayVolumeID (unpub_VolumeId req))
      (unpub_NodeId req) (Some m) s t"
    using assms(5) by (auto simp: unpublish_result_def Let_def missing_def label_removed_def split: if_splits)
  have "kube_wf (V (world t))"
    using removed assms(3) by (auto simp: volume_removed_def kube_wf_def split: if_splits)
  from unpublish_outcome[OF assms(1,2) this assms(6,7)] assms(5,8) have "r = Done None"
    by (simp add: unpublish_result_def Let_def missing_def)
  moreover have "run_state (ControllerUnpublishVolume (E\<lparr>vcsi := h\<rparr>) fuel' ctx' req') t = (r, u)"
    using unpublish_without_slice[OF assms(1,2), of t req' h] assms(5,6,8) by simp
  ultimately show ?thesis using removed by blast
qed

definition busy_env :: "sample_world env" where
  "busy_env = sample_env\<lparr>vcsi := sample_vcsi\<lparr>vcsi_ControllerUnpublishVolume := \<lambda>_ w. (Some ''array busy'', w)\<rparr>\<rparr>"

theorem failed_host_unpublish_is_lost_witness:
  "\<exists>s t u. k_services (sample_view (world s)) (''ns'', ''nfs-v1'') \<noteq> None \<and>
     run_state (ControllerUnpublishVolume busy_env 1 sample_ctx sample_unpublish) s = (Done (Some ''array busy''), t) \<and>
     run_state (ControllerUnpublishVolume busy_env 1 sample_ctx sample_unpublish) t = (Done None, u)"
proof -
  obtain s where s: "kube_wf (sample_view (world s))" "PVLock s = Map.empty"
    and made: "service_created sample_view (''ns'', ''nfs-v1'') ''pv1'' ''n1'' (ToArrayVolumeID ''nfs-v1'') sample_controller s"
    by (rule sample_publish_state)
  have laws: "kube_laws busy_env sample_view" "outside_quiet busy_env sample_view" "teardown_works busy_env (Some ''array busy'')"
    using sample_kube by (simp_all add: busy_env_def kube_laws_def outside_quiet_def quiet_def teardown_works_def sample_defs)
  have key: "service_key busy_env (unpub_VolumeId sample_unpublish) = (''ns'', ''nfs-v1'')"
    by (simp add: sample_unpublish_def sample_service_name busy_env_def sample_fields)
  obtain ip service where ip: "map_of (nodeIPAddress sample_controller) ip \<noteq> None"
    and stored: "k_services (sample_view (world s)) (''ns'', ''nfs-v1'') = Some service"
      "k_slices (sample_view (world s)) (''ns'', ''nfs-v1'') = Some (make_slice ''ns'' ''nfs-v1'' ''pv1'' ''n1'' ip
        (ToArrayVolumeID ''nfs-v1'') (server_port (nfsServerPort (nfsService sample_controller))))"
    and filled: "address_filled (make_service ''ns'' ''nfs-v1'' ''pv1'' ''n1'' ip (ToArrayVolumeID ''nfs-v1'')
      (server_port (nfsServerPort (nfsService sample_controller)))) service"
    using service_createdE[OF made] by (metis fst_conv snd_conv)
  have addr: "has_address (make_slice ''ns'' ''nfs-v1'' ''pv1'' ''n1'' ip (ToArrayVolumeID ''nfs-v1'')
    (server_port (nfsServerPort (nfsService sample_controller))))"
    by (rule made_has_address) (use ip in \<open>auto simp: sample_controller_def split: if_splits\<close>)
  obtain r t where run: "run_state (ControllerUnpublishVolume busy_env 1 sample_ctx sample_unpublish) s = (r, t)" by fastforce
  have r: "r \<noteq> Running" using unpublish_ends[of s sample_unpublish busy_env 0 sample_ctx] run s(2) by simp
  have "client_keys (svc_labels (without_client (unpub_NodeId sample_unpublish) service)) = []"
    using created_client_keys[OF filled] by (simp add: sample_unpublish_def)
  with unpublish_works[OF laws(1,2) s(1) laws(3) stored[folded key] addr run r]
  have first: "r = Done (Some ''array busy'')"
    and gone: "k_slices (sample_view (world t)) (service_key busy_env (unpub_VolumeId sample_unpublish)) = None" by simp_all
  have pt: "process t = process s" using unpublish_outcome[OF laws(1,2) s(1) run r] by simp
  obtain r' u where run': "run_state (ControllerUnpublishVolume busy_env 1 sample_ctx sample_unpublish) t = (r', u)" by fastforce
  have "r' \<noteq> Running"
    using unpublish_ends[of t sample_unpublish busy_env 0 sample_ctx] run' s(2) process_fields(1)[OF pt] by simp
  from failed_host_unpublish_is_lost[OF laws(1,2) s(1) run[unfolded first] gone run' this refl] run run' first stored(1)
  show ?thesis by blast
qed

text \<open>
  \<open>CreateVolume\<close> asks the host driver once, for a raw block volume that many nodes may write,
  with the request's name and parameters but without the parameter that would send the request
  back to this service. A success carries an NFS volume id that stands for the id the host driver
  chose; an error of the host driver is handed on; an answer without a volume panics.
\<close>

theorem create_volume_delegates:
  assumes "run_state (CreateVolume E req) s = (r, t)"
  shows "\<exists>sub resp e. vcsi_CreateVolume (vcsi E) sub (world s) = ((resp, e), world t) \<and> process t = process s \<and>
    cv_Name sub = cv_Name req \<and> cv_VolumeCapabilities sub = [block_capability] \<and>
    (\<forall>k. gm_lookup (cv_Parameters sub) k = (if k = ''shared-nfs'' then None else gm_lookup (cv_Parameters req) k)) \<and>
    (case r of
       Done (a, Some m) \<Rightarrow> e = Some m \<and> a = resp
     | Done (a, None) \<Rightarrow> e = None \<and> (\<exists>arrayID nfsID. resp = Some \<lparr>cvr_VolumeId = Some arrayID\<rparr> \<and>
         a = Some \<lparr>cvr_VolumeId = Some nfsID\<rparr> \<and> IsNFSVolumeID nfsID \<and> ToArrayVolumeID nfsID = arrayID)
     | Panicked _ \<Rightarrow> e = None \<and> (resp = None \<or> resp = Some \<lparr>cvr_VolumeId = None\<rparr>)
     | Running \<Rightarrow> False)"
proof -
  obtain resp e w where host: "vcsi_CreateVolume (vcsi E) (create_subrequest req) (world s) = ((resp, e), w)"
    by (metis prod.collapse)
  have t: "t = s\<lparr>world := w\<rparr>" and r: "r = (case e of
       Some m \<Rightarrow> Done (resp, Some m)
     | None \<Rightarrow> (case resp of
         None \<Rightarrow> Panicked nil_deref_panic
       | Some r \<Rightarrow> (case cvr_VolumeId r of
           None \<Rightarrow> Panicked nil_deref_panic
         | Some v \<Rightarrow> Done (Some (r\<lparr>cvr_VolumeId := Some (ArrayToNFSVolumeID v)\<rparr>), None))))"
    using assms host by (auto simp: CreateVolume_def)
  have "case r of
       Done (a, Some m) \<Rightarrow> e = Some m \<and> a = resp
     | Done (a, None) \<Rightarrow> e = None \<and> (\<exists>arrayID nfsID. resp = Some \<lparr>cvr_VolumeId = Some arrayID\<rparr> \<and>
         a = Some \<lparr>cvr_VolumeId = Some nfsID\<rparr> \<and> IsNFSVolumeID nfsID \<and> ToArrayVolumeID nfsID = arrayID)
     | Panicked _ \<Rightarrow> e = None \<and> (resp = None \<or> resp = Some \<lparr>cvr_VolumeId = None\<rparr>)
     | Running \<Rightarrow> False"
  proof (cases resp)
    case None
    then show ?thesis unfolding r by (simp split: option.splits)
  next
    case (Some x)
    obtain v where x: "x = \<lparr>cvr_VolumeId = v\<rparr>" by (cases x) blast
    show ?thesis unfolding r Some x
      by (simp add: nfs_id.dec_enc nfs_id.tagged_enc IsNFSVolumeID_def split: option.splits)
  qed
  with host t show ?thesis
    by (intro exI[of _ "create_subrequest req"] exI[of _ resp] exI[of _ e])
       (simp add: create_subrequest_def gm_lookup_delete CsiNfsParameter_def)
qed

theorem create_volume_delegates_witness:
  "\<exists>t. run_state (CreateVolume sample_env \<lparr>cv_Name = ''v1'', cv_Parameters = GoMap [(''shared-nfs'', ''RWX'')],
      cv_VolumeCapabilities = []\<rparr>) sample_controller = (Done (Some \<lparr>cvr_VolumeId = Some ''nfs-v1''\<rparr>, None), t) \<and>
    process t = process sample_controller"
proof -
  obtain t where run: "run_state (CreateVolume sample_env \<lparr>cv_Name = ''v1'', cv_Parameters = GoMap [(''shared-nfs'', ''RWX'')],
      cv_VolumeCapabilities = []\<rparr>) sample_controller = (Done (Some \<lparr>cvr_VolumeId = Some ''nfs-v1''\<rparr>, None), t)"
    by (simp add: CreateVolume_def sample_env_def sample_vcsi_def create_subrequest_def ArrayToNFSVolumeID_def
        CsiNfsPrefixDash_def)
  from create_volume_delegates[OF run] run show ?thesis by blast
qed

end
