(* ===== verification/Node_Recovery.thy ===== *)
theory Node_Recovery
  imports Controller
begin

text \<open>
  The recovery of the volumes of a failed node (\<open>src/nfs/noderecovery.go\<close>): \<open>nodeRecovery\<close> moves
  every volume whose slice carries the node's address to the node with the fewest exports.

  \<^item> The goroutine of \<open>reassignVolume\<close> that tells the failed node to unexport the volume shares the
    variable \<open>err\<close> with the function. Its two effects, the call and the assignment, take place at
    points given by a schedule \<open>(called, assigned)\<close>: point 0 is before the host driver unpublishes,
    1 between its answer and the test of \<open>err\<close>, 2 and 3 likewise for \<open>GetNode\<close>, 4 and 5 for the
    host driver's publishing, 6 before the export; a number above 6 is after the function's end.
  \<^item> The volumes of a node are moved by goroutines; here one after the other. The iteration order of
    the Go map \<open>exportCounts\<close> is the order of the list.
\<close>

section \<open>Definitions\<close>

definition VolumeReassignTimeout :: nat where "VolumeReassignTimeout = 180 * Second"
definition endpointSliceTimeout :: nat where "endpointSliceTimeout = 3 * Second"
definition MaxInt :: int where "MaxInt = 2 ^ 63 - 1"

subsection \<open>Choosing a node\<close>

fun lowest_count :: "(string \<times> int) list \<Rightarrow> string \<times> int \<Rightarrow> string \<times> int" where
  "lowest_count [] best = best"
| "lowest_count ((name, exportCount) # rest) (selectedNode, lowest) =
     (if exportCount < lowest then lowest_count rest (name, exportCount)
      else lowest_count rest (selectedNode, lowest))"

text \<open>The reservation reads a missing entry as 0.\<close>

definition reserve :: "string \<Rightarrow> (string \<times> int) list \<Rightarrow> (string \<times> int) list" where
  "reserve selectedNode counts =
     AList.update selectedNode ((case map_of counts selectedNode of None \<Rightarrow> 0 | Some c \<Rightarrow> c) + 1) counts"

definition findNextAvailableNode :: "('w nfs_state, string) state" where
  "findNextAvailableNode = do {
     s \<leftarrow> State_Monad.get;
     let selectedNode = fst (lowest_count (exportCounts s) ([], MaxInt));
     _ \<leftarrow> State_Monad.update (\<lambda>s. s\<lparr>exportCounts := reserve selectedNode (exportCounts s)\<rparr>);
     State_Monad.return selectedNode }"

subsection \<open>The node's CSI id\<close>

definition strip :: "char list \<Rightarrow> string \<Rightarrow> string" where
  "strip cs s = filter (\<lambda>c. c \<notin> set cs) s"

fun driver_part :: "string \<Rightarrow> string list \<Rightarrow> string \<Rightarrow> string" where
  "driver_part driver [] driverNodeName = driverNodeName"
| "driver_part driver (part # parts) driverNodeName =
     (if HasPrefix part driver then
        (case Split part (CHR '':'') of
           _ # sub # _ \<Rightarrow> driver_part driver parts sub
         | _ \<Rightarrow> driver_part driver parts driverNodeName)
      else driver_part driver parts driverNodeName)"

definition driver_node_name :: "string \<Rightarrow> string \<Rightarrow> string" where
  "driver_node_name driver csiNodeNames =
     driver_part driver (Split (strip [CHR ''{'', CHR ''}'', CHR 0x22] csiNodeNames) (CHR '','')) []"

subsection \<open>The slice\<close>

fun update_slice_loop :: "'w env \<Rightarrow> EndpointSlice \<Rightarrow> nat \<Rightarrow> err \<Rightarrow> ('w nfs_state, err) state" where
  "update_slice_loop E es 0 result = State_Monad.return result"
| "update_slice_loop E es (Suc retries) result = do {
     r \<leftarrow> UpdateEndpointSlice E (DriverNamespace E) es;
     case r of
       Inr _ \<Rightarrow> State_Monad.return None
     | Inl _ \<Rightarrow> do {
         _ \<leftarrow> sleep E endpointSliceTimeout;
         update_slice_loop E es retries result } }"

text \<open>The slice as it is sent to the API server; \<open>Inl\<close> is a panic.\<close>

definition moved_slice :: "EndpointSlice \<Rightarrow> string \<Rightarrow> string \<Rightarrow> string + EndpointSlice" where
  "moved_slice es nid ip =
     (case Option.bind (gm_put (es_labels es) ''nodeID'' nid) (\<lambda>l. gm_put l ''nodeIP'' ip) of
        None \<Rightarrow> Inl nil_map_panic
      | Some labels \<Rightarrow>
         (case es_endpoints es of
            [] \<Rightarrow> Inl index_panic
          | ep # eps \<Rightarrow>
             (case ep_addresses ep of
                [] \<Rightarrow> Inl index_panic
              | _ # as \<Rightarrow> Inr (es\<lparr>es_labels := labels, es_endpoints := ep\<lparr>ep_addresses := ip # as\<rparr> # eps\<rparr>))))"

definition updateEndpointSlice ::
  "'w env \<Rightarrow> EndpointSlice \<Rightarrow> string \<Rightarrow> string \<Rightarrow> ('w nfs_state, err outcome) state" where
  "updateEndpointSlice E es nid ip =
     (case moved_slice es nid ip of
        Inl m \<Rightarrow> State_Monad.return (Panicked m)
      | Inr es \<Rightarrow> do {
          e \<leftarrow> update_slice_loop E es 3 (Some (''unable to update endpoint slice '' @ es_name es));
          State_Monad.return (Done e) })"

subsection \<open>Moving a volume\<close>

datatype unexport_task = Pending | Answered err | Finished

text \<open>What the goroutine has done by a point: its task and the shared \<open>err\<close> after it.\<close>

definition background ::
  "'w env \<Rightarrow> nat \<times> nat \<Rightarrow> nat \<Rightarrow> string \<Rightarrow> UnexportNfsVolumeRequest \<Rightarrow> unexport_task \<Rightarrow> err \<Rightarrow>
   ('w nfs_state, unexport_task \<times> err) state" where
  "background E sched point nodeIP req task e = do {
     task \<leftarrow> (if task = Pending \<and> fst sched \<le> point then do {
         (_, e') \<leftarrow> callUnexportNfsVolume E nodeIP req;
         State_Monad.return (Answered e') }
       else State_Monad.return task);
     State_Monad.return (case task of
       Answered e' \<Rightarrow> if snd sched \<le> point then (Finished, e') else (task, e)
     | _ \<Rightarrow> (task, e)) }"

definition publish_moved ::
  "'w env \<Rightarrow> (nat \<Rightarrow> unexport_task \<Rightarrow> err \<Rightarrow> ('w nfs_state, unexport_task \<times> err) state) \<Rightarrow> unexport_task \<Rightarrow>
   EndpointSlice \<Rightarrow> PersistentVolume \<Rightarrow> string \<Rightarrow> string \<Rightarrow> string \<Rightarrow> ('w nfs_state, err outcome) state" where
  "publish_moved E bg task es pv handle nodeIP driverNodeName = do {
     (task, _) \<leftarrow> bg 4 task None;
     (resp, e) \<leftarrow> ext (vcsi_ControllerPublishVolume (vcsi E)
       \<lparr>pub_VolumeId = ToArrayVolumeID handle, pub_NodeId = driverNodeName, pub_VolumeContext = NilMap,
        pub_VolumeCapability = Some block_capability\<rparr>);
     (task, e) \<leftarrow> bg 5 task e;
     case e of
       Some m \<Rightarrow> State_Monad.return (Done (Some
         (''reassignVolume '' @ pv_name pv @ '' got error on ControllerPublishVolume: '' @ m)))
     | None \<Rightarrow> (case resp of
         None \<Rightarrow> State_Monad.return (Panicked nil_deref_panic)
       | Some resp \<Rightarrow>
          (case gm_copy (GoMap [(''csi.requestid'', gm_get (es_labels es) ''pvName''), (ServiceName, es_name es)])
                  (pubr_PublishContext resp) of
             None \<Rightarrow> State_Monad.return (Panicked nil_map_panic)
           | Some ctx \<Rightarrow> do {
               _ \<leftarrow> bg 6 task None;
               (_, nodeError) \<leftarrow> callExportNfsVolume E nodeIP \<lparr>exp_VolumeId = handle, exp_ExportNfsContext = ctx\<rparr>;
               case nodeError of
                 Some m \<Rightarrow> State_Monad.return (Done (Some
                   (''callExportNfsVolume failed '' @ handle @ '' '' @ nodeIP @ '': '' @ m)))
               | None \<Rightarrow> do {
                   r \<leftarrow> updateEndpointSlice E es driverNodeName nodeIP;
                   State_Monad.return (case r of
                     Done _ \<Rightarrow> Done None | Panicked m \<Rightarrow> Panicked m | Running \<Rightarrow> Running) } })) }"

definition move_volume ::
  "'w env \<Rightarrow> nat \<times> nat \<Rightarrow> EndpointSlice \<Rightarrow> PersistentVolume \<Rightarrow> string \<Rightarrow> string \<Rightarrow> ('w nfs_state, err outcome) state" where
  "move_volume E sched es pv handle selectedNode = (
     let bg = (\<lambda>point. background E sched point (gm_get (es_labels es) ''nodeIP'')
           \<lparr>unexp_VolumeId = ToArrayVolumeID handle, unexp_UnexportNfsContext =
              GoMap [(''csi.requestid'', gm_get (es_labels es) ''pvName''), (ServiceName, es_name es)]\<rparr>)
     in do {
       (task, _) \<leftarrow> bg 0 Pending None;
       e \<leftarrow> ext (vcsi_ControllerUnpublishVolume (vcsi E)
         \<lparr>unpub_VolumeId = ToArrayVolumeID handle, unpub_NodeId = gm_get (es_labels es) ''nodeID''\<rparr>);
       (task, e) \<leftarrow> bg 1 task e;
       case e of
         Some m \<Rightarrow> State_Monad.return (Done (Some
           (''reassignVolume '' @ pv_name pv @ '' ControllerUnpublishVolume failed error: '' @ m)))
       | None \<Rightarrow> do {
           (task, _) \<leftarrow> bg 2 task None;
           r \<leftarrow> GetNode E selectedNode;
           (task, e) \<leftarrow> bg 3 task (case r of Inl m \<Rightarrow> Some m | Inr _ \<Rightarrow> None);
           case e of
             Some m \<Rightarrow> State_Monad.return (Done (Some
               (''reassignVolume could not Get the selected node '' @ selectedNode @ '': '' @ m)))
           | None \<Rightarrow>
              (case (case r of Inl _ \<Rightarrow> [] | Inr node \<Rightarrow> node_addresses node) of
                 [] \<Rightarrow> State_Monad.return (Panicked index_panic)
               | nodeIP # _ \<Rightarrow>
                  let csiNodeNames = (case r of Inl _ \<Rightarrow> [] | Inr node \<Rightarrow> gm_get (node_annotations node) nodeid_annotation);
                      driverNodeName = driver_node_name (DriverName E) csiNodeNames
                  in if driverNodeName = [] then State_Monad.return (Done (Some
                       (''reassignVolume couldn't identify driverNodeName: '' @
                        strip [CHR ''{'', CHR ''}'', CHR 0x22] csiNodeNames)))
                     else publish_moved E bg task es pv handle nodeIP driverNodeName) } })"

text \<open>The log line of \<open>findNextAvailableNode\<close> reads \<open>pv.Spec.CSI.VolumeHandle\<close>.\<close>

definition reassign_volume :: "'w env \<Rightarrow> nat \<times> nat \<Rightarrow> EndpointSlice \<Rightarrow> ('w nfs_state, err outcome) state" where
  "reassign_volume E sched es = (
     let pvName = gm_get (es_labels es) ''pvName''
     in do {
       r \<leftarrow> GetPersistentVolume E pvName;
       case r of
         Inl m \<Rightarrow> State_Monad.return (Done (Some (''reassignVolume: couldn't Get volume '' @ pvName @ '': '' @ m)))
       | Inr pv \<Rightarrow> do {
           r \<leftarrow> GetService E (DriverNamespace E) (es_name es);
           case r of
             Inl m \<Rightarrow> State_Monad.return (Done (Some (''reassignVolume: could not Get Service '' @ pv_name pv @ '': '' @ m)))
           | Inr service \<Rightarrow> do {
               selectedNode \<leftarrow> findNextAvailableNode;
               case pv_csi pv of
                 None \<Rightarrow> State_Monad.return (Panicked nil_deref_panic)
               | Some handle \<Rightarrow> move_volume E sched es pv handle selectedNode } } })"

definition reassignVolume :: "'w env \<Rightarrow> nat \<Rightarrow> nat \<times> nat \<Rightarrow> EndpointSlice \<Rightarrow> ('w nfs_state, err outcome) state" where
  "reassignVolume E fuel sched es =
     locked (LockPV E fuel (gm_get (es_annotations es) DriverVolumeID) ''reassign'' True)
       (UnlockPV (gm_get (es_annotations es) DriverVolumeID)) (reassign_volume E sched es)"

subsection \<open>Recovering a node\<close>

text \<open>A volume is tried twice; the schedules of the two attempts differ.\<close>

definition recover_volume ::
  "'w env \<Rightarrow> nat \<Rightarrow> (EndpointSlice \<Rightarrow> nat \<Rightarrow> nat \<times> nat) \<Rightarrow> EndpointSlice \<Rightarrow> ('w nfs_state, bool outcome) state" where
  "recover_volume E fuel sched es = do {
     r \<leftarrow> reassignVolume E fuel (sched es 0) es;
     case r of
       Done None \<Rightarrow> State_Monad.return (Done True)
     | Done (Some _) \<Rightarrow> do {
         r \<leftarrow> reassignVolume E fuel (sched es 1) es;
         State_Monad.return (case r of
           Done e \<Rightarrow> Done (e = None) | Panicked m \<Rightarrow> Panicked m | Running \<Rightarrow> Running) }
     | Panicked m \<Rightarrow> State_Monad.return (Panicked m)
     | Running \<Rightarrow> State_Monad.return Running }"

fun recover_volumes ::
  "'w env \<Rightarrow> nat \<Rightarrow> (EndpointSlice \<Rightarrow> nat \<Rightarrow> nat \<times> nat) \<Rightarrow> EndpointSlice list \<Rightarrow> nat \<Rightarrow> ('w nfs_state, nat outcome) state" where
  "recover_volumes E fuel sched [] successes = State_Monad.return (Done successes)"
| "recover_volumes E fuel sched (es # slices) successes = do {
     r \<leftarrow> recover_volume E fuel sched es;
     case r of
       Done success \<Rightarrow> recover_volumes E fuel sched slices (if success then successes + 1 else successes)
     | Panicked m \<Rightarrow> State_Monad.return (Panicked m)
     | Running \<Rightarrow> State_Monad.return Running }"

text \<open>The number of volumes moved is only logged; \<open>None\<close> when the slices cannot be listed.\<close>

definition nodeRecovery ::
  "'w env \<Rightarrow> nat \<Rightarrow> (EndpointSlice \<Rightarrow> nat \<Rightarrow> nat \<times> nat) \<Rightarrow> string \<Rightarrow> ('w nfs_state, nat option outcome) state" where
  "nodeRecovery E fuel sched nodeIP = do {
     r \<leftarrow> GetEndpointSlices E (DriverNamespace E) (''nodeIP='' @ nodeIP);
     case r of
       Inl _ \<Rightarrow> State_Monad.return (Done None)
     | Inr slices \<Rightarrow> do {
         counts \<leftarrow> getNodeExportCounts E;
         case counts of
           Done m \<Rightarrow> do {
             _ \<leftarrow> State_Monad.update (\<lambda>s. s\<lparr>exportCounts := m\<rparr>);
             r \<leftarrow> recover_volumes E fuel sched slices 0;
             State_Monad.return (case r of
               Done n \<Rightarrow> Done (Some n) | Panicked m \<Rightarrow> Panicked m | Running \<Rightarrow> Running) }
         | Panicked m \<Rightarrow> State_Monad.return (Panicked m)
         | Running \<Rightarrow> State_Monad.return Running } }"

section \<open>Lemmas\<close>

lemma lowest_count_spec:
  "(lowest_count xs (b, l) = (b, l) \<and> (\<forall>x \<in> set xs. l \<le> snd x)) \<or>
   (lowest_count xs (b, l) \<in> set xs \<and> snd (lowest_count xs (b, l)) < l \<and>
    (\<forall>x \<in> set xs. snd (lowest_count xs (b, l)) \<le> snd x))"
proof (induction xs arbitrary: b l)
  case (Cons x xs)
  obtain n c where x: "x = (n, c)" by fastforce
  show ?case
    using Cons[of n c] Cons[of b l] unfolding x by (cases "c < l") fastforce+
qed simp

lemma lowest_count_least:
  assumes "counts \<noteq> []" and "\<forall>c \<in> snd ` set counts. c < MaxInt" and "lowest_count counts ([], MaxInt) = (n, c)"
  shows "(n, c) \<in> set counts \<and> (\<forall>d \<in> snd ` set counts. c \<le> d)"
  using lowest_count_spec[of counts "[]" MaxInt] assms by (cases counts) force+

lemma map_of_reserve:
  "map_of (reserve n counts) =
    (map_of counts)(n \<mapsto> (case map_of counts n of None \<Rightarrow> 0 | Some c \<Rightarrow> c) + 1)"
  by (simp add: reserve_def update_conv')

lemma distinct_reserve: "distinct (map fst counts) \<Longrightarrow> distinct (map fst (reserve n counts))"
  by (simp add: reserve_def distinct_update)

lemma findNext_effect:
  assumes "run_state findNextAvailableNode s = (n, t)"
  shows "n = fst (lowest_count (exportCounts s) ([], MaxInt)) \<and>
    t = s\<lparr>exportCounts := reserve n (exportCounts s)\<rparr>"
  using assms by (auto simp: findNextAvailableNode_def Let_def)

subsection \<open>The shared error\<close>

text \<open>How far the goroutine is before a point, and what it may do to \<open>err\<close> there.\<close>

definition task_before :: "nat \<times> nat \<Rightarrow> nat \<Rightarrow> unexport_task \<Rightarrow> bool" where
  "task_before sched p task \<longleftrightarrow> (task = Pending \<longleftrightarrow> p \<le> fst sched) \<and> (task = Finished \<longleftrightarrow> max (fst sched) (snd sched) < p)"

lemma task_before_start [simp]: "task_before sched 0 Pending"
  by (simp add: task_before_def)





subsection \<open>The slice\<close>

interpretation slice_update: bounded_retry
  "\<lambda>_. run_state (UpdateEndpointSlice E (DriverNamespace E) es)"
  "\<lambda>r. case r of Inr _ \<Rightarrow> Some None | Inl _ \<Rightarrow> None" "\<lambda>r _. r" "\<lambda>_ s. snd (run_state (sleep E endpointSliceTimeout) s)"
  "\<lambda>n r. run_state (update_slice_loop E es n r)"
  for E :: "'w env" and es :: EndpointSlice
  by unfold_locales (auto split: prod.splits sum.splits)

lemma moved_slice_name: "moved_slice es nid ip = Inr es' \<Longrightarrow> es_name es' = es_name es \<and> es_namespace es' = es_namespace es"
  by (auto simp: moved_slice_def split: option.splits list.splits)

definition slice_stored :: "'w env \<Rightarrow> ('w \<Rightarrow> kube) \<Rightarrow> EndpointSlice \<Rightarrow> 'w nfs_state \<Rightarrow> 'w nfs_state \<Rightarrow> bool" where
  "slice_stored E V es s t \<longleftrightarrow> (let K = (DriverNamespace E, es_name es) in
     V (world t) = (if k_slices (V (world s)) K = None then V (world s)
       else (V (world s))\<lparr>k_slices := (k_slices (V (world s)))(K \<mapsto> es)\<rparr>))"


subsection \<open>Moving a volume\<close>

text \<open>What a volume that has been moved from its slice's node to \<open>sel\<close> went through.\<close>

definition published :: "'w env \<Rightarrow> string \<Rightarrow> string \<Rightarrow> string \<Rightarrow> string \<Rightarrow> bool" where
  "published E handle nid ip port \<longleftrightarrow>
     (\<exists>resp ctx w w'. fst (vcsi_ControllerPublishVolume (vcsi E)
        \<lparr>pub_VolumeId = ToArrayVolumeID handle, pub_NodeId = nid, pub_VolumeContext = NilMap,
         pub_VolumeCapability = Some block_capability\<rparr> w) = (Some resp, None) \<and>
      snd (fst (rpc_ExportNfsVolume (nfsClient E) (ip @ '':'' @ port)
        \<lparr>exp_VolumeId = handle, exp_ExportNfsContext = ctx\<rparr> w')) = None)"

definition detached :: "'w env \<Rightarrow> string \<Rightarrow> string \<Rightarrow> bool" where
  "detached E handle nid \<longleftrightarrow>
     (\<exists>w. fst (vcsi_ControllerUnpublishVolume (vcsi E) \<lparr>unpub_VolumeId = ToArrayVolumeID handle, unpub_NodeId = nid\<rparr> w) = None)"

definition moved ::
  "'w env \<Rightarrow> ('w \<Rightarrow> kube) \<Rightarrow> EndpointSlice \<Rightarrow> string \<Rightarrow> string \<Rightarrow> 'w nfs_state \<Rightarrow> 'w nfs_state \<Rightarrow> bool" where
  "moved E V es handle sel s t \<longleftrightarrow> (\<exists>node ip ips w es'.
     let nid = driver_node_name (DriverName E) (gm_get (node_annotations node) nodeid_annotation)
     in fst (cs_GetNode (clientset E) sel w) = Inr node \<and> node_addresses node = ip # ips \<and> nid \<noteq> [] \<and>
        detached E handle (gm_get (es_labels es) ''nodeID'') \<and>
        published E handle nid ip (nfsClientServicePort (nfsService s)) \<and>
        moved_slice es nid ip = Inr es' \<and> slice_stored E V es' s t)"









text \<open>The same environment with other answers of the host driver to unpublish requests.\<close>

definition unpublish_answers ::
  "'w env \<Rightarrow> (ControllerUnpublishVolumeRequest \<Rightarrow> 'w \<Rightarrow> err) \<Rightarrow> 'w env" where
  "unpublish_answers E f = E\<lparr>vcsi := (vcsi E)\<lparr>vcsi_ControllerUnpublishVolume :=
     \<lambda>r w. (f r w, snd (vcsi_ControllerUnpublishVolume (vcsi E) r w))\<rparr>\<rparr>"

lemma unpublish_answers_fields [simp]:
  "clientset (unpublish_answers E f) = clientset E" "nfsClient (unpublish_answers E f) = nfsClient E"
  "runtime (unpublish_answers E f) = runtime E" "DriverNamespace (unpublish_answers E f) = DriverNamespace E"
  "DriverName (unpublish_answers E f) = DriverName E"
  "vcsi_ControllerPublishVolume (vcsi (unpublish_answers E f)) = vcsi_ControllerPublishVolume (vcsi E)"
  "vcsi_ControllerUnpublishVolume (vcsi (unpublish_answers E f)) r w =
     (f r w, snd (vcsi_ControllerUnpublishVolume (vcsi E) r w))"
  by (simp_all add: unpublish_answers_def)

lemma unpublish_answers_calls [simp]:
  "callUnexportNfsVolume (unpublish_answers E f) = callUnexportNfsVolume E"
  "callExportNfsVolume (unpublish_answers E f) = callExportNfsVolume E"
  "background (unpublish_answers E f) = background E" "GetNode (unpublish_answers E f) = GetNode E"
  "GetPersistentVolume (unpublish_answers E f) = GetPersistentVolume E" "GetService (unpublish_answers E f) = GetService E"
  "sleep (unpublish_answers E f) = sleep E"
  by (unfold callUnexportNfsVolume_def callExportNfsVolume_def getNfsClient_def background_def GetNode_def
      GetPersistentVolume_def GetService_def sleep_def unpublish_answers_fields) (rule refl)+

lemma unpublish_answers_slice [simp]: "updateEndpointSlice (unpublish_answers E f) = updateEndpointSlice E"
proof -
  have "update_slice_loop (unpublish_answers E f) es n r = update_slice_loop E es n r" for es n r
    by (induction n) (simp_all add: UpdateEndpointSlice_def cong: sum.case_cong)
  then show ?thesis by (intro ext) (simp add: updateEndpointSlice_def cong: sum.case_cong)
qed

lemma unpublish_answers_publish: "publish_moved (unpublish_answers E f) = publish_moved E"
  by (intro ext) (unfold publish_moved_def unpublish_answers_fields unpublish_answers_calls unpublish_answers_slice, rule refl)

lemma unpublish_answers_lock: "LockPV (unpublish_answers E f) = LockPV E"
proof -
  have "lock_loop (unpublish_answers E f) d n k v = lock_loop E d n k v" for d n k v
    by (induction n) (simp_all cong: prod.case_cong if_cong)
  then show ?thesis by (simp add: LockPV_def fun_eq_iff)
qed

lemma background_overwrites:
  "task \<noteq> Finished \<Longrightarrow> fst sched \<le> p \<Longrightarrow> snd sched \<le> p \<Longrightarrow>
   run_state (background E sched p ip req task e) s = run_state (background E sched p ip req task e') s"
  by (cases task) (auto simp: background_def split: prod.split)

lemma background_unfinished:
  "\<not> snd sched \<le> p \<Longrightarrow> run_state (background E sched p ip req Pending e) s = ((task, e'), t) \<Longrightarrow> task \<noteq> Finished"
  by (auto simp: background_def split: if_splits prod.splits)

lemma move_volume_hides:
  assumes "fst sched \<le> 1" and "snd sched = 1"
  shows "move_volume (unpublish_answers E f) sched es pv handle sel = move_volume E sched es pv handle sel"
proof -
  let ?bg = "\<lambda>point. background E sched point (gm_get (es_labels es) ''nodeIP'')
           \<lparr>unexp_VolumeId = ToArrayVolumeID handle, unexp_UnexportNfsContext =
              GoMap [(''csi.requestid'', gm_get (es_labels es) ''pvName''), (ServiceName, es_name es)]\<rparr>"
  let ?req = "\<lparr>unpub_VolumeId = ToArrayVolumeID handle, unpub_NodeId = gm_get (es_labels es) ''nodeID''\<rparr>"
  have step: "run_state (do { (task, e') \<leftarrow> ?bg 0 Pending None;
        e \<leftarrow> ext (vcsi_ControllerUnpublishVolume (vcsi (unpublish_answers E f)) ?req);
        (task, e) \<leftarrow> ?bg 1 task e; k task e }) s =
      run_state (do { (task, e') \<leftarrow> ?bg 0 Pending None;
        e \<leftarrow> ext (vcsi_ControllerUnpublishVolume (vcsi E) ?req);
        (task, e) \<leftarrow> ?bg 1 task e; k task e }) s" for k s
  proof -
    obtain task e' t where bg0: "run_state (?bg 0 Pending None) s = ((task, e'), t)" by (metis prod.collapse)
    have "task \<noteq> Finished" by (rule background_unfinished[OF _ bg0]) (simp add: assms(2))
    from background_overwrites[OF this, of sched 1] assms
    have "run_state (?bg 1 task e) u = run_state (?bg 1 task e'') u" for e e'' u by simp
    then show ?thesis by (simp add: bg0) metis
  qed
  show ?thesis
    by (intro state.expand ext)
       (unfold move_volume_def Let_def unpublish_answers_fields(1-6) unpublish_answers_calls unpublish_answers_publish, rule step)
qed

lemma reassignVolume_hides:
  assumes "fst sched \<le> 1" and "snd sched = 1"
  shows "reassignVolume (unpublish_answers E f) fuel sched es = reassignVolume E fuel sched es"
proof -
  have "reassign_volume (unpublish_answers E f) sched es = reassign_volume E sched es"
    unfolding reassign_volume_def Let_def unpublish_answers_calls unpublish_answers_fields move_volume_hides[OF assms] ..
  then show ?thesis unfolding reassignVolume_def unpublish_answers_lock by simp
qed

subsection \<open>A sample run\<close>

definition sample_slice :: EndpointSlice where
  "sample_slice = make_slice ''ns'' ''nfs-v1'' ''pv1'' ''n1'' ''10.0.0.1'' ''v1'' 2049"

text \<open>The volume \<open>nfs-v1\<close> on a failed node, and one node with two exports.\<close>

definition failed_node :: "sample_world nfs_state" where
  "failed_node = (sample_state [])\<lparr>exportCounts := [(''n2'', 2)],
     world := sample_start\<lparr>
       w_nodes := [(''n2'', \<lparr>node_name = ''n2'', node_labels = GoMap [],
         node_annotations = GoMap [(nodeid_annotation, ''{driver:id2}'')], node_addresses = [''10.0.0.2'']\<rparr>)],
       w_volumes := [(''pv1'', \<lparr>pv_name = ''pv1'', pv_csi = Some ''nfs-v1''\<rparr>)],
       w_services := [((''ns'', ''nfs-v1''), make_service ''ns'' ''nfs-v1'' ''pv1'' ''n1'' ''10.0.0.1'' ''v1'' 2049)],
       w_slices := [((''ns'', ''nfs-v1''), sample_slice)]\<rparr>\<rparr>"

lemma sample_driver_node_name: "driver_node_name ''driver'' ''{driver:id2}'' = ''id2''"
  by (simp add: driver_node_name_def strip_def HasPrefix_def)

lemma sample_background:
  "run_state (background sample_env (a, b) p ip req task e) s =
    ((case (if task = Pending \<and> a \<le> p then Answered None else task) of
        Answered e' \<Rightarrow> if b \<le> p then (Finished, e') else (Answered e', e)
      | task' \<Rightarrow> (task', e)), s)"
  by (cases task) (simp_all add: background_def callUnexportNfsVolume_def getNfsClient_def sample_defs)

lemma sample_ops:
  "cs_GetNode (clientset sample_env) n w = (store_get (w_nodes w) n, w)"
  "cs_GetPersistentVolume (clientset sample_env) n w = (store_get (w_volumes w) n, w)"
  "cs_GetService (clientset sample_env) ns n w = (store_get (w_services w) (ns, n), w)"
  "vcsi_ControllerUnpublishVolume (vcsi sample_env) r w = (None, note_call ''unpublish'' w)"
  "vcsi_ControllerPublishVolume (vcsi sample_env) r' w = ((Some \<lparr>pubr_PublishContext = GoMap []\<rparr>, None), w)"
  "run_state (callExportNfsVolume sample_env ip er) s = ((Some \<lparr>expr_VolumeId = exp_VolumeId er, expr_ExportNfsContext = NilMap\<rparr>, None), s)"
  "DriverNamespace sample_env = ''ns''" "DriverName sample_env = ''driver''"
  by (simp_all add: sample_defs callExportNfsVolume_def getNfsClient_def)

lemma sample_update_slice: "\<exists>e t. run_state (update_slice_loop sample_env es n r) s = (e, t) \<and> w_log (world t) = w_log (world s)"
  by (induction n arbitrary: r s) (auto simp: client_defs sample_defs split: option.splits)

lemma sample_moved:
  assumes "sched = (7, 7) \<or> sched = (1, 1)" and "world u = world failed_node"
    and "exportCounts u = [(''n2'', c)]" and "c < MaxInt"
  shows "\<exists>t. run_state (reassign_volume sample_env sched sample_slice) u = (Done None, t) \<and>
    w_log (world t) = [''unpublish'']"
proof -
  have world: "store_get (w_volumes (world failed_node)) ''pv1'' = Inr \<lparr>pv_name = ''pv1'', pv_csi = Some ''nfs-v1''\<rparr>"
    "\<exists>v. store_get (w_services (world failed_node)) (''ns'', ''nfs-v1'') = Inr v"
    "\<exists>v. store_get (w_nodes (world failed_node)) ''n2'' = Inr v \<and> node_addresses v = [''10.0.0.2''] \<and>
      gm_get (node_annotations v) nodeid_annotation = ''{driver:id2}''"
    "fst (lowest_count (exportCounts u) ([], MaxInt)) = ''n2''" "w_log (world failed_node) = []"
    using assms(3,4) by (simp_all add: failed_node_def store_get_def gm_get_def gm_lookup_def sample_start_def)
  have es: "gm_get (es_labels sample_slice) ''pvName'' = ''pv1''" "es_name sample_slice = ''nfs-v1''"
    by (simp_all add: sample_slice_def make_slice_def gm_get_def gm_lookup_def)
  obtain es' where moved: "moved_slice sample_slice ''id2'' ''10.0.0.2'' = Inr es'"
    by (simp add: moved_slice_def sample_slice_def make_slice_def)
  obtain sv where sv: "store_get (w_services (world failed_node)) (''ns'', ''nfs-v1'') = Inr sv" using world(2) by blast
  obtain nv where nv: "store_get (w_nodes (world failed_node)) ''n2'' = Inr nv" "node_addresses nv = [''10.0.0.2'']"
    "gm_get (node_annotations nv) nodeid_annotation = ''{driver:id2}''" using world(3) by blast
  obtain es' where moved: "moved_slice sample_slice ''id2'' ''10.0.0.2'' = Inr es'"
    by (simp add: moved_slice_def sample_slice_def make_slice_def)
  have note_nodes: "w_nodes (note_call c w) = w_nodes w" "w_log (note_call c w) = w_log w @ [c]" for c w
    by (simp_all add: note_call_def)
  have log: "run_state (update_slice_loop sample_env es' 3 r) s = (e, t) \<Longrightarrow> w_log (world t) = w_log (world s)" for r s e t
    using sample_update_slice[of es' 3 r s] by auto
  from assms(1) show ?thesis
    by (elim disjE; simp add: assms(2) reassign_volume_def Let_def findNextAvailableNode_def GetPersistentVolume_def
      GetService_def GetNode_def world(1,4,5) sv nv note_nodes sample_ops es move_volume_def publish_moved_def
      sample_background sample_driver_node_name gm_copy_def moved updateEndpointSlice_def split: prod.split)
      (auto dest!: log simp: note_nodes world)
qed

lemma sample_reassigned:
  assumes "sched = (7, 7) \<or> sched = (1, 1)" and "world s = world failed_node"
    and "exportCounts s = [(''n2'', c)]" and "c < MaxInt" and "PVLock s = Map.empty"
  shows "\<exists>t. run_state (reassignVolume sample_env 1 sched sample_slice) s = (Done None, t) \<and>
    w_log (world t) = [''unpublish'']"
proof -
  obtain t where "run_state (reassign_volume sample_env sched sample_slice) (s\<lparr>PVLock :=
      [gm_get (es_annotations sample_slice) DriverVolumeID \<mapsto> ''reassign'']\<rparr>) = (Done None, t)" "w_log (world t) = [''unpublish'']"
    using sample_moved[OF assms(1), of "s\<lparr>PVLock := [gm_get (es_annotations sample_slice) DriverVolumeID \<mapsto> ''reassign'']\<rparr>" c]
      assms(2-4) by auto
  then show ?thesis
    by (auto simp: reassignVolume_def locked_def LockPV_def LoadOrStore_def UnlockPV_def assms(5))
qed

lemma sample_failed_node: "exportCounts failed_node = [(''n2'', 2)]" "2 < MaxInt" "PVLock failed_node = Map.empty"
  by (simp_all add: failed_node_def sample_state_def MaxInt_def)









subsection \<open>The table during a recovery\<close>

text \<open>Where the names of the table come from: \<open>P\<close> holds of them, or it is the node without a name.\<close>

definition names_ok :: "(string \<Rightarrow> bool) \<Rightarrow> 'w nfs_state \<Rightarrow> bool" where
  "names_ok P s \<longleftrightarrow> (\<forall>n \<in> fst ` set (exportCounts s). n = [] \<or> P n)"

lemma names_ok_process: "process t = process s \<Longrightarrow> names_ok P t = names_ok P s"
  using process_fields(7)[of t s] by (simp add: names_ok_def)

lemma fst_update: "fst ` set (AList.update k v al) \<subseteq> insert k (fst ` set al)"
  using set_update_subset[of k v al] by force

lemma names_ok_findNext: "names_ok P s \<Longrightarrow> wp findNextAvailableNode (\<lambda>_. names_ok P) s"
proof -
  assume ok: "names_ok P s"
  let ?sel = "fst (lowest_count (exportCounts s) ([], MaxInt))"
  have "?sel = [] \<or> ?sel \<in> fst ` set (exportCounts s)"
    using lowest_count_spec[of "exportCounts s" "[]" MaxInt] by force
  with ok have "?sel = [] \<or> P ?sel" by (auto simp: names_ok_def)
  then have "names_ok P (s\<lparr>exportCounts := reserve ?sel (exportCounts s)\<rparr>)"
    using ok fst_update[of ?sel _ "exportCounts s"] unfolding names_ok_def reserve_def by fastforce
  then show "wp findNextAvailableNode (\<lambda>_. names_ok P) s"
    unfolding findNextAvailableNode_def by (intro wp_bind wp_get wp_let wp_update wp_return) simp
qed

lemma keeps_process_move:
  "keeps process (move_volume E sched es pv handle sel)"
proof -
  have loop: "keeps process (update_slice_loop E es n r)" for es n r
    by (induction n) (auto intro!: frame simp: UpdateEndpointSlice_def simp del: run_state_bind)
  have bg: "keeps process (background E sched p ip req task e)" for p ip req task e
    unfolding background_def by (intro frame)
  show ?thesis
    unfolding move_volume_def publish_moved_def updateEndpointSlice_def GetNode_def
    by (intro frame loop bg keeps_case_list keeps_process_ext)
qed

lemma names_ok_reassign: "names_ok P s \<Longrightarrow> wp (reassignVolume E fuel sched es) (\<lambda>_. names_ok P) s"
proof -
  have ext: "wp m Q u" if "keeps process m" "names_ok P u" "\<And>a t. names_ok P t \<Longrightarrow> Q a t" for m :: "('a nfs_state, 'x) state" and Q u
    using that(1) by (rule wp_keeps) (use that(2,3) names_ok_process in blast)
  have find: "wp findNextAvailableNode Q u" if "names_ok P u" "\<And>a t. names_ok P t \<Longrightarrow> Q a t" for Q and u :: "'a nfs_state"
    by (rule wp_mono[OF names_ok_findNext[OF that(1)]]) (rule that(2))
  have body: "wp (reassign_volume E sched es) (\<lambda>_. names_ok P) u" if "names_ok P u" for u
    unfolding reassign_volume_def
    by (intro wp_let wp_bind ext[OF keeps_process_client(10)] ext[OF keeps_process_client(3)] ext[OF keeps_process_move] find
        wp_case_sum wp_case_option wp_return that)
  have locks: "wp m Q u" if "keeps work m" "names_ok P u" "\<And>a t. names_ok P t \<Longrightarrow> Q a t" for m :: "('a nfs_state, 'x) state" and Q u
    using that(1) by (rule wp_keeps) (use that(2,3) work_fields(5) in \<open>metis names_ok_def\<close>)
  show "names_ok P s \<Longrightarrow> wp (reassignVolume E fuel sched es) (\<lambda>_. names_ok P) s"
    unfolding reassignVolume_def locked_def
    by (intro wp_bind locks[OF keeps_work_lock(2)] locks[OF keeps_work_unlock(1)] wp_case_outcome wp_return wp_mono[OF body])
qed

lemma names_ok_recover:
  "names_ok P s \<Longrightarrow> wp (recover_volume E fuel sched es) (\<lambda>_. names_ok P) s"
proof -
  have step: "wp (reassignVolume E fuel sched es) Q u" if "names_ok P u" "\<And>a t. names_ok P t \<Longrightarrow> Q a t"
    for sched es Q and u :: "'a nfs_state"
    by (rule wp_mono[OF names_ok_reassign[OF that(1)]]) (rule that(2))
  show "names_ok P s \<Longrightarrow> wp (recover_volume E fuel sched es) (\<lambda>_. names_ok P) s"
    unfolding recover_volume_def by (intro wp_bind step wp_case_outcome wp_case_option wp_return)
qed

lemma recover_volumes_effect:
  "names_ok P s \<Longrightarrow> wp (recover_volumes E fuel sched slices k)
     (\<lambda>r t. names_ok P t \<and> (\<forall>n. r = Done n \<longrightarrow> k \<le> n \<and> n \<le> k + length slices)) s"
proof (induction slices arbitrary: k s)
  case Nil
  then show ?case by (simp add: wp_def)
next
  case (Cons es slices)
  have rest: "wp (recover_volumes E fuel sched slices (if success then k + 1 else k))
      (\<lambda>r t. names_ok P t \<and> (\<forall>n. r = Done n \<longrightarrow> k \<le> n \<and> n \<le> k + length (es # slices))) u"
    if "names_ok P u" for success and u :: "'a nfs_state"
    by (rule wp_mono[OF Cons.IH[OF that]]) (auto split: if_splits)
  have first: "wp (recover_volume E fuel sched es) Q s" if "\<And>a t. names_ok P t \<Longrightarrow> Q a t" for Q
    by (rule wp_mono[OF names_ok_recover[OF Cons.prems]]) (rule that)
  show ?case unfolding recover_volumes.simps
    by (intro wp_bind first wp_case_outcome rest wp_return) auto
qed

section \<open>Properties\<close>

text \<open>
  C21: the choice of a new server. From a table that is not empty the chosen node has the lowest
  count, and its count, and no other, goes up by one: the slot is reserved before the next volume
  is placed. A recovery that finds no node at all chooses the node without a name, and enters it
  in the table, so that every later choice of the same recovery finds it there.
\<close>

theorem next_node_has_lowest_count:
  assumes "run_state findNextAvailableNode s = (n, t)" and "distinct (map fst (exportCounts s))"
    and "\<forall>c \<in> snd ` set (exportCounts s). c < MaxInt"
  shows "t = s\<lparr>exportCounts := exportCounts t\<rparr> \<and>
    (if exportCounts s = [] then n = [] \<and> exportCounts t = [([], 1)]
     else \<exists>c. map_of (exportCounts s) n = Some c \<and> (\<forall>m d. map_of (exportCounts s) m = Some d \<longrightarrow> c \<le> d) \<and>
       map_of (exportCounts t) = (map_of (exportCounts s))(n \<mapsto> c + 1))"
proof (cases "exportCounts s = []")
  case True
  then show ?thesis using findNext_effect[OF assms(1)] by (simp add: reserve_def)
next
  case False
  obtain c where low: "lowest_count (exportCounts s) ([], MaxInt) = (n, c)"
    using findNext_effect[OF assms(1)] by (metis prod.collapse)
  from lowest_count_least[OF False assms(3) low] have mem: "(n, c) \<in> set (exportCounts s)"
    and least: "\<forall>d \<in> snd ` set (exportCounts s). c \<le> d" by simp_all
  have n: "map_of (exportCounts s) n = Some c" using mem assms(2) by simp
  moreover have "c \<le> d" if "map_of (exportCounts s) m = Some d" for m d
    using least map_of_SomeD[OF that] by force
  ultimately show ?thesis using findNext_effect[OF assms(1)] False by (auto simp: map_of_reserve)
qed

theorem next_node_has_lowest_count_witness:
  "\<exists>t. run_state findNextAvailableNode ((sample_state [])\<lparr>exportCounts := [(''n1'', 3), (''n2'', 1)]\<rparr>) = (''n2'', t) \<and>
     map_of (exportCounts t) ''n2'' = Some 2"
proof -
  let ?s = "(sample_state [])\<lparr>exportCounts := [(''n1'', 3), (''n2'', 1)]\<rparr>"
  obtain t where run: "run_state findNextAvailableNode ?s = (''n2'', t)"
    by (simp add: findNextAvailableNode_def MaxInt_def Let_def)
  have "\<exists>c. map_of (exportCounts ?s) ''n2'' = Some c \<and> map_of (exportCounts t) = (map_of (exportCounts ?s))(''n2'' \<mapsto> c + 1)"
    using next_node_has_lowest_count[OF run] by (force simp: MaxInt_def)
  with run show ?thesis by auto
qed





text \<open>
  C38: the goroutine that tells the failed node to unexport the volume assigns to the \<open>err\<close> of the
  function that started it. When it ends between the host driver's answer and the test of \<open>err\<close>,
  the host driver's error is never seen: whatever the host driver answers to the unpublish
  request, the recovery goes on in the same way, to the same result, and can export on a second
  node a volume that is still attached to the first.
\<close>

theorem racing_goroutine_hides_host_error:
  "run_state (reassignVolume (unpublish_answers E f) fuel (0, 1) es) s = run_state (reassignVolume E fuel (0, 1) es) s \<and>
   run_state (reassignVolume (unpublish_answers E f) fuel (1, 1) es) s = run_state (reassignVolume E fuel (1, 1) es) s \<and>
   (\<exists>t. run_state (reassignVolume (unpublish_answers sample_env (\<lambda>_ _. Some ''volume is attached'')) 1 (1, 1) sample_slice)
     failed_node = (Done None, t))"
  using sample_reassigned[OF _ refl sample_failed_node, of "(1, 1)"] by (auto simp: reassignVolume_hides)



text \<open>
  C22: a recovery places volumes on healthy nodes only. Every name in the table that
  \<open>nodeRecovery\<close> leaves behind, and so every node it has chosen, is the name of a node that was
  not in recovery when it began, or the empty name of a choice without candidates; and it moves
  no more volumes than it found on the failed node.
\<close>

theorem recovery_uses_healthy_nodes:
  assumes "run_state (nodeRecovery E fuel sched ip) s = (Done (Some n), t)"
  shows "(\<forall>name \<in> fst ` set (exportCounts t). name = [] \<or>
      (\<exists>(a, st) \<in> set (nodeIPAddress s). name = ns_nodeName st \<and> \<not> inRecovery st)) \<and>
    (\<exists>slices. fst (cs_ListEndpointSlices (clientset E) (DriverNamespace E) (''nodeIP='' @ ip) (world s)) = Inr slices \<and>
      n \<le> length slices)"
proof -
  let ?P = "\<lambda>name. \<exists>(a, st) \<in> set (nodeIPAddress s). name = ns_nodeName st \<and> \<not> inRecovery st"
  let ?list = "cs_ListEndpointSlices (clientset E) (DriverNamespace E) (''nodeIP='' @ ip)"
  have count: "wp (getNodeExportCounts E) Q u"
    if "nodeIPAddress u = nodeIPAddress s" and "\<And>m t. names_ok ?P (t\<lparr>exportCounts := m\<rparr>) \<Longrightarrow> Q (Done m) t"
      and "\<And>m t. Q (Panicked m) t" and "\<And>t. Q Running t" for Q and u :: "'a nfs_state"
  proof (rule wp_run)
    fix a t assume run: "run_state (getNodeExportCounts E) u = (a, t)"
    show "Q a t"
    proof (cases a)
      case (Done m)
      from count_exports_effect[OF run[unfolded Done getNodeExportCounts_def, simplified]] that(1)
      have "names_ok ?P (t\<lparr>exportCounts := m\<rparr>)" by (fastforce simp: names_ok_def)
      then show ?thesis using Done that(2) by simp
    qed (use that in auto)
  qed
  have volumes: "wp (recover_volumes E fuel sched slices 0) Q u"
    if "names_ok ?P u" "\<And>r t. names_ok ?P t \<Longrightarrow> (\<And>n. r = Done n \<Longrightarrow> n \<le> length slices) \<Longrightarrow> Q r t" for slices Q and u :: "'a nfs_state"
    by (rule wp_mono[OF recover_volumes_effect[OF that(1)]]) (use that(2) in auto)
  have "wp (nodeRecovery E fuel sched ip) (\<lambda>r t. \<forall>n. r = Done (Some n) \<longrightarrow> names_ok ?P t \<and>
      (\<exists>slices. fst (?list (world s)) = Inr slices \<and> n \<le> length slices)) s"
    unfolding nodeRecovery_def GetEndpointSlices_def
    apply (intro wp_bind wp_ext wp_return wp_case_sum wp_case_outcome wp_update count volumes)
    apply (auto split: sum.splits outcome.splits)
    done
  from wpD[OF this assms] show ?thesis by (simp add: names_ok_def)
qed

theorem recovery_uses_healthy_nodes_witness:
  "\<exists>t. run_state (nodeRecovery sample_env 1 (\<lambda>_ _. (7, 7)) ''10.0.0.1'')
      (failed_node\<lparr>nodeIPAddress := [(''10.0.0.2'', initial_status ''n2'' ''10.0.0.2'')]\<rparr>) = (Done (Some 1), t) \<and>
    fst ` set (exportCounts t) \<subseteq> {[], ''n2''}"
proof -
  let ?s = "failed_node\<lparr>nodeIPAddress := [(''10.0.0.2'', initial_status ''n2'' ''10.0.0.2'')]\<rparr>"
  have list: "run_state (GetEndpointSlices sample_env (DriverNamespace sample_env) (''nodeIP='' @ ''10.0.0.1'')) ?s = (Inr [sample_slice], ?s)"
    by (simp add: GetEndpointSlices_def sample_env_def sample_clientset_def failed_node_def)
  have counts: "run_state (getNodeExportCounts sample_env) ?s = (Done [(''n2'', 0)], ?s)"
    by (simp add: getNodeExportCounts_def getExports_def getNfsClient_def sample_defs initial_status_def)
  have "world (?s\<lparr>exportCounts := [(''n2'', 0)]\<rparr>) = world failed_node" "exportCounts (?s\<lparr>exportCounts := [(''n2'', 0)]\<rparr>) = [(''n2'', 0)]"
    "0 < MaxInt" "PVLock (?s\<lparr>exportCounts := [(''n2'', 0)]\<rparr>) = Map.empty"
    using sample_failed_node by (simp_all add: MaxInt_def)
  from sample_reassigned[OF _ this, of "(7, 7)"] obtain t where
    one: "run_state (reassignVolume sample_env 1 (7, 7) sample_slice) (?s\<lparr>exportCounts := [(''n2'', 0)]\<rparr>) = (Done None, t)"
    by auto
  have run: "run_state (nodeRecovery sample_env 1 (\<lambda>_ _. (7, 7)) ''10.0.0.1'') ?s = (Done (Some 1), t)"
    unfolding nodeRecovery_def using list counts one by (simp add: recover_volume_def)
  from recovery_uses_healthy_nodes[OF run] run show ?thesis by (auto simp: initial_status_def)
qed

end
