(* ===== verification/Node_Service.thy ===== *)
theory Node_Service
  imports PV_Locks K8s_Client
begin

text \<open>
  The CSI node service (\<open>src/nfs/node.go\<close>): staging a volume mounts its Service's export with NFS,
  publishing bind-mounts the staging directory, and the inverse operations unmount.

  The messages of the answers have no fields, so an operation yields its error. The mount command
  runs in a goroutine; \<open>select_done\<close> tells whether the request's context ends first. \<open>mountMutex\<close>,
  which serialises mounts, has no effect on a single call.
\<close>

section \<open>Definitions\<close>

record NodeStageVolumeRequest =
  stage_VolumeId :: string
  stage_StagingTargetPath :: string

record NodePublishVolumeRequest =
  npub_VolumeId :: string
  npub_StagingTargetPath :: string
  npub_TargetPath :: string

record NodeUnstageVolumeRequest =
  unstage_VolumeId :: string
  unstage_StagingTargetPath :: string

record NodeUnpublishVolumeRequest =
  nunpub_VolumeId :: string
  nunpub_TargetPath :: string

definition defaultTimeout :: nat where "defaultTimeout = 10 * Second"
definition nodeStageRetryWait :: nat where "nodeStageRetryWait = defaultTimeout"
definition nodeStageTimeout :: nat where "nodeStageTimeout = 15 * Second"
definition nodeUnpublishTimeout :: nat where "nodeUnpublishTimeout = defaultTimeout"

definition executeCommand :: "'w env \<Rightarrow> string \<Rightarrow> string list \<Rightarrow> ('w nfs_state, string \<times> err) state" where
  "executeCommand E name args = ext (ExecuteCommand (exec E) name args)"

definition isAlreadyMounted :: "'w env \<Rightarrow> string \<Rightarrow> ('w nfs_state, bool) state" where
  "isAlreadyMounted E device = do {
     (out, e) \<leftarrow> executeCommand E ''mount'' [];
     State_Monad.return (e = None \<and> list_ex (\<lambda>line. Contains line device) (Split out (CHR ''\<newline>''))) }"

definition mount_source :: "'w env \<Rightarrow> Service \<Rightarrow> string \<Rightarrow> string" where
  "mount_source E service serviceName = svc_clusterIP service @ '':'' @ NfsExportDirectory E @ ''/'' @ serviceName"

definition mount_command :: "string \<Rightarrow> string \<Rightarrow> string list" where
  "mount_command mountSource target =
     [''mount'', ''-t'', ''nfs4'', ''-o'', ''max_connect=2'', mountSource, target]"

definition mount_staged :: "'w env \<Rightarrow> string \<Rightarrow> string \<Rightarrow> ('w nfs_state, err) state" where
  "mount_staged E mountSource target = do {
     (_, e) \<leftarrow> executeCommand E ''mkdir'' [''-p'', target];
     _ \<leftarrow> (if e = None then State_Monad.return ([], None) else executeCommand E ''umount'' [target]);
     _ \<leftarrow> executeCommand E ''chmod'' [''02777'', target];
     (_, e) \<leftarrow> ext (GetCombinedOutput (exec E) (mount_command mountSource target));
     over \<leftarrow> ext (select_done (runtime E));
     State_Monad.return (if over then Some ''NodeStage Mount command timeout'' else e) }"

definition nodeStageVolume :: "'w env \<Rightarrow> NodeStageVolumeRequest \<Rightarrow> ('w nfs_state, err) state" where
  "nodeStageVolume E req = (
     let serviceName = VolumeIDToServiceName (unicode_ToLower (runtime E)) (stage_VolumeId req);
         namespace = DriverNamespace E
     in do {
       r \<leftarrow> GetService E namespace serviceName;
       case r of
         Inl _ \<Rightarrow> State_Monad.return (Some (''could not get service Namespace: '' @ namespace @
           '', ServiceName: '' @ serviceName @ '', Service: '' @ fmt_Service (runtime E) None))
       | Inr service \<Rightarrow>
           if svc_clusterIP service = [] then State_Monad.return (Some
             (''NodeStageVolume '' @ stage_VolumeId req @ '' failed, service IP empty''))
           else do {
             let mountSource = mount_source E service serviceName;
             mounted \<leftarrow> isAlreadyMounted E mountSource;
             if mounted then State_Monad.return None
             else if stage_StagingTargetPath req = [] then State_Monad.return (Some
               (''NodeStageVolume '' @ stage_VolumeId req @ '' failed, TargetPath empty''))
             else mount_staged E mountSource (stage_StagingTargetPath req) } })"

text \<open>The retries, with the answer of the last attempt.\<close>

fun stage_loop :: "'w env \<Rightarrow> NodeStageVolumeRequest \<Rightarrow> nat \<Rightarrow> err \<Rightarrow> ('w nfs_state, err) state" where
  "stage_loop E req 0 e = State_Monad.return e"
| "stage_loop E req (Suc retries) e = do {
     e \<leftarrow> nodeStageVolume E req;
     case e of
       None \<Rightarrow> State_Monad.return None
     | Some m \<Rightarrow>
         if \<not> Contains m ''timeout'' then State_Monad.return (Some m)
         else do {
           _ \<leftarrow> sleep E nodeStageRetryWait;
           stage_loop E req retries (Some m) } }"

definition NodeStageVolume :: "'w env \<Rightarrow> nat \<Rightarrow> NodeStageVolumeRequest \<Rightarrow> ('w nfs_state, err outcome) state" where
  "NodeStageVolume E fuel req =
     locked (LockPV E fuel (stage_VolumeId req) (stage_VolumeId req) False) (UnlockPV (stage_VolumeId req))
       (do {
          s \<leftarrow> State_Monad.get;
          e \<leftarrow> stage_loop E req (failureRetries (nfsService s)) None;
          State_Monad.return (Done e) })"

text \<open>\<open>umount\<close> exits with status 32 when the target is not mounted.\<close>

definition unmount_target :: "'w env \<Rightarrow> string list \<Rightarrow> ('w nfs_state, err) state" where
  "unmount_target E args = do {
     (_, e) \<leftarrow> ext (ExecuteCommandContext (exec E) ''umount'' args);
     State_Monad.return (case e of
       None \<Rightarrow> None
     | Some m \<Rightarrow> if Contains m ''exit status 32'' then None else Some m) }"

definition NodeUnstageVolume :: "'w env \<Rightarrow> nat \<Rightarrow> NodeUnstageVolumeRequest \<Rightarrow> ('w nfs_state, err outcome) state" where
  "NodeUnstageVolume E fuel req =
     locked (LockPV E fuel (unstage_VolumeId req) (unstage_VolumeId req) False) (UnlockPV (unstage_VolumeId req))
       (if \<not> IsNFSVolumeID (unstage_VolumeId req)
        then State_Monad.return (Done (Some (''nfs NodeUnstageVolume called on non NFS volume '' @ unstage_VolumeId req)))
        else do {
          e \<leftarrow> unmount_target E [''--force'', unstage_StagingTargetPath req];
          State_Monad.return (Done e) })"

definition NodePublishVolume :: "'w env \<Rightarrow> nat \<Rightarrow> NodePublishVolumeRequest \<Rightarrow> ('w nfs_state, err outcome) state" where
  "NodePublishVolume E fuel req =
     locked (LockPV E fuel (npub_VolumeId req) (npub_VolumeId req) False) (UnlockPV (npub_VolumeId req))
       (do {
          (_, e) \<leftarrow> executeCommand E ''mkdir'' [''-p'', npub_TargetPath req];
          if (case e of None \<Rightarrow> False | Some m \<Rightarrow> \<not> Contains m ''exists'')
          then State_Monad.return (Done (Some
            (npub_VolumeId req @ '': Couldn't create target directory: '' @ the e)))
          else do {
            (_, e) \<leftarrow> executeCommand E ''mount'' [''--bind'', npub_StagingTargetPath req, npub_TargetPath req];
            State_Monad.return (Done e) } })"

definition NodeUnpublishVolume :: "'w env \<Rightarrow> nat \<Rightarrow> NodeUnpublishVolumeRequest \<Rightarrow> ('w nfs_state, err outcome) state" where
  "NodeUnpublishVolume E fuel req =
     locked (LockPV E fuel (nunpub_VolumeId req) (nunpub_VolumeId req) False) (UnlockPV (nunpub_VolumeId req))
       (if \<not> IsNFSVolumeID (nunpub_VolumeId req)
        then State_Monad.return (Done (Some (''nfs NodeUnpublishVolume called on non NFS volume '' @ nunpub_VolumeId req)))
        else do {
          e \<leftarrow> unmount_target E [''--force'', ''-l'', nunpub_TargetPath req];
          State_Monad.return (Done e) })"

subsection \<open>Calls without an implementation\<close>

text \<open>They answer with an empty message; unmounting through this service is an error.\<close>

definition NodeGetVolumeStats :: err where "NodeGetVolumeStats = None"
definition NodeExpandVolume :: err where "NodeExpandVolume = None"
definition NodeGetCapabilities :: err where "NodeGetCapabilities = None"
definition NodeGetInfo :: err where "NodeGetInfo = None"
definition node_MountVolume :: "string \<times> err" where "node_MountVolume = ([], None)"
definition node_UnmountVolume :: err where
  "node_UnmountVolume = Some ''nfs UnmountVolume not implemented''"

section \<open>Lemmas\<close>











section \<open>Properties\<close>



end
