(* ===== verification/Csi_Nfs.thy ===== *)
theory Csi_Nfs
  imports Node_Recovery Node_Service
begin

text \<open>
  The service as a whole (\<open>src/nfs/csinfs.go\<close>, \<open>src/nfs/identity.go\<close>, \<open>src/nfs/env.go\<close>): its
  construction, what it checks and sets up before it serves, and the identity calls.

  The host driver that \<open>PutVcsiService\<close> stores is the \<open>vcsi\<close> of the environment. Goroutines that
  \<open>BeforeServe\<close> starts run on their own: the result says which, a pinger for each monitored node
  or the NFS server with the address and port it listens on.
\<close>

section \<open>Definitions\<close>

definition EnvPodCIDR :: string where "EnvPodCIDR = ''PodCIDR''"
definition EnvNodeName :: string where "EnvNodeName = ''NODE_NAME''"
definition EnvCSINodeName :: string where "EnvCSINodeName = ''X_CSI_NODE_NAME''"
definition EnvNFSServerPort :: string where "EnvNFSServerPort = ''X_CSI_NFS_SERVER_PORT''"
definition EnvNFSClientServicePort :: string where "EnvNFSClientServicePort = ''X_CSI_NFS_CLIENT_PORT''"

definition new_service :: "string \<Rightarrow> CsiNfsService" where
  "new_service name = \<lparr>provisionerName = name, mode = [], nodeID = [], svc_nodeIPAddress = [], podCIDR = [],
     nodeName = [], failureRetries = 10, k8sclient = False, waitCreateNfsServiceInterval = 10 * Second,
     nfsServerPort = [], nfsClientServicePort = []\<rparr>"

definition New :: "string \<Rightarrow> ('w nfs_state, unit) state" where
  "New name = State_Monad.update (\<lambda>s. s\<lparr>nfsService := new_service name\<rparr>)"

text \<open>The variables of the package when the process starts: the two maps are made, the locks are empty.\<close>

definition package_start :: "string option \<Rightarrow> 'w \<Rightarrow> 'w nfs_state" where
  "package_start file w = \<lparr>nfsService = new_service [], PVLock = Map.empty, nfsPVLock = Map.empty,
     exports_file = file, generation = 0, syncedGeneration = 0, savedUpdates = 0,
     nodeIPAddress = [], exportCounts = [], pingRate = 15 * Second, world = w\<rparr>"

text \<open>The goroutine that \<open>BeforeServe\<close> starts on a node.\<close>

definition run_server :: "'w env \<Rightarrow> ('w nfs_state, err) state" where
  "run_server E = do {
     s \<leftarrow> State_Monad.get;
     startNfsServiceServer (svc_nodeIPAddress (nfsService s)) (nfsClientServicePort (nfsService s))
       (listen E) (serve E) }"

definition ProcessMapSecretChange :: err where "ProcessMapSecretChange = None"
definition VolumeIDToArrayID :: "string \<Rightarrow> string" where "VolumeIDToArrayID _ = []"

definition set_service :: "(CsiNfsService \<Rightarrow> CsiNfsService) \<Rightarrow> ('w nfs_state, unit) state" where
  "set_service f = State_Monad.update (\<lambda>s. s\<lparr>nfsService := f (nfsService s)\<rparr>)"

definition driver_variables :: "'w env \<Rightarrow> err" where
  "driver_variables E =
     (if DriverNamespace E = [] then
        Some ''DriverNamespace variable not set; this is used to find Services and EndpointSlices in the driver namespace''
      else if DriverName E = [] then
        Some ''DriverName not set. This is the value of the driver name in the csinode objects, e.g. csi-vxflexos.dellemc.com''
      else None)"

definition validateGlobalVariables :: "'w env \<Rightarrow> ('w nfs_state, err) state" where
  "validateGlobalVariables E = do {
     s \<leftarrow> State_Monad.get;
     if mode (nfsService s) = [] then State_Monad.return (Some ''s.mode not set to \"node\" or \"controller\"'')
     else if mode (nfsService s) = ''node'' then
       (if NodeRoot E = [] then State_Monad.return (Some
          ''shared-nfs NodeRoot variable must be set; used for chroot into node; validated with /noderoot/etc/exports'')
        else do {
          e \<leftarrow> ext (os_Stat (opSys E) (NodeRoot E @ ''/etc/exports''));
          if e \<noteq> None then State_Monad.return
            (Some ''could not stat NodeRoot/etc/exports - this file must exist for kernel nfs installations'')
          else if NfsExportDirectory E = [] then State_Monad.return
            (Some ''NfsExportDirectory not set it is where block devices are exported via NFS'')
          else State_Monad.return (driver_variables E) })
     else State_Monad.return (driver_variables E) }"

datatype started = Nothing | Pingers "Node list" | NfsServer string string

definition startNodeMonitors :: "'w env \<Rightarrow> ('w nfs_state, err \<times> started) state" where
  "startNodeMonitors E = do {
     r \<leftarrow> GetAllNodes E;
     State_Monad.return (case r of
       Inl m \<Rightarrow> (Some (''unable to retrieve nodes: '' @ m), Nothing)
     | Inr nodes \<Rightarrow> (None, Pingers (filter (\<lambda>n. \<not> isControlPlaneNode n) nodes))) }"

text \<open>From the moment the settings have been read; \<open>csi_mode\<close> is what the CSI context calls the mode.\<close>

definition connect_and_start :: "'w env \<Rightarrow> ('w nfs_state, err \<times> started) state" where
  "connect_and_start E = do {
     e \<leftarrow> Connect E;
     case e of
       Some m \<Rightarrow> State_Monad.return (Some m, Nothing)
     | None \<Rightarrow> do {
         _ \<leftarrow> set_service (\<lambda>v. v\<lparr>k8sclient := True\<rparr>);
         s \<leftarrow> State_Monad.get;
         r \<leftarrow> GetNode E (nodeName (nfsService s));
         case r of
           Inl m \<Rightarrow> State_Monad.return (Some m, Nothing)
         | Inr node \<Rightarrow> do {
             _ \<leftarrow> (case node_addresses node of
                [] \<Rightarrow> State_Monad.return ()
              | ip # _ \<Rightarrow> set_service (\<lambda>v. v\<lparr>svc_nodeIPAddress := ip\<rparr>));
             cidr \<leftarrow> getenv E EnvPodCIDR;
             _ \<leftarrow> set_service (\<lambda>v. v\<lparr>podCIDR := (if cidr = [] then svc_nodeIPAddress v @ ''/8'' else cidr)\<rparr>);
             s \<leftarrow> State_Monad.get;
             if mode (nfsService s) \<noteq> ''node'' then startNodeMonitors E
             else do {
               e \<leftarrow> ext (os_Stat (opSys E) (NodeRoot E @ NfsExportDirectory E));
               _ \<leftarrow> (if e = None then State_Monad.return None
                     else ext (os_MkdirAll (opSys E) (NodeRoot E @ NfsExportDirectory E) 511));
               State_Monad.return (None, NfsServer (svc_nodeIPAddress (nfsService s)) (nfsClientServicePort (nfsService s))) } } } }"

definition BeforeServe :: "'w env \<Rightarrow> string \<Rightarrow> ('w nfs_state, err \<times> started) state" where
  "BeforeServe E csi_mode = do {
     name \<leftarrow> getenv E EnvCSINodeName;
     name \<leftarrow> (if name = [] then getenv E EnvNodeName else State_Monad.return name);
     _ \<leftarrow> set_service (\<lambda>v. v\<lparr>mode := csi_mode, nodeName := name\<rparr>);
     if name = [] then State_Monad.return
       (Some ''X_CSI_NODE_NAME or NODE_NAME environment variable not set'', Nothing)
     else do {
       serverPort \<leftarrow> getenv E EnvNFSServerPort;
       clientPort \<leftarrow> getenv E EnvNFSClientServicePort;
       _ \<leftarrow> set_service (\<lambda>v. v\<lparr>nfsServerPort := serverPort, nfsClientServicePort := clientPort\<rparr>);
       e \<leftarrow> validateGlobalVariables E;
       case e of
         Some m \<Rightarrow> State_Monad.return (Some m, Nothing)
       | None \<Rightarrow> connect_and_start E } }"

subsection \<open>Identity\<close>

definition GetPluginInfo :: "string \<times> string" where "GetPluginInfo = (''your-plugin-name'', ''0.1.0'')"

datatype plugin_capability = CONTROLLER_SERVICE

definition GetPluginCapabilities :: "plugin_capability list" where "GetPluginCapabilities = [CONTROLLER_SERVICE]"
definition Probe :: err where "Probe = None"

section \<open>Lemmas\<close>

lemma driver_variables_None: "driver_variables E = None \<longleftrightarrow> DriverNamespace E \<noteq> [] \<and> DriverName E \<noteq> []"
  by (simp add: driver_variables_def)

lemma wp_getenv [wp]: "(\<And>v w. Q v (s\<lparr>world := w\<rparr>)) \<Longrightarrow> wp (getenv E v) Q s"
  unfolding getenv_def by (rule wp_ext)

lemma wp_set_service [wp]: "Q () (s\<lparr>nfsService := f (nfsService s)\<rparr>) \<Longrightarrow> wp (set_service f) Q s"
  unfolding set_service_def by (rule wp_update)

lemma wp_Connect [wp]: "(\<And>e w. Q e (s\<lparr>world := w\<rparr>)) \<Longrightarrow> wp (Connect E) Q s"
  unfolding Connect_def by (intro wp) auto

text \<open>What a successful check of the settings means in the mode \<open>m\<close>.\<close>

definition checked :: "'w env \<Rightarrow> string \<Rightarrow> bool" where
  "checked E m \<longleftrightarrow> m \<noteq> [] \<and> DriverNamespace E \<noteq> [] \<and> DriverName E \<noteq> [] \<and>
     (m = ''node'' \<longrightarrow> NodeRoot E \<noteq> [] \<and> NfsExportDirectory E \<noteq> [])"

lemma wp_validate [wp]:
  assumes "\<And>e w. (e = None \<Longrightarrow> checked E (mode (nfsService s))) \<Longrightarrow> Q e (s\<lparr>world := w\<rparr>)"
  shows "wp (validateGlobalVariables E) Q s"
proof -
  have world: "s = s\<lparr>world := world s\<rparr>" by simp
  show ?thesis unfolding validateGlobalVariables_def
    by (intro wp; (rule assms | subst world, rule assms)) (auto simp: checked_def driver_variables_None)
qed

text \<open>What has been set up when a connected service starts its goroutines.\<close>

definition set_up :: "'w env \<Rightarrow> CsiNfsService \<Rightarrow> started \<Rightarrow> bool" where
  "set_up E v start \<longleftrightarrow> k8sclient v \<and> podCIDR v \<noteq> [] \<and>
     (if mode v = ''node'' then start = NfsServer (svc_nodeIPAddress v) (nfsClientServicePort v)
      else \<exists>w nodes. fst (cs_ListNodes (clientset E) w) = Inr nodes \<and>
        start = Pingers (filter (\<lambda>n. \<not> isControlPlaneNode n) nodes))"

definition only_settings :: "'w nfs_state \<Rightarrow> 'w nfs_state \<Rightarrow> bool" where
  "only_settings s t \<longleftrightarrow> process t = process (s\<lparr>nfsService := nfsService t\<rparr>)"

lemma only_settings_simps [simp]:
  "only_settings s s" "only_settings s (t\<lparr>world := w\<rparr>) = only_settings s t"
  "only_settings s (t\<lparr>nfsService := v\<rparr>) = only_settings s t"
  by (auto simp: only_settings_def process_def)

lemma only_settings_from [simp]: "only_settings (s\<lparr>nfsService := v, world := w\<rparr>) t = only_settings s t"
  "only_settings (s\<lparr>nfsService := v\<rparr>) t = only_settings s t" "only_settings (s\<lparr>world := w\<rparr>) t = only_settings s t"
  by (auto simp: only_settings_def process_def)

definition started_from :: "'w env \<Rightarrow> 'w nfs_state \<Rightarrow> err \<times> started \<Rightarrow> 'w nfs_state \<Rightarrow> bool" where
  "started_from E s = (\<lambda>(e, start) t. only_settings s t \<and> mode (nfsService t) = mode (nfsService s) \<and>
     nodeName (nfsService t) = nodeName (nfsService s) \<and> (e \<noteq> None \<longrightarrow> start = Nothing) \<and>
     (e = None \<longrightarrow> set_up E (nfsService t) start))"

lemma wp_startNodeMonitors:
  assumes "mode (nfsService s) \<noteq> ''node''" and "k8sclient (nfsService s)" and "podCIDR (nfsService s) \<noteq> []"
  shows "wp (startNodeMonitors E) (started_from E s) s"
  unfolding startNodeMonitors_def GetAllNodes_def
  by (intro wp) (use assms in \<open>auto simp: started_from_def set_up_def split: sum.splits dest!: arg_cong[where f = fst]; blast\<close>)

lemma connect_sets_up: "wp (connect_and_start E) (started_from E s) s"
  unfolding connect_and_start_def GetNode_def
  apply (intro wp; (rule wp_mono[OF wp_startNodeMonitors], simp_all)?)
  apply (auto simp: started_from_def set_up_def dest!: arg_cong[where f = fst])
  done

lemma before_serve_effect:
  "wp (BeforeServe E csi_mode) (\<lambda>(e, start) t. only_settings s t \<and> (e \<noteq> None \<longrightarrow> start = Nothing) \<and>
    (e = None \<longrightarrow> mode (nfsService t) = csi_mode \<and> nodeName (nfsService t) \<noteq> [] \<and> checked E csi_mode \<and>
      set_up E (nfsService t) start)) s"
  unfolding BeforeServe_def
  by (intro wp; (rule wp_mono[OF connect_sets_up])?) (auto simp: started_from_def)

text \<open>The server goroutine ends at once when the address cannot be listened on, and else when serving ends.\<close>

lemma run_server_outcome:
  "wp (run_server E) (\<lambda>e t. process t = process s \<and>
     (let a = svc_nodeIPAddress (nfsService s) @ '':'' @ nfsClientServicePort (nfsService s) in
      case fst (net_Listen (nfsClient E) a (world s)) of
        Some m \<Rightarrow> e = Some m
      | None \<Rightarrow> e = fst (grpc_Serve (nfsClient E) (snd (net_Listen (nfsClient E) a (world s)))))) s"
  by (simp add: run_server_def startNfsServiceServer_def listen_def serve_def wp_def process_def Let_def split: option.split)

section \<open>Properties\<close>

text \<open>
  C25: a service that has started is set up. Success means that the driver's variables are there
  for the mode, the node has a name, the Kubernetes client is connected and the CIDR is known; as
  a node it serves NFS at its own address, in every other mode it monitors exactly the nodes of the
  cluster that are not control plane nodes. Nothing but the service's own settings changes.
\<close>

theorem before_serve_sets_up:
  assumes "run_state (BeforeServe E csi_mode) s = ((e, start), t)"
  shows "process t = process (s\<lparr>nfsService := nfsService t\<rparr>) \<and> (e \<noteq> None \<longrightarrow> start = Nothing) \<and>
    (e = None \<longrightarrow> (let v = nfsService t in
       mode v = csi_mode \<and> csi_mode \<noteq> [] \<and> nodeName v \<noteq> [] \<and> k8sclient v \<and> podCIDR v \<noteq> [] \<and>
       DriverNamespace E \<noteq> [] \<and> DriverName E \<noteq> [] \<and>
       (if csi_mode = ''node''
        then NodeRoot E \<noteq> [] \<and> NfsExportDirectory E \<noteq> [] \<and> start = NfsServer (svc_nodeIPAddress v) (nfsClientServicePort v)
        else \<exists>w nodes. fst (cs_ListNodes (clientset E) w) = Inr nodes \<and>
          start = Pingers (filter (\<lambda>n. \<not> isControlPlaneNode n) nodes))))"
  using wpD[OF before_serve_effect assms] by (auto simp: only_settings_def set_up_def checked_def Let_def)

text \<open>The example environment with the node name set.\<close>

definition named_env :: "sample_world env" where
  "named_env = sample_env\<lparr>opSys := sample_os\<lparr>os_Getenv := (\<lambda>_ v. if v = EnvCSINodeName then ''n1'' else [])\<rparr>\<rparr>"

lemma named_ops:
  "os_Getenv (opSys named_env) w v = (if v = EnvCSINodeName then ''n1'' else [])"
  "os_Stat (opSys named_env) p w = (None, w)" "rest_InClusterConfig (clientset named_env) w = (None, w)"
  "kubernetes_NewForConfig (clientset named_env) w = (None, w)"
  "cs_GetNode (clientset named_env) n w = (store_get (w_nodes w) n, w)"
  "NodeRoot named_env = ''/noderoot''" "NfsExportDirectory named_env = ''/e''"
  "driver_variables named_env = None"
  by (simp_all add: named_env_def sample_defs driver_variables_def)

theorem before_serve_sets_up_witness:
  "\<exists>t. run_state (BeforeServe named_env ''node'') sample_controller = ((None, NfsServer ''10.0.0.1'' []), t) \<and>
     k8sclient (nfsService t) \<and> nodeName (nfsService t) \<noteq> [] \<and> NfsExportDirectory named_env \<noteq> []"
proof -
  have node: "store_get (w_nodes (world sample_controller)) ''n1'' = Inr (snd (hd (w_nodes (world sample_controller))))"
    "node_addresses (snd (hd (w_nodes (world sample_controller)))) = [''10.0.0.1'']"
    by (simp_all add: sample_controller_def store_get_def)
  have env: "EnvNFSServerPort \<noteq> EnvCSINodeName" "EnvNFSClientServicePort \<noteq> EnvCSINodeName" "EnvPodCIDR \<noteq> EnvCSINodeName"
    by (simp_all add: EnvNFSServerPort_def EnvNFSClientServicePort_def EnvPodCIDR_def EnvCSINodeName_def)
  have "\<exists>t. run_state (BeforeServe named_env ''node'') sample_controller = ((None, NfsServer ''10.0.0.1'' []), t)"
    by (simp add: BeforeServe_def validateGlobalVariables_def connect_and_start_def getenv_def set_service_def
          Connect_def GetNode_def named_ops node env)
  then obtain t where run: "run_state (BeforeServe named_env ''node'') sample_controller = ((None, NfsServer ''10.0.0.1'' []), t)" by blast
  from before_serve_sets_up[OF run] run show ?thesis by (auto simp: Let_def)
qed

end
