(* ===== verification/Completion.thy ===== *)
theory Completion
  imports Csi_Nfs
begin

text \<open>
  Requests end. The handlers with waiting loops take fuel; a handler \<open>settles\<close> when there is an
  answer that it gives for all fuel from some point on, so that the code returns that answer. The
  rules follow the structure of a handler, as those of weakest preconditions do.
\<close>

section \<open>Settling\<close>

definition settles :: "(nat \<Rightarrow> ('s, 'a outcome) state) \<Rightarrow> 's \<Rightarrow> bool" where
  "settles m s \<longleftrightarrow> (\<exists>n r t. r \<noteq> Running \<and> (\<forall>k \<ge> n. run_state (m k) s = (r, t)))"

named_theorems settle \<open>rules that show that a call settles\<close>

lemma settles_const: "fst (run_state m s) \<noteq> Running \<Longrightarrow> settles (\<lambda>_. m) s"
  by (cases "run_state m s") (auto simp: settles_def)

lemma settles_Suc: "settles (\<lambda>k. m (Suc k)) s \<Longrightarrow> settles m s"
  unfolding settles_def by (metis Suc_le_D Suc_le_mono)

lemma settles_bind:
  assumes "settles m s" and "\<And>r t. r \<noteq> Running \<Longrightarrow> settles (\<lambda>k. f k r) t"
  shows "settles (\<lambda>k. State_Monad.bind (m k) (f k)) s"
proof -
  obtain n r t where m: "r \<noteq> Running" "\<And>k. n \<le> k \<Longrightarrow> run_state (m k) s = (r, t)"
    using assms(1) by (auto simp: settles_def)
  obtain n' r' t' where f: "r' \<noteq> Running" "\<And>k. n' \<le> k \<Longrightarrow> run_state (f k r) t = (r', t')"
    using assms(2)[OF m(1), of t] by (auto simp: settles_def)
  have "run_state (State_Monad.bind (m k) (f k)) s = (r', t')" if "max n n' \<le> k" for k
    using that m f by (simp add: max_def split: if_splits)
  with f(1) show ?thesis unfolding settles_def by blast
qed

lemma settles_prefix [settle]:
  "wp m (\<lambda>a t. settles (\<lambda>k. f k a) t) s \<Longrightarrow> settles (\<lambda>k. State_Monad.bind m (f k)) s"
  by (cases "run_state m s") (simp add: wp_def settles_def)

lemma settles_return [settle]: "r \<noteq> Running \<Longrightarrow> settles (\<lambda>_. State_Monad.return r) s"
  by (simp add: settles_const)

lemma settles_if [settle]:
  "(c \<Longrightarrow> settles m s) \<Longrightarrow> (\<not> c \<Longrightarrow> settles m' s) \<Longrightarrow> settles (\<lambda>k. if c then m k else m' k) s"
  by (cases c) simp_all

lemma settles_let [settle]: "(\<And>y. y = x \<Longrightarrow> settles (\<lambda>k. m k y) s) \<Longrightarrow> settles (\<lambda>k. let y = x in m k y) s"
  by simp

lemma settles_case_option [settle]:
  "(x = None \<Longrightarrow> settles m s) \<Longrightarrow> (\<And>y. x = Some y \<Longrightarrow> settles (\<lambda>k. f k y) s) \<Longrightarrow>
   settles (\<lambda>k. case x of None \<Rightarrow> m k | Some y \<Rightarrow> f k y) s"
  by (cases x) auto

lemma settles_case_list [settle]:
  "(x = [] \<Longrightarrow> settles m s) \<Longrightarrow> (\<And>y ys. x = y # ys \<Longrightarrow> settles (\<lambda>k. f k y ys) s) \<Longrightarrow>
   settles (\<lambda>k. case x of [] \<Rightarrow> m k | y # ys \<Rightarrow> f k y ys) s"
  by (cases x) auto

lemma settles_case_prod [settle]:
  "(\<And>y z. x = (y, z) \<Longrightarrow> settles (\<lambda>k. f k y z) s) \<Longrightarrow> settles (\<lambda>k. case x of (y, z) \<Rightarrow> f k y z) s"
  by (cases x) auto

lemma settles_case_sum [settle]:
  "(\<And>y. x = Inl y \<Longrightarrow> settles (\<lambda>k. f k y) s) \<Longrightarrow> (\<And>y. x = Inr y \<Longrightarrow> settles (\<lambda>k. g k y) s) \<Longrightarrow>
   settles (\<lambda>k. case x of Inl y \<Rightarrow> f k y | Inr y \<Rightarrow> g k y) s"
  by (cases x) auto

lemma settles_case_outcome [settle]:
  "(\<And>y. x = Done y \<Longrightarrow> settles (\<lambda>k. f k y) s) \<Longrightarrow> (\<And>y. x = Panicked y \<Longrightarrow> settles (\<lambda>k. g k y) s) \<Longrightarrow>
   (x = Running \<Longrightarrow> settles h s) \<Longrightarrow>
   settles (\<lambda>k. case x of Done y \<Rightarrow> f k y | Panicked y \<Rightarrow> g k y | Running \<Rightarrow> h k) s"
  by (cases x) auto

section \<open>Locks\<close>

lemma settles_locked:
  assumes lock: "\<And>k. run_state (lock (Suc k)) s = (Done (), s')" and "settles body s'"
  shows "settles (\<lambda>k. locked (lock k) unlock (body k)) s"
proof (rule settles_Suc)
  have body: "settles (\<lambda>k. body (Suc k)) s'"
    using assms(2) unfolding settles_def by (metis le_SucI)
  have "settles (\<lambda>k. body (Suc k) \<bind> (\<lambda>r. case r of Running \<Rightarrow> State_Monad.return Running
      | _ \<Rightarrow> do { _ \<leftarrow> unlock; State_Monad.return r })) s'"
    by (rule settles_bind[OF body]) (auto intro!: settles_const split: outcome.splits prod.splits)
  then show "settles (\<lambda>k. locked (lock (Suc k)) unlock (body (Suc k))) s"
    by (simp add: settles_def locked_def lock cong: outcome.case_cong)
qed

lemma LockPV_free:
  "PVLock s v = None \<Longrightarrow> run_state (LockPV E (Suc k) v r prio) s = (Done (), s\<lparr>PVLock := (PVLock s)(v \<mapsto> r)\<rparr>)"
  by (simp add: LockPV_def LoadOrStore_def)

lemma nfsLockPV_free:
  "nfsPVLock s v = None \<Longrightarrow> run_state (nfsLockPV E (Suc k) v) s = (Done (), s\<lparr>nfsPVLock := (nfsPVLock s)(v \<mapsto> v)\<rparr>)"
  by (simp add: LoadOrStore_def)

lemma settles_LockPV:
  assumes "PVLock s v = None" and "settles body (s\<lparr>PVLock := (PVLock s)(v \<mapsto> r)\<rparr>)"
  shows "settles (\<lambda>k. locked (LockPV E k v r prio) unlock (body k)) s"
  by (rule settles_locked[where lock = "\<lambda>k. LockPV E k v r prio", OF LockPV_free[OF assms(1)] assms(2)])

lemma settles_nfsLockPV:
  assumes "nfsPVLock s v = None" and "settles body (s\<lparr>nfsPVLock := (nfsPVLock s)(v \<mapsto> v)\<rparr>)"
  shows "settles (\<lambda>k. locked (nfsLockPV E k v) unlock (body k)) s"
  by (rule settles_locked[where lock = "\<lambda>k. nfsLockPV E k v", OF nfsLockPV_free[OF assms(1)] assms(2)])

section \<open>The request's deadline\<close>

text \<open>
  \<open>left\<close> measures the time until the context of the request ends: sleeping takes some of it, no call
  adds to it, and when none is left the context is done.
\<close>

definition deadline_passes :: "'w env \<Rightarrow> ('w \<Rightarrow> nat) \<Rightarrow> bool" where
  "deadline_passes E left \<longleftrightarrow>
     (\<forall>w. left w = 0 \<longrightarrow> fst (select_done (runtime E) w)) \<and>
     (\<forall>w. left (snd (select_done (runtime E) w)) \<le> left w) \<and>
     (\<forall>d w. 0 < d \<longrightarrow> left (time_Sleep (runtime E) d w) \<le> left w - 1) \<and>
     (\<forall>a w. left (snd (grpc_NewClient (nfsClient E) a w)) \<le> left w) \<and>
     (\<forall>a r w. left (snd (rpc_ExportNfsVolume (nfsClient E) a r w)) \<le> left w)"

lemma wp_callExport_left:
  assumes "deadline_passes E left"
  shows "wp (callExportNfsVolume E ip req) (\<lambda>_ t. left (world t) \<le> left (world s)) s"
  unfolding callExportNfsVolume_def getNfsClient_def
  using assms by (intro wp) (simp_all add: deadline_passes_def, (metis snd_conv order_trans)+)

lemma export_retry_settles:
  fixes E :: "'w env"
  assumes "deadline_passes E left"
  shows "settles (\<lambda>k. export_retry E k ip req) s"
proof (induction "left (world s)" arbitrary: s rule: less_induct)
  case less
  have dl: "left w = 0 \<Longrightarrow> fst (select_done (runtime E) w)" "left (snd (select_done (runtime E) w)) \<le> left w"
    "0 < d \<Longrightarrow> left (time_Sleep (runtime E) d w) \<le> left w - 1" for w d
    using assms by (auto simp: deadline_passes_def)
  have call: "\<And>Q. (\<And>a t. left (world t) \<le> left (world s) \<Longrightarrow> Q a t) \<Longrightarrow> wp (callExportNfsVolume E ip req) Q s"
    by (rule wp_mono[OF wp_callExport_left[OF assms]])
  have again: "settles (\<lambda>k. export_retry E k ip req) (t\<lparr>world := w\<rparr>)" if "left w < left (world s)" for t w
    using less[of "t\<lparr>world := w\<rparr>"] that by simp
  have slept: "wp (sleep E d) Q t" if "Q () (t\<lparr>world := time_Sleep (runtime E) d (world t)\<rparr>)" for d t and Q :: "unit \<Rightarrow> 'w nfs_state \<Rightarrow> bool"
    using that by (simp add: wp_def)
  have round: "left (time_Sleep (runtime E) d w) < left (world s)"
    if "left (world t) \<le> left (world s)" and "select_done (runtime E) (world t) = (False, w)" and "0 < d"
    for t :: "'w nfs_state" and w d
    using that dl(1)[of "world t"] dl(2)[of "world t"] dl(3)[of d w] by fastforce
  show ?case
    by (rule settles_Suc, unfold export_retry.simps, intro settle wp_bind wp_ext wp_get wp_return call slept again)
       (simp_all add: round)
qed

lemma wp_any: "(\<And>a t. Q a t) \<Longrightarrow> wp m Q s"
  by (simp add: wp_def)

lemma publish_settles:
  assumes "deadline_passes E left"
  shows "settles (\<lambda>k. publish_volume E k req) s"
proof -
  have recorded: "settles (\<lambda>k. export_and_record E k ns n pv ip nid aid c) t" for ns n pv ip nid aid c t
    unfolding export_and_record_def
    by (rule settles_bind[OF export_retry_settles[OF assms]]) (intro settle wp_any, auto split: sum.splits)
  have make: "settles (\<lambda>k. makeNfsService E k ns n pv ip req) t" for ns n pv ip t
    unfolding makeNfsService_def Let_def by (intro settle wp_any recorded) simp_all
  have add: "wp (addNodeToNfsService E service req) (\<lambda>r _. r \<noteq> Running) t" for service t
    unfolding addNodeToNfsService_def Let_def by (intro wp wp_any) (auto split: sum.splits)
  note reads = wp_any[where m = "GetNodeByCSINodeID E d i" for d i] wp_any[where m = "getServiceAndSlice E n" for n]
    wp_any[where m = "GetNodeStatus ip" for ip]
  show ?thesis
    unfolding publish_volume_def Let_def
    by (intro settle reads settles_bind[OF make] wp_mono[OF add]) (auto split: outcome.splits)
qed

lemma settles_never: "wp m (\<lambda>r _. r \<noteq> Running) s \<Longrightarrow> settles (\<lambda>_. m) s"
  by (cases "run_state m s") (auto simp: wp_def intro: settles_const)

section \<open>Handlers\<close>

lemma unpublish_settles: "settles (\<lambda>_. unpublish_volume E req) s"
proof -
  have remove: "wp (remove_service E n ip service es req) (\<lambda>r _. r \<noteq> Running) t" for n ip service es t
    unfolding remove_service_def callUnexportNfsVolume_def getNfsClient_def DeleteEndpointSlice_def DeleteService_def
    by (intro wp) simp_all
  note steps = wp_any[where m = "getServiceAndSlice E n" for n] wp_any[where m = "removeNodeFromNfsService E sv req" for sv]
    wp_mono[OF remove]
  show ?thesis
    by (rule settles_never, unfold unpublish_volume_def Let_def, intro wp steps) simp_all
qed

lemma reassign_settles: "settles (\<lambda>_. reassign_volume E sched es) s"
proof -
  have slice: "wp (updateEndpointSlice E es nid ip) (\<lambda>r _. r \<noteq> Running) t" for nid ip t
    unfolding updateEndpointSlice_def by (intro wp wp_any) simp_all
  have publish: "wp (publish_moved E bg task es pv h ip n) (\<lambda>r _. r \<noteq> Running) t" for bg task pv h ip n t
    unfolding publish_moved_def
    by (intro wp wp_mono[OF slice] wp_any[where m = "bg p ta e" for p ta e]
          wp_any[where m = "callExportNfsVolume E a q" for a q]) (simp_all split: outcome.splits)
  have move: "wp (move_volume E sched es pv h n) (\<lambda>r _. r \<noteq> Running) t" for pv h n t
    unfolding move_volume_def Let_def
    by (intro wp wp_mono[OF publish] wp_any[where m = "background E sd p ip q ta e" for sd p ip q ta e]
          wp_any[where m = "GetNode E k" for k]) simp_all
  show ?thesis
    by (rule settles_never, unfold reassign_volume_def Let_def,
        intro wp wp_mono[OF move] wp_any[where m = "GetPersistentVolume E k" for k]
          wp_any[where m = "GetService E ns k" for ns k] wp_any[where m = findNextAvailableNode]) simp_all
qed

section \<open>Properties\<close>

text \<open>
  C15: requests end. In a process that holds no lock, every handler that takes a lock gives one
  answer for all fuel from some point on: it returns. For \<open>ControllerPublishVolume\<close>, whose loop
  has no bound, this needs a deadline of the request; the others return whatever happens.
\<close>

theorem requests_are_answered:
  assumes "deadline_passes E left" and "PVLock s = Map.empty" and "nfsPVLock s = Map.empty"
  shows "settles (\<lambda>k. ControllerPublishVolume E k ctx publish) s \<and>
    settles (\<lambda>k. ControllerUnpublishVolume E k ctx unpublish) s \<and>
    settles (\<lambda>k. reassignVolume E k sched es) s \<and>
    settles (\<lambda>k. NodeStageVolume E k stage) s \<and> settles (\<lambda>k. NodeUnstageVolume E k unstage) s \<and>
    settles (\<lambda>k. NodePublishVolume E k npublish) s \<and> settles (\<lambda>k. NodeUnpublishVolume E k nunpublish) s \<and>
    settles (\<lambda>k. ExportNfsVolume E k export) s \<and> settles (\<lambda>k. UnexportNfsVolume E k unexport) s"
proof -
  note locks = settles_LockPV[of s, unfolded assms(2)] settles_nfsLockPV[of s, unfolded assms(3)]
  note handlers = publish_settles[OF assms(1)] unpublish_settles reassign_settles settles_const[OF export_never_waits]
  show ?thesis
    unfolding ControllerPublishVolume_def ControllerUnpublishVolume_def reassignVolume_def NodeStageVolume_def
      NodeUnstageVolume_def NodePublishVolume_def NodeUnpublishVolume_def ExportNfsVolume_def UnexportNfsVolume_def
    by (intro conjI locks handlers; (intro settle wp_any; simp)?) simp_all
qed

text \<open>A node that never exports, and a request that gives up after the third time the loop has slept.\<close>

definition waiting_env :: "sample_world env" where
  "waiting_env = sample_env\<lparr>
     nfsClient := sample_client\<lparr>rpc_ExportNfsVolume := (\<lambda>_ _ w. ((None, Some ''unavailable''), w))\<rparr>,
     runtime := sample_runtime\<lparr>time_Sleep := (\<lambda>_ w. note_call ''sleep'' w),
       select_done := (\<lambda>w. (3 \<le> length (w_log w), w))\<rparr>\<rparr>"

theorem requests_are_answered_witness:
  "settles (\<lambda>k. ControllerPublishVolume waiting_env k sample_ctx sample_publish) sample_controller"
proof -
  have "deadline_passes waiting_env (\<lambda>w. 3 - length (w_log w))"
    by (simp add: deadline_passes_def waiting_env_def sample_defs)
  moreover have "PVLock sample_controller = Map.empty" "nfsPVLock sample_controller = Map.empty"
    by (simp_all add: sample_controller_def sample_state_def)
  ultimately show ?thesis by (rule requests_are_answered[THEN conjunct1])
qed

end
