(* ===== verification/Cluster.thy ===== *)
theory Cluster
  imports Completion
begin

text \<open>
  The controller and the nodes together: the remote calls of the controller are served by the
  handlers of the node processes. A view \<open>N\<close> of the controller's world gives the process that
  listens at an address; a call runs the node's handler there, may lose its answer on the way, and
  no other operation of the controller touches a node.
\<close>

section \<open>Definitions\<close>

definition export_served ::
  "'n env \<Rightarrow> nat \<Rightarrow> string \<Rightarrow> ExportNfsVolumeRequest \<Rightarrow> (string \<rightharpoonup> 'n nfs_state) \<Rightarrow>
   ExportNfsVolumeResponse option \<times> err \<Rightarrow> (string \<rightharpoonup> 'n nfs_state) \<Rightarrow> bool" where
  "export_served EN fuel addr req net answer net' \<longleftrightarrow>
     (case net addr of
        None \<Rightarrow> snd answer \<noteq> None \<and> net' = net
      | Some n \<Rightarrow> (case run_state (ExportNfsVolume EN fuel req) n of (r, n') \<Rightarrow>
          net' = net(addr \<mapsto> n') \<and> (snd answer = None \<longrightarrow> (\<exists>resp ctx. r = Done (resp, None, ctx)))))"

definition leaves :: "('w \<Rightarrow> 'v) \<Rightarrow> ('w \<Rightarrow> 'a \<times> 'w) \<Rightarrow> bool" where
  "leaves N f \<longleftrightarrow> (\<forall>w. N (snd (f w)) = N w)"

definition cluster :: "'w env \<Rightarrow> 'n env \<Rightarrow> nat \<Rightarrow> ('w \<Rightarrow> string \<rightharpoonup> 'n nfs_state) \<Rightarrow> bool" where
  "cluster E EN fuel N \<longleftrightarrow>
     (\<forall>a r w. export_served EN fuel a r (N w) (fst (rpc_ExportNfsVolume (nfsClient E) a r w))
        (N (snd (rpc_ExportNfsVolume (nfsClient E) a r w)))) \<and>
     (\<forall>a. leaves N (grpc_NewClient (nfsClient E) a)) \<and>
     (\<forall>r. leaves N (vcsi_ControllerPublishVolume (vcsi E) r)) \<and>
     leaves N (select_done (runtime E)) \<and> (\<forall>d w. N (time_Sleep (runtime E) d w) = N w) \<and>
     leaves N (cs_ListNodes (clientset E)) \<and>
     (\<forall>ns n. leaves N (cs_GetEndpointSlice (clientset E) ns n)) \<and>
     (\<forall>ns n. leaves N (cs_GetService (clientset E) ns n)) \<and>
     (\<forall>ns v. leaves N (cs_CreateEndpointSlice (clientset E) ns v)) \<and>
     (\<forall>ns v. leaves N (cs_CreateService (clientset E) ns v))"

text \<open>The nodes can export the volume: their table is well formed and the entry fits a line.\<close>

definition nodes_ok :: "'n env \<Rightarrow> string \<Rightarrow> (string \<rightharpoonup> 'n nfs_state) \<Rightarrow> bool" where
  "nodes_ok EN vid net \<longleftrightarrow> (\<forall>a n. net a = Some n \<longrightarrow>
     exports_inv EN n \<and> clean_entry (export_entry n (staging_path EN vid)))"

definition exported_at :: "'n env \<Rightarrow> string \<Rightarrow> (string \<rightharpoonup> 'n nfs_state) \<Rightarrow> string \<Rightarrow> bool" where
  "exported_at EN vid net addr \<longleftrightarrow> (\<exists>n. net addr = Some n \<and> has_export n (staging_path EN vid @ ''/''))"

text \<open>The publish context of the host driver does not name a service; the controller copies it over its own entries.\<close>

definition keeps_service_name :: "'w env \<Rightarrow> bool" where
  "keeps_service_name E \<longleftrightarrow> (\<forall>r w resp. fst (vcsi_ControllerPublishVolume (vcsi E) r w) = (Some resp, None) \<longrightarrow>
     gm_lookup (pubr_PublishContext resp) ServiceName = None)"

section \<open>Lemmas\<close>

lemma wp_leaves:
  assumes "leaves N f" and "\<And>a w. f (world s) = (a, w) \<Longrightarrow> N w = N (world s) \<Longrightarrow> Q a (s\<lparr>world := w\<rparr>)"
  shows "wp (ext f) Q s"
  using assms by (simp add: wp_def leaves_def)

lemma clusterD:
  assumes "cluster E EN fuel N"
  shows "export_served EN fuel a r (N w) (fst (rpc_ExportNfsVolume (nfsClient E) a r w))
      (N (snd (rpc_ExportNfsVolume (nfsClient E) a r w)))"
    "leaves N (grpc_NewClient (nfsClient E) a)" "leaves N (vcsi_ControllerPublishVolume (vcsi E) pr)"
    "leaves N (select_done (runtime E))" "N (time_Sleep (runtime E) d w) = N w"
    "leaves N (cs_ListNodes (clientset E))" "leaves N (cs_GetEndpointSlice (clientset E) ns n)"
    "leaves N (cs_GetService (clientset E) ns n)" "leaves N (cs_CreateEndpointSlice (clientset E) ns es)"
    "leaves N (cs_CreateService (clientset E) ns v)"
  using assms by (simp_all add: cluster_def)

text \<open>A served call keeps the nodes in order, and an answer without an error means an export.\<close>

lemma served_export:
  assumes "export_served EN fuel addr req net answer net'" and "nodes_ok EN (exp_VolumeId req) net"
    and "mounts_at_service_name EN" and "names_service EN req"
  shows "nodes_ok EN (exp_VolumeId req) net' \<and> (snd answer = None \<longrightarrow> exported_at EN (exp_VolumeId req) net' addr)"
proof (cases "net addr")
  case None
  with assms(1,2) show ?thesis by (auto simp: export_served_def)
next
  case (Some n)
  obtain r n' where run: "run_state (ExportNfsVolume EN fuel req) n = (r, n')" by fastforce
  with assms(1) Some have net': "net' = net(addr \<mapsto> n')" and ok: "snd answer = None \<Longrightarrow> \<exists>resp ctx. r = Done (resp, None, ctx)"
    by (simp_all add: export_served_def)
  from assms(2) Some have n: "exports_inv EN n" "clean_entry (export_entry n (staging_path EN (exp_VolumeId req)))"
    by (auto simp: nodes_ok_def)
  from export_handler_inv[OF run n(1) assms(3,4) n(2)] have inv: "exports_inv EN n'" "nfsService n' = nfsService n" by auto
  have "nodes_ok EN (exp_VolumeId req) net'"
    using assms(2) inv n(2) by (auto simp: nodes_ok_def net' export_entry_def)
  moreover have "has_export n' (staging_path EN (exp_VolumeId req) @ ''/'')" if answer: "snd answer = None"
  proof -
    from ok[OF answer] obtain resp ctx where r: "r = Done (resp, None, ctx)" by blast
    have "fuel \<noteq> 0" using run r by (cases fuel) (auto simp: ExportNfsVolume_def locked_def)
    from export_handler_outcome[OF run this] r
    have "export_result EN req n (Done (resp, None, ctx)) n'" by (auto split: if_splits)
    from export_success[OF this n(1) assms(3,4) n(2)] show ?thesis by blast
  qed
  ultimately show ?thesis by (auto simp: exported_at_def net')
qed

text \<open>Each step of a publish call: the nodes stay in order and the process as it is.\<close>

lemma call_reaches_node:
  assumes "cluster E EN fuel N" and "nodes_ok EN (exp_VolumeId req) (N (world s))"
    and "mounts_at_service_name EN" and "names_service EN req"
  shows "wp (callExportNfsVolume E ip req) (\<lambda>(_, e) t. process t = process s \<and>
    nodes_ok EN (exp_VolumeId req) (N (world t)) \<and>
    (e = None \<longrightarrow> exported_at EN (exp_VolumeId req) (N (world t)) (ip @ '':'' @ nfsClientServicePort (nfsService s)))) s"
proof -
  have rpc: "wp (ext (rpc_ExportNfsVolume (nfsClient E) addr req)) (\<lambda>(_, e) t. process t = process u \<and>
      nodes_ok EN (exp_VolumeId req) (N (world t)) \<and>
      (e = None \<longrightarrow> exported_at EN (exp_VolumeId req) (N (world t)) addr)) u"
    if "N (world u) = N (world s)" for addr u
    using served_export[OF clusterD(1)[OF assms(1), of addr req "world u"] _ assms(3,4)] assms(2) that
    by (simp add: wp_def split: prod.split)
  show ?thesis
    unfolding callExportNfsVolume_def getNfsClient_def
    by (intro wp_bind wp_get wp_return wp_case_sum wp_leaves[OF clusterD(2)[OF assms(1)]] wp_mono[OF rpc])
       (use assms(2) in \<open>auto split: option.splits\<close>)
qed

lemma retry_reaches_node:
  assumes "cluster E EN fuel N" and "mounts_at_service_name EN" and "names_service EN req"
    and "nodes_ok EN (exp_VolumeId req) (N (world s))"
  shows "wp (export_retry E k ip req) (\<lambda>r t. process t = process s \<and> nodes_ok EN (exp_VolumeId req) (N (world t)) \<and>
    (r = Done None \<longrightarrow> exported_at EN (exp_VolumeId req) (N (world t)) (ip @ '':'' @ nfsClientServicePort (nfsService s)))) s"
  using assms(4)
proof (induction k arbitrary: s)
  case 0
  then show ?case by (simp add: wp_def)
next
  case (Suc k)
  note call = wp_mono[OF call_reaches_node[OF assms(1) _ assms(2,3)]]
  have slept: "wp (sleep E d) Q t" if "\<And>w. N w = N (world t) \<Longrightarrow> Q () (t\<lparr>world := w\<rparr>)" for d Q and t :: "'a nfs_state"
    using that clusterD(5)[OF assms(1)] by (simp add: wp_def)
  note again = wp_mono[OF Suc.IH]
  show ?case
    unfolding export_retry.simps
    by (intro wp_bind wp_case_prod wp_if wp_get wp_return call wp_leaves[OF clusterD(4)[OF assms(1)]] slept again)
       (use Suc.prems in \<open>auto dest: process_fields(8)\<close>)
qed

text \<open>Creating the objects.\<close>

lemma wp_create_slice:
  assumes "kube_laws E V" and "cluster E EN fuel N" and "\<And>m w. Q (Inl m) (s\<lparr>world := w\<rparr>)"
    and "\<And>v w. N w = N (world s) \<Longrightarrow> k_slices (V w) (ns, es_name es) = Some es \<Longrightarrow> Q (Inr v) (s\<lparr>world := w\<rparr>)"
  shows "wp (CreateEndpointSlice E ns es) Q s"
proof -
  have "wp (CreateEndpointSlice E ns es) (\<lambda>r t. N (world t) = N (world s)) s"
    unfolding CreateEndpointSlice_def by (rule wp_leaves[OF clusterD(9)[OF assms(2)]]) simp
  moreover have "wp (CreateEndpointSlice E ns es) (\<lambda>r t. \<exists>w. t = s\<lparr>world := w\<rparr> \<and>
      (\<forall>v. r = Inr v \<longrightarrow> k_slices (V w) (ns, es_name es) = Some es)) s"
    by (rule wp_CreateEndpointSlice_law[OF assms(1)]) auto
  ultimately show ?thesis using assms(3,4)
    by (cases "fst (run_state (CreateEndpointSlice E ns es) s)") (auto simp: wp_def)
qed

lemma wp_create_service:
  assumes "kube_laws E V" and "cluster E EN fuel N"
    and "\<And>r w. N w = N (world s) \<Longrightarrow> k_slices (V w) = k_slices (V (world s)) \<Longrightarrow> Q r (s\<lparr>world := w\<rparr>)"
  shows "wp (CreateService E ns v) Q s"
proof -
  have "wp (CreateService E ns v) (\<lambda>r t. N (world t) = N (world s)) s"
    unfolding CreateService_def by (rule wp_leaves[OF clusterD(10)[OF assms(2)]]) simp
  moreover have "wp (CreateService E ns v) (\<lambda>r t. \<exists>w. t = s\<lparr>world := w\<rparr> \<and> k_slices (V w) = k_slices (V (world s))) s"
    by (rule wp_CreateService_law[OF assms(1)]) auto
  ultimately show ?thesis using assms(3) by (auto simp: wp_def)
qed

text \<open>The slice at the volume's key names a node that exports the volume.\<close>

definition slice_serves ::
  "'w env \<Rightarrow> 'n env \<Rightarrow> ('w \<Rightarrow> kube) \<Rightarrow> ('w \<Rightarrow> string \<rightharpoonup> 'n nfs_state) \<Rightarrow> string \<Rightarrow> string \<Rightarrow> 'w \<Rightarrow> bool" where
  "slice_serves E EN V N vid port w \<longleftrightarrow> (\<exists>es ip. k_slices (V w) (service_key E vid) = Some es \<and>
     es_endpoints es = [\<lparr>ep_addresses = [ip], ep_ready = Some True\<rparr>] \<and> exported_at EN vid (N w) (ip @ '':'' @ port))"

lemma export_and_record_serves:
  assumes "cluster E EN fuel N" and "kube_laws E V" and "mounts_at_service_name EN"
    and "names_service EN \<lparr>exp_VolumeId = vid, exp_ExportNfsContext = c\<rparr>" and "nodes_ok EN vid (N (world s))"
    and "ArrayToNFSVolumeID aid = vid" and "service_key E vid = (ns, n)"
  shows "wp (export_and_record E k ns n pv ip nid aid c)
    (\<lambda>r t. \<forall>sv. r = Done (sv, None) \<longrightarrow> slice_serves E EN V N vid (nfsClientServicePort (nfsService s)) (world t)) s"
  unfolding export_and_record_def assms(6)
  by (intro wp_bind wp_case_outcome wp_case_option wp_get wp_let wp_case_sum wp_return
        wp_mono[OF retry_reaches_node[OF assms(1,3,4)]] wp_create_slice[OF assms(2,1)] wp_create_service[OF assms(2,1)])
     (use assms(5,7) in \<open>auto simp: slice_serves_def make_slice_def exported_at_def split: sum.splits\<close>)

text \<open>The context that the controller sends names the service of the volume.\<close>

lemma fold_put_None: "fold (\<lambda>(k, v) acc. Option.bind acc (\<lambda>m. gm_put m k v)) al None = None"
  by (induction al) auto

lemma fold_put_lookup:
  "fold (\<lambda>(k, v) acc. Option.bind acc (\<lambda>m. gm_put m k v)) al (Some m) = Some m' \<Longrightarrow> map_of al j = None \<Longrightarrow>
   gm_lookup m' j = gm_lookup m j"
proof (induction al arbitrary: m)
  case (Cons p al)
  obtain k v where p: "p = (k, v)" by fastforce
  with Cons.prems obtain m1 where m1: "gm_put m k v = Some m1"
    by (cases "gm_put m k v") (auto simp: fold_put_None)
  from Cons.IH[of m1] Cons.prems gm_lookup_put[OF m1, of j] show ?case by (auto simp: p m1 split: if_splits)
qed simp

lemma sent_context_names_service:
  assumes "Option.bind (gm_put vctx ServiceName name) (\<lambda>ctx. gm_copy ctx from_driver) = Some ctx"
    and "gm_lookup from_driver ServiceName = None"
  shows "gm_get ctx ''ServiceName'' = name"
proof -
  obtain m where m: "gm_put vctx ServiceName name = Some m" "gm_copy m from_driver = Some ctx"
    using assms(1) by (auto simp: bind_eq_Some_conv)
  from fold_put_lookup[OF m(2)[unfolded gm_copy_def]] assms(2)
  have "gm_lookup ctx ServiceName = gm_lookup m ServiceName" by (simp add: gm_lookup_def)
  with gm_get_put[OF m(1), of ServiceName] show ?thesis by (simp add: gm_get_def ServiceName_def)
qed

text \<open>What the nodes and the two host drivers have to offer a publish call for a volume.\<close>

definition cluster_ready ::
  "'w env \<Rightarrow> 'n env \<Rightarrow> nat \<Rightarrow> ('w \<Rightarrow> kube) \<Rightarrow> ('w \<Rightarrow> string \<rightharpoonup> 'n nfs_state) \<Rightarrow> bool" where
  "cluster_ready E EN fuel V N \<longleftrightarrow> kube_laws E V \<and> outside_quiet E V \<and> cluster E EN fuel N \<and>
     mounts_at_service_name EN \<and> keeps_service_name E \<and>
     unicode_ToLower (runtime EN) = unicode_ToLower (runtime E)"

lemma make_serves:
  assumes "cluster_ready E EN fuel V N" and "IsNFSVolumeID (pub_VolumeId req)"
    and "service_key E (pub_VolumeId req) = (ns, n)" and "nodes_ok EN (pub_VolumeId req) (N (world s))"
  shows "wp (makeNfsService E k ns n pv ip req) (\<lambda>r t. \<forall>sv. r = Done (sv, None) \<longrightarrow>
    slice_serves E EN V N (pub_VolumeId req) (nfsClientServicePort (nfsService s)) (world t)) s"
proof -
  let ?vid = "pub_VolumeId req"
  have laws: "kube_laws E V" "cluster E EN fuel N" "mounts_at_service_name EN" "keeps_service_name E"
    "unicode_ToLower (runtime EN) = unicode_ToLower (runtime E)"
    using assms(1) by (simp_all add: cluster_ready_def)
  have id: "ArrayToNFSVolumeID (ToArrayVolumeID ?vid) = ?vid"
    using assms(2) by (simp add: nfs_id.enc_dec IsNFSVolumeID_def)
  have names: "names_service EN \<lparr>exp_VolumeId = ?vid, exp_ExportNfsContext = ctx\<rparr>"
    if "vcsi_ControllerPublishVolume (vcsi E) r w = ((Some resp, None), w')"
      and "Option.bind (gm_put vctx ServiceName n) (\<lambda>ctx. gm_copy ctx (pubr_PublishContext resp)) = Some ctx"
    for ctx r w w' resp vctx
  proof -
    from that(1) laws(4) have "gm_lookup (pubr_PublishContext resp) ServiceName = None"
      unfolding keeps_service_name_def by (metis fst_conv)
    from sent_context_names_service[OF that(2) this] assms(3) laws(5) show ?thesis by (simp add: names_service_def)
  qed
  note recorded = wp_mono[OF export_and_record_serves[OF laws(2,1,3) names _ id assms(3)]]
  show ?thesis
    unfolding makeNfsService_def Let_def
    by (intro wp_bind wp_case_option wp_case_prod wp_return wp_leaves[OF clusterD(3)[OF laws(2)]] recorded)
       (simp_all add: assms(4), assumption?)
qed

lemma publish_volume_serves:
  assumes "cluster_ready E EN fuel V N" and "IsNFSVolumeID (pub_VolumeId req)"
    and "k_services (V (world s)) (service_key E (pub_VolumeId req)) = None"
    and "nodes_ok EN (pub_VolumeId req) (N (world s))"
  shows "wp (publish_volume E k req) (\<lambda>r t. \<forall>a. r = Done (a, None) \<longrightarrow>
    slice_serves E EN V N (pub_VolumeId req) (nfsClientServicePort (nfsService s)) (world t)) s"
proof -
  have laws: "kube_laws E V" "cluster E EN fuel N"
    using assms(1) by (simp_all add: cluster_ready_def)
  have find: "wp (GetNodeByCSINodeID E d i) Q s" if "\<And>r w. V w = V (world s) \<Longrightarrow> N w = N (world s) \<Longrightarrow> Q r (s\<lparr>world := w\<rparr>)" for d i Q
  proof -
    have "wp (GetNodeByCSINodeID E d i) (\<lambda>_ t. N (world t) = N (world s)) s"
      unfolding GetNodeByCSINodeID_def by (intro wp_bind wp_return wp_leaves[OF clusterD(6)[OF laws(2)]]) simp
    moreover have "wp (GetNodeByCSINodeID E d i) (\<lambda>_ t. \<exists>w. t = s\<lparr>world := w\<rparr> \<and> V w = V (world s)) s"
      by (rule wp_GetNodeByCSINodeID_law[OF laws(1)]) auto
    ultimately show ?thesis using that by (auto simp: wp_def)
  qed
  let ?look = "getServiceAndSlice E (VolumeIDToServiceName (unicode_ToLower (runtime E)) (pub_VolumeId req))"
  have look: "wp ?look Q u"
    if "V (world u) = V (world s)" and "\<And>m w. N w = N (world u) \<Longrightarrow> Q (None, None, Some m) (u\<lparr>world := w\<rparr>)"
    for Q and u :: "'a nfs_state"
  proof -
    have "wp ?look (\<lambda>_ t. N (world t) = N (world u)) u"
      unfolding getServiceAndSlice_def GetEndpointSlice_def GetService_def
      by (intro wp_bind wp_return wp_case_sum wp_leaves[OF clusterD(7)[OF laws(2)]] wp_leaves[OF clusterD(8)[OF laws(2)]]) simp_all
    moreover have "wp ?look (\<lambda>r t. \<exists>m w. r = (None, None, Some m) \<and> t = u\<lparr>world := w\<rparr>) u"
      by (rule wp_getServiceAndSlice_law[OF laws(1)]) (use assms(3) that(1) in auto)
    ultimately show ?thesis using that(2) by (auto simp: wp_def)
  qed
  note make = wp_mono[OF make_serves[OF assms(1,2) refl]]
  show ?thesis
    unfolding publish_volume_def Let_def GetNodeStatus_def
    by (intro wp_bind find look wp_case_sum wp_case_list wp_return wp_case_prod wp_if wp_get make)
       (simp_all add: assms(4), auto split: outcome.splits)
qed

section \<open>Properties\<close>

text \<open>
  C1: a published volume is exported. The node processes serve the controller's calls with their
  own handlers, and mount volumes at the service name. When the first publish call for an NFS volume
  succeeds, the slice in the store carries one address, ready, and the node process that listens
  there has the volume's directory in its export table, however many attempts, lost answers and
  failed steps on the nodes it took.
\<close>

theorem published_volume_is_exported:
  assumes "cluster_ready E EN nfuel V N" and "IsNFSVolumeID (pub_VolumeId req)"
    and "k_services (V (world s)) (service_key E (pub_VolumeId req)) = None"
    and "nodes_ok EN (pub_VolumeId req) (N (world s))"
    and "run_state (ControllerPublishVolume E fuel ctx req) s = (Done (a, None), t)"
  shows "\<exists>es ip n. k_slices (V (world t)) (service_key E (pub_VolumeId req)) = Some es \<and>
    es_endpoints es = [\<lparr>ep_addresses = [ip], ep_ready = Some True\<rparr>] \<and>
    N (world t) (ip @ '':'' @ nfsClientServicePort (nfsService s)) = Some n \<and>
    has_export n (NfsExportDirectory EN @ ''/'' @ VolumeIDToServiceName (unicode_ToLower (runtime EN)) (pub_VolumeId req) @ ''/'')"
proof -
  let ?s = "s\<lparr>PVLock := (PVLock s)(pub_VolumeId req \<mapsto> getRequestIDFromContext ctx)\<rparr>"
  obtain v where body: "run_state (publish_volume E fuel req) ?s = (Done (a, None), v)"
    and t: "t = v\<lparr>PVLock := Delete (PVLock v) (pub_VolumeId req)\<rparr>"
    by (rule pv_locked_free[OF assms(5)[unfolded ControllerPublishVolume_def]]) auto
  have "wp (publish_volume E fuel req) (\<lambda>r t. \<forall>a. r = Done (a, None) \<longrightarrow>
      slice_serves E EN V N (pub_VolumeId req) (nfsClientServicePort (nfsService s)) (world t)) ?s"
    using publish_volume_serves[OF assms(1,2), of ?s] assms(3,4) by simp
  from wpD[OF this body] show ?thesis by (auto simp: slice_serves_def exported_at_def t)
qed

section \<open>A cluster with one node\<close>

text \<open>The sample controller beside node processes that run the sample node's handlers.\<close>

type_synonym sample_net = "string \<rightharpoonup> sample_world nfs_state"
type_synonym sample_cluster = "sample_world \<times> sample_net"

definition lift_op :: "(sample_world \<Rightarrow> 'a \<times> sample_world) \<Rightarrow> sample_cluster \<Rightarrow> 'a \<times> sample_cluster" where
  "lift_op f w = (case f (fst w) of (a, c) \<Rightarrow> (a, (c, snd w)))"

definition node_export :: "string \<Rightarrow> ExportNfsVolumeRequest \<Rightarrow> sample_net \<Rightarrow> (ExportNfsVolumeResponse option \<times> err) \<times> sample_net" where
  "node_export addr req net = (case net addr of
     None \<Rightarrow> ((None, Some ''unavailable''), net)
   | Some n \<Rightarrow> (case run_state (ExportNfsVolume sample_env 1 req) n of
       (Done (resp, None, _), n') \<Rightarrow> ((resp, None), net(addr \<mapsto> n'))
     | (_, n') \<Rightarrow> ((None, Some ''failed''), net(addr \<mapsto> n'))))"

definition cluster_clientset :: "sample_cluster Clientset" where
  "cluster_clientset = \<lparr>
     cs_CreateService = (\<lambda>ns v. lift_op (cs_CreateService sample_clientset ns v)),
     cs_GetService = (\<lambda>ns n. lift_op (cs_GetService sample_clientset ns n)),
     cs_UpdateService = (\<lambda>ns v. lift_op (cs_UpdateService sample_clientset ns v)),
     cs_DeleteService = (\<lambda>ns n. lift_op (cs_DeleteService sample_clientset ns n)),
     cs_CreateEndpointSlice = (\<lambda>ns v. lift_op (cs_CreateEndpointSlice sample_clientset ns v)),
     cs_GetEndpointSlice = (\<lambda>ns n. lift_op (cs_GetEndpointSlice sample_clientset ns n)),
     cs_UpdateEndpointSlice = (\<lambda>ns v. lift_op (cs_UpdateEndpointSlice sample_clientset ns v)),
     cs_DeleteEndpointSlice = (\<lambda>ns n. lift_op (cs_DeleteEndpointSlice sample_clientset ns n)),
     cs_ListEndpointSlices = (\<lambda>ns sel. lift_op (cs_ListEndpointSlices sample_clientset ns sel)),
     cs_GetPersistentVolume = (\<lambda>n. lift_op (cs_GetPersistentVolume sample_clientset n)),
     cs_GetNode = (\<lambda>n. lift_op (cs_GetNode sample_clientset n)),
     cs_ListNodes = lift_op (cs_ListNodes sample_clientset),
     cs_IsNotFound = cs_IsNotFound sample_clientset, rest_InClusterConfig = ok_err, kubernetes_NewForConfig = ok_err\<rparr>"

definition cluster_env :: "sample_cluster env" where
  "cluster_env = \<lparr>NodeRoot = ''/noderoot'', NfsExportDirectory = ''/e'', DriverNamespace = ''ns'', DriverName = ''driver'',
     opSys = \<lparr>os_Getenv = (\<lambda>_ _. []), os_Stat = (\<lambda>_. ok_err), os_MkdirAll = (\<lambda>_ _. ok_err),
       os_Chown = (\<lambda>_ _ _. ok_err), os_Chmod = (\<lambda>_ _. ok_err), os_Open = (\<lambda>_. ok_err),
       os_OpenFile = (\<lambda>_. ok_err), file_Read = Pair None, file_Write = (\<lambda>_. Pair None), file_Close = ok_err\<rparr>,
     exec = \<lparr>ExecuteCommand = (\<lambda>_ _. Pair ([], None)), ExecuteCommandContext = (\<lambda>_ _. Pair ([], None)),
       GetCombinedOutput = (\<lambda>_. Pair ([], None))\<rparr>,
     vcsi = \<lparr>vcsi_CreateVolume = (\<lambda>r. lift_op (vcsi_CreateVolume sample_vcsi r)),
       vcsi_ControllerPublishVolume = (\<lambda>r. lift_op (vcsi_ControllerPublishVolume sample_vcsi r)),
       vcsi_ControllerUnpublishVolume = (\<lambda>r. lift_op (vcsi_ControllerUnpublishVolume sample_vcsi r)),
       vcsi_MountVolume = (\<lambda>v m d c. lift_op (vcsi_MountVolume sample_vcsi v m d c)),
       vcsi_UnmountVolume = (\<lambda>_ _ _. ok_err)\<rparr>,
     clientset = cluster_clientset,
     nfsClient = \<lparr>grpc_NewClient = (\<lambda>_. ok_err),
       rpc_ExportNfsVolume = (\<lambda>a r w. case node_export a r (snd w) of (answer, net) \<Rightarrow> (answer, (fst w, net))),
       rpc_UnexportNfsVolume = (\<lambda>_ _. Pair (None, Some ''unavailable'')), rpc_Ping = (\<lambda>_ _. Pair (None, Some ''unavailable'')),
       rpc_GetExports = (\<lambda>_. Pair (None, Some ''unavailable'')), net_Listen = (\<lambda>_. ok_err), grpc_Serve = ok_err\<rparr>,
     runtime = \<lparr>time_Sleep = (\<lambda>_ w. w), select_done = Pair False, ctx_Err = (\<lambda>_. ''context deadline exceeded''),
       select_timeout = Pair False, unicode_ToLower = (\<lambda>s. s), json_UnmarshalMap = json_UnmarshalMap sample_runtime,
       fmt_EndpointSlice = (\<lambda>_. ''slice''), fmt_Service = (\<lambda>_. ''service'')\<rparr>\<rparr>"

definition cluster_start :: "sample_cluster nfs_state" where
  "cluster_start = \<lparr>nfsService = sample_service, PVLock = Map.empty, nfsPVLock = Map.empty, exports_file = None,
     generation = 0, syncedGeneration = 0, savedUpdates = 0, nodeIPAddress = nodeIPAddress sample_controller,
     exportCounts = [], pingRate = 15 * Second,
     world = (world sample_controller, [''10.0.0.1:2050'' \<mapsto> sample_state []])\<rparr>"

lemma lift_op_simps [simp]: "fst (lift_op f w) = fst (f (fst w))" "fst (snd (lift_op f w)) = snd (f (fst w))"
  "snd (snd (lift_op f w)) = snd w"
  by (simp_all add: lift_op_def split: prod.split)

lemma lift_laws:
  "get_law V sel g \<Longrightarrow> get_law (V \<circ> fst) sel (\<lambda>ns n. lift_op (g ns n))"
  "create_law V sel upd name filled c \<Longrightarrow> create_law (V \<circ> fst) sel upd name filled (\<lambda>ns v. lift_op (c ns v))"
  "update_law V sel upd name c' \<Longrightarrow> update_law (V \<circ> fst) sel upd name (\<lambda>ns v. lift_op (c' ns v))"
  "delete_law V sel upd d \<Longrightarrow> delete_law (V \<circ> fst) sel upd (\<lambda>ns n. lift_op (d ns n))"
  "quiet V f \<Longrightarrow> quiet (V \<circ> fst) (lift_op f)" "leaves snd (lift_op f)"
  by (simp_all add: get_law_def create_law_def update_law_def delete_law_def quiet_def leaves_def cong: option.case_cong)

lemma cluster_kube: "kube_laws cluster_env (sample_view \<circ> fst)" "outside_quiet cluster_env (sample_view \<circ> fst)"
proof -
  have clients: "clientset cluster_env = cluster_clientset" "clientset sample_env = sample_clientset"
    by (simp_all add: cluster_env_def sample_env_def)
  note laws = kube_lawsD[OF sample_kube(1), unfolded clients]
  show "kube_laws cluster_env (sample_view \<circ> fst)"
    unfolding kube_laws_def clients cluster_clientset_def Clientset.simps
    by (intro conjI allI lift_laws laws)
  show "outside_quiet cluster_env (sample_view \<circ> fst)"
    by (simp add: outside_quiet_def quiet_def cluster_env_def sample_vcsi_def note_call_def sample_view_def split: prod.split)
qed

lemma cluster_serves: "cluster cluster_env sample_env 1 snd"
proof -
  have "export_served sample_env 1 a r net (fst (node_export a r net)) (snd (node_export a r net))" for a r net
    by (auto simp: export_served_def node_export_def split: option.splits prod.splits outcome.splits)
  then have "export_served sample_env 1 a r (snd w) (fst (rpc_ExportNfsVolume (nfsClient cluster_env) a r w))
      (snd (snd (rpc_ExportNfsVolume (nfsClient cluster_env) a r w)))" for a r w
    by (simp add: cluster_env_def split: prod.split) (metis fst_conv snd_conv)
  then show ?thesis
    unfolding cluster_def by (simp add: cluster_env_def cluster_clientset_def lift_laws) (simp add: leaves_def)
qed

lemma cluster_ready_sample: "cluster_ready cluster_env sample_env 1 (sample_view \<circ> fst) snd"
proof -
  have "keeps_service_name cluster_env"
    by (simp add: keeps_service_name_def cluster_env_def sample_vcsi_def gm_lookup_def)
  moreover have "unicode_ToLower (runtime sample_env) = unicode_ToLower (runtime cluster_env)"
    by (simp add: cluster_env_def sample_env_def sample_runtime_def)
  ultimately show ?thesis
    using cluster_kube cluster_serves sample_mounts(1) by (simp add: cluster_ready_def)
qed

lemma cluster_fields:
  "DriverNamespace cluster_env = ''ns''" "DriverName cluster_env = ''driver''"
  "unicode_ToLower (runtime cluster_env) = (\<lambda>s. s)" "select_done (runtime cluster_env) w = (False, w)"
  "vcsi_ControllerPublishVolume (vcsi cluster_env) r w = ((Some \<lparr>pubr_PublishContext = GoMap []\<rparr>, None), w)"
  "grpc_NewClient (nfsClient cluster_env) a w = (None, w)"
  "rpc_ExportNfsVolume (nfsClient cluster_env) a er w = (case node_export a er (snd w) of (answer, net) \<Rightarrow> (answer, (fst w, net)))"
  "json_UnmarshalMap (runtime cluster_env) = json_UnmarshalMap sample_runtime"
  "cs_ListNodes (clientset cluster_env) w = (Inr (map snd (w_nodes (fst w))), w)"
  "cs_GetEndpointSlice (clientset cluster_env) ns k w = (store_get (w_slices (fst w)) (ns, k), w)"
  by (simp_all add: cluster_env_def cluster_clientset_def sample_vcsi_def sample_clientset_def lift_op_def)

lemma cluster_create:
  "w_slices (fst w) = [] \<Longrightarrow> fst (cs_CreateEndpointSlice (clientset cluster_env) ns es w) = Inr es"
  "w_services (fst (snd (cs_CreateEndpointSlice (clientset cluster_env) ns es w))) = w_services (fst w)"
  "w_services (fst w) = [] \<Longrightarrow> fst (cs_CreateService (clientset cluster_env) ns v w) = Inr v"
  by (simp_all add: cluster_env_def cluster_clientset_def sample_clientset_def lift_op_def split: option.split)

lemma cluster_world: "fst (world cluster_start) = world sample_controller"
    "snd (world cluster_start) = [''10.0.0.1:2050'' \<mapsto> sample_state []]"
    "nodeIPAddress cluster_start = nodeIPAddress sample_controller"
    "PVLock cluster_start = Map.empty" "nfsClientServicePort (nfsService cluster_start) = ''2050''"
  by (simp_all add: cluster_start_def sample_service_def)

lemma cluster_export:
  assumes "exp_VolumeId r = ''nfs-v1''" and "gm_get (exp_ExportNfsContext r) ''ServiceName'' = ''nfs-v1''"
    and "exp_ExportNfsContext r \<noteq> NilMap"
  shows "\<exists>resp net. node_export ''10.0.0.1:2050'' r (snd (world cluster_start)) = ((Some resp, None), net)"
proof -
  have "\<not> has_export (sample_state []) d" for d by (simp add: has_export_def entries_sample_empty)
  moreover have "names_service sample_env r" using assms sample_service_name by (simp add: names_service_def)
  ultimately obtain c t where "run_state (ExportNfsVolume sample_env 1 r) (sample_state []) =
      (Done (Some \<lparr>expr_VolumeId = exp_VolumeId r, expr_ExportNfsContext = NilMap\<rparr>, None, c), t)"
    using export_runs[OF exports_inv_sample_empty, of r 1] node_works_sample clean_export_entry_sample assms(1,3)
    by (auto simp: sample_state_def)
  then show ?thesis by (simp add: node_export_def cluster_world)
qed

lemma cluster_volume: "IsNFSVolumeID ''nfs-v1''"
  by (simp add: IsNFSVolumeID_def hasNFSPrefix_def HasPrefix_def CsiNfsPrefixDash_def)

lemma cluster_publish_runs:
  "\<exists>t. run_state (ControllerPublishVolume cluster_env 1 sample_ctx sample_publish) cluster_start =
     (Done sample_publish_answer, t)"
proof -
  let ?s = "cluster_start\<lparr>PVLock := [''nfs-v1'' \<mapsto> []]\<rparr>"
  let ?req = "\<lparr>exp_VolumeId = ArrayToNFSVolumeID (ToArrayVolumeID ''nfs-v1''),
    exp_ExportNfsContext = GoMap [(''Name'', ''pv1''), (''shared-nfs'', []), (ServiceName, ''nfs-v1'')]\<rparr>"
  have lookup: "run_state (GetNodeByCSINodeID cluster_env ''driver'' ''n1'') ?s =
     (Inr (snd (hd (w_nodes (world sample_controller)))), ?s)"
    by (simp add: GetNodeByCSINodeID_def cluster_fields cluster_world find_csi_node_find carries_csi_id_def)
       (simp add: sample_controller_def sample_runtime_def carries_csi_id_def gm_lookup_def)
  have get: "run_state (getServiceAndSlice cluster_env ''nfs-v1'') ?s = ((None, None, Some ''not found''), ?s)"
    by (simp add: getServiceAndSlice_def GetEndpointSlice_def cluster_fields cluster_world sample_fields store_get_def)
  have "ArrayToNFSVolumeID (ToArrayVolumeID ''nfs-v1'') = ''nfs-v1''"
    using cluster_volume by (simp add: nfs_id.enc_dec IsNFSVolumeID_def)
  then obtain resp net where export: "node_export ''10.0.0.1:2050'' ?req (snd (world cluster_start)) = ((Some resp, None), net)"
    using cluster_export[of ?req] by (auto simp: gm_get_def gm_lookup_def ServiceName_def)
  have retry: "run_state (export_retry cluster_env (Suc 0) ''10.0.0.1'' ?req) ?s =
      (Done None, ?s\<lparr>world := (world sample_controller, net)\<rparr>)"
    using export by (simp add: callExportNfsVolume_def getNfsClient_def cluster_fields cluster_world)
  have recorded: "\<exists>v t. run_state (export_and_record cluster_env (Suc 0) ''ns'' ''nfs-v1'' ''pv1'' ''10.0.0.1'' ''n1''
      (ToArrayVolumeID ''nfs-v1'') (exp_ExportNfsContext ?req)) ?s = (Done (Some v, None), t)"
    by (simp add: export_and_record_def retry CreateEndpointSlice_def CreateService_def cluster_create sample_fields Let_def
        del: export_retry.simps)
  obtain v t where make: "run_state (makeNfsService cluster_env (Suc 0) ''ns'' ''nfs-v1'' ''pv1'' ''10.0.0.1'' sample_publish) ?s =
      (Done (Some v, None), t)"
    using recorded by (auto simp: makeNfsService_def Let_def sample_fields cluster_fields gm_copy_def ServiceName_def)
  obtain st where st: "map_of (nodeIPAddress sample_controller) ''10.0.0.1'' = Some st" "online st" "\<not> inRecovery st"
    using sample_fields(10) by blast
  have name: "gm_get (GoMap [(''Name'', ''pv1'')]) ''Name'' = ''pv1''" by (simp add: gm_get_def gm_lookup_def)
  have "run_state (publish_volume cluster_env 1 sample_publish) ?s = (Done sample_publish_answer, t)"
    by (simp add: publish_volume_def sample_fields cluster_fields cluster_world lookup get make name sample_service_name
        GetNodeStatus_def st sample_publish_answer_def CsiNfsPrefix_def Let_def)
  then show ?thesis
    by (simp add: ControllerPublishVolume_def locked_def LockPV_def UnlockPV_def LoadOrStore_def sample_fields cluster_world
        getRequestIDFromContext_def sample_ctx_def)
qed

theorem published_volume_is_exported_witness:
  "\<exists>t ip n. run_state (ControllerPublishVolume cluster_env 1 sample_ctx sample_publish) cluster_start =
      (Done sample_publish_answer, t) \<and>
    snd (world t) (ip @ '':2050'') = Some n \<and> has_export n ''/e/nfs-v1/''"
proof -
  obtain t where run: "run_state (ControllerPublishVolume cluster_env 1 sample_ctx sample_publish) cluster_start =
      (Done sample_publish_answer, t)" using cluster_publish_runs ..
  have vid: "pub_VolumeId sample_publish = ''nfs-v1''" by (simp add: sample_fields)
  have nfs: "IsNFSVolumeID (pub_VolumeId sample_publish)" unfolding vid by (rule cluster_volume)
  have fresh: "k_services ((sample_view \<circ> fst) (world cluster_start)) K = None" for K
    by (simp add: cluster_world sample_view_def sample_fields)
  have nodes: "nodes_ok sample_env (pub_VolumeId sample_publish) (snd (world cluster_start))"
    unfolding vid nodes_ok_def cluster_world using exports_inv_sample_empty clean_export_entry_sample by auto
  have dir: "NfsExportDirectory sample_env = ''/e''" by (simp add: sample_env_def)
  from published_volume_is_exported[OF cluster_ready_sample nfs fresh nodes run[unfolded sample_publish_answer_def]]
  obtain ip n where n: "snd (world t) (ip @ '':'' @ ''2050'') = Some n" "has_export n ''/e/nfs-v1/''"
    by (auto simp: vid dir sample_service_name cluster_world)
  with run show ?thesis by auto
qed

end
