(* ===== verification/Simulation.thy ===== *)
theory Simulation
  imports Prelude
begin

text \<open>
  Servers and their specifications: a server handles requests one after the other, a specification
  is a labelled transition system, and a simulation ties the two by an abstraction function under an
  invariant of the server's state. The runs are compared once, for every server.
\<close>

section \<open>Servers and runs\<close>

text \<open>Requests one after the other; an answer that is a panic ends the process.\<close>

fun serve_list :: "('q \<Rightarrow> ('s, 'r) state) \<Rightarrow> ('r \<Rightarrow> bool) \<Rightarrow> 'q list \<Rightarrow> ('s, 'r list) state" where
  "serve_list handle stop [] = State_Monad.return []"
| "serve_list handle stop (q # qs) = do {
     r \<leftarrow> handle q;
     if stop r then State_Monad.return [r]
     else do { rs \<leftarrow> serve_list handle stop qs; State_Monad.return (r # rs) } }"

inductive runs :: "('a \<Rightarrow> 'e \<Rightarrow> 'a \<Rightarrow> bool) \<Rightarrow> 'a \<Rightarrow> 'e list \<Rightarrow> 'a \<Rightarrow> bool" for spec :: "'a \<Rightarrow> 'e \<Rightarrow> 'a \<Rightarrow> bool" where
  nil: "runs spec A [] A"
| cons: "spec A e B \<Longrightarrow> runs spec B es C \<Longrightarrow> runs spec A (e # es) C"

inductive_simps runs_Nil [simp]: "runs spec A [] B"
inductive_simps runs_Cons: "runs spec A (e # es) B"

text \<open>What every step with such an event keeps, the run keeps.\<close>

lemma runs_keep:
  "runs spec A es B \<Longrightarrow> (\<And>A e B. spec A e B \<Longrightarrow> quiet e \<Longrightarrow> P A \<Longrightarrow> P B) \<Longrightarrow> \<forall>e \<in> set es. quiet e \<Longrightarrow> P A \<Longrightarrow> P B"
  by (induction rule: runs.induct) auto

section \<open>Simulations\<close>

locale simulation =
  fixes inv :: "'s \<Rightarrow> bool" and abs :: "'s \<Rightarrow> 'a" and handle :: "'q \<Rightarrow> ('s, 'r) state"
    and ok :: "'q \<Rightarrow> bool" and answered :: "'r \<Rightarrow> bool" and event :: "'q \<Rightarrow> 'r \<Rightarrow> 'e"
    and spec :: "'a \<Rightarrow> 'e \<Rightarrow> 'a \<Rightarrow> bool"
  assumes step: "inv s \<Longrightarrow> ok q \<Longrightarrow> run_state (handle q) s = (r, t) \<Longrightarrow> answered r \<Longrightarrow>
    inv t \<and> spec (abs s) (event q r) (abs t)"
begin

lemma run:
  "inv s \<Longrightarrow> \<forall>q \<in> set qs. ok q \<Longrightarrow> run_state (serve_list handle stop qs) s = (rs, t) \<Longrightarrow> \<forall>r \<in> set rs. answered r \<Longrightarrow>
   inv t \<and> runs spec (abs s) (map2 event qs rs) (abs t) \<and> (length rs = length qs \<or> rs \<noteq> [] \<and> stop (last rs))"
proof (induction qs arbitrary: s rs)
  case (Cons q qs)
  obtain r u where one: "run_state (handle q) s = (r, u)" by fastforce
  show ?case
  proof (cases "stop r")
    case True
    with Cons.prems(3) one have rs: "rs = [r]" "t = u" by auto
    with step[OF Cons.prems(1) _ one] Cons.prems(2,4) True show ?thesis by (auto intro!: runs.intros)
  next
    case False
    with Cons.prems(3) one obtain ps where rest: "run_state (serve_list handle stop qs) u = (ps, t)" and rs: "rs = r # ps"
      by (auto split: prod.splits)
    have u: "inv u" "spec (abs s) (event q r) (abs u)"
      using step[OF Cons.prems(1) _ one] Cons.prems(2,4) rs by auto
    with Cons.IH[OF u(1) _ rest] Cons.prems(2,4) rs show ?thesis by (auto intro: runs.cons)
  qed
qed auto

end

end
