(* ===== verification/Node_Server.thy ===== *)
theory Node_Server
  imports Nfs_Service Simulation
begin

text \<open>
  The NFS node server as one process: the requests of its gRPC service
  (\<open>src/nfs/nfs_service.go\<close>), one after the other, against the abstract specification of what it
  promises, a set of exported service names.

  The specification says what a request may do to the set and what its answer tells; the abstraction
  function reads the set off the export file. The refinement is a simulation, with the invariant of
  the file (\<open>node_table\<close>) carried along: the mounts, the API server and \<open>exportfs\<close> may fail at any
  moment, only the system calls on the export file may not.
\<close>

section \<open>Definitions\<close>

subsection \<open>The requests of the service\<close>

datatype node_request =
  ExportRq ExportNfsVolumeRequest | UnexportRq UnexportNfsVolumeRequest | PingRq PingRequest | GetExportsRq

datatype node_answer =
    ExportAns "export_answer outcome"
  | UnexportAns "(UnexportNfsVolumeResponse option \<times> err) outcome"
  | PingAns "(PingResponse \<times> err) outcome"
  | GetExportsAns "GetExportsResponse \<times> err"

fun serve_request :: "'w env \<Rightarrow> nat \<Rightarrow> node_request \<Rightarrow> ('w nfs_state, node_answer) state" where
  "serve_request E fuel (ExportRq req) = do { r \<leftarrow> ExportNfsVolume E fuel req; State_Monad.return (ExportAns r) }"
| "serve_request E fuel (UnexportRq req) = do { r \<leftarrow> UnexportNfsVolume E fuel req; State_Monad.return (UnexportAns r) }"
| "serve_request E fuel (PingRq req) = do { r \<leftarrow> Ping E req; State_Monad.return (PingAns r) }"
| "serve_request E fuel GetExportsRq = do { r \<leftarrow> nfs_GetExports E; State_Monad.return (GetExportsAns r) }"

text \<open>A panic of a handler ends the process.\<close>

fun panicked :: "node_answer \<Rightarrow> bool" where
  "panicked (ExportAns (Panicked m)) = True"
| "panicked (UnexportAns (Panicked m)) = True"
| "panicked (PingAns (Panicked m)) = True"
| "panicked _ = False"

definition serve_all :: "'w env \<Rightarrow> nat \<Rightarrow> node_request list \<Rightarrow> ('w nfs_state, node_answer list) state" where
  "serve_all E fuel = serve_list (serve_request E fuel) panicked"

subsection \<open>The specification\<close>

text \<open>
  What a request and its answer tell about the exported names: an export and whether it succeeded,
  an unexport, a ping and whether it asks for a dump, and a listing with the lines it gave.
\<close>

datatype node_event = Exporting string bool | Unexporting string | Pinging bool | Listing "string list"

inductive spec_step :: "(string list \<Rightarrow> string set) \<Rightarrow> string set \<Rightarrow> node_event \<Rightarrow> string set \<Rightarrow> bool"
  for names_in :: "string list \<Rightarrow> string set" where
  export_ok: "spec_step names_in A (Exporting n True) (insert n A)"
| export_failed: "B \<in> {A, insert n A} \<Longrightarrow> spec_step names_in A (Exporting n False) B"
| unexport: "spec_step names_in A (Unexporting n) (A - {n})"
| ping: "spec_step names_in A (Pinging False) A"
| dump: "B \<subseteq> A \<Longrightarrow> spec_step names_in A (Pinging True) B"
| listing: "names_in lines = A \<Longrightarrow> spec_step names_in A (Listing lines) A"

subsection \<open>The abstraction\<close>

text \<open>The directory of a service name, and the names of a family that a list of entries exports.\<close>

definition name_dir :: "'w env \<Rightarrow> string \<Rightarrow> string" where
  "name_dir E n = NfsExportDirectory E @ ''/'' @ n"

definition exported_in :: "'w env \<Rightarrow> string set \<Rightarrow> string list \<Rightarrow> string set" where
  "exported_in E N ls = {n \<in> N. \<exists>l \<in> set ls. HasPrefix l (name_dir E n @ ''/'')}"

definition exported_names :: "'w env \<Rightarrow> string set \<Rightarrow> 'w nfs_state \<Rightarrow> string set" where
  "exported_names E N s = exported_in E N (export_entries s)"

definition volume_name :: "'w env \<Rightarrow> string \<Rightarrow> string" where
  "volume_name E vid = VolumeIDToServiceName (unicode_ToLower (runtime E)) vid"

fun event_of :: "'w env \<Rightarrow> node_request \<Rightarrow> node_answer \<Rightarrow> node_event" where
  "event_of E (ExportRq req) a = Exporting (volume_name E (exp_VolumeId req))
     (case a of ExportAns (Done (_, None, _)) \<Rightarrow> True | _ \<Rightarrow> False)"
| "event_of E (UnexportRq req) a = Unexporting (gm_get (unexp_UnexportNfsContext req) ''ServiceName'')"
| "event_of E (PingRq req) a = Pinging (ping_DumpAllExports req)"
| "event_of E GetExportsRq a = Listing (case a of GetExportsAns (r, _) \<Rightarrow> getr_Exports r | _ \<Rightarrow> [])"

text \<open>
  The service names of the volumes in use: no name holds a slash or starts with another name (the
  table is searched by prefix), and the export directory is a path without doubled slashes.
\<close>

definition separate_names :: "'w env \<Rightarrow> string set \<Rightarrow> bool" where
  "separate_names E N \<longleftrightarrow>
     (\<forall>n \<in> N. n \<noteq> [] \<and> CHR ''/'' \<notin> set n \<and> (\<forall>m \<in> N. HasPrefix m n \<longrightarrow> m = n)) \<and>
     \<not> Contains (NfsExportDirectory E @ ''/'') ''//''"

text \<open>
  The invariant: the file is readable, it is exactly the print of its entries, and the entries of
  the export directory consist of a directory and options.
\<close>

definition node_table :: "'w env \<Rightarrow> 'w nfs_state \<Rightarrow> bool" where
  "node_table E s \<longleftrightarrow> exports_inv E s \<and> exports_file s = Some (unlines (export_entries s)) \<and>
     (\<forall>l \<in> set (export_entries s). HasPrefix l (NfsExportDirectory E) \<longrightarrow> CHR '' '' \<in> set l)"

text \<open>What the controller sends: a context with the service name of the volume.\<close>

fun request_ok :: "'w env \<Rightarrow> string set \<Rightarrow> 'w nfs_state \<Rightarrow> node_request \<Rightarrow> bool" where
  "request_ok E N s (ExportRq req) \<longleftrightarrow> names_service E req \<and> volume_name E (exp_VolumeId req) \<in> N \<and>
     clean_entry (export_entry s (name_dir E (volume_name E (exp_VolumeId req))))"
| "request_ok E N s (UnexportRq req) \<longleftrightarrow> gm_get (unexp_UnexportNfsContext req) ''ServiceName'' \<in> N"
| "request_ok E N s _ \<longleftrightarrow> True"

section \<open>Lemmas\<close>

subsection \<open>Names and entries\<close>

lemma Contains_sublist: "Contains s p \<longleftrightarrow> sublist p s"
  by (simp add: Contains_iff sublist_def)

lemma ReplaceAll_none: "\<not> Contains s old \<Longrightarrow> ReplaceAll s old new = s"
proof (induction s)
  case (Cons c s)
  then have "\<not> HasPrefix (c # s) old" "\<not> Contains s old"
    by (auto simp: Contains_sublist HasPrefix_prefix sublist_Cons_right)
  with Cons.IH show ?case by simp
qed simp

lemma no_double_slash:
  assumes "\<not> Contains (d @ ''/'') ''//''" and "CHR ''/'' \<notin> set n"
  shows "\<not> Contains (d @ ''/'' @ n) ''//''"
proof
  assume "Contains (d @ ''/'' @ n) ''//''"
  then have sub: "sublist ''//'' ((d @ ''/'') @ n)" by (simp add: Contains_sublist)
  then consider "sublist ''//'' (d @ ''/'')" | "sublist ''//'' n"
    | xs ys where "''//'' = xs @ ys" "suffix xs (d @ ''/'')" "prefix ys n"
    unfolding sublist_append by blast
  then show False
  proof cases
    case 1
    with assms(1) show ?thesis by (simp add: Contains_sublist)
  next
    case 2
    then have "set ''//'' \<subseteq> set n" by (rule set_mono_sublist)
    with assms(2) show ?thesis by simp
  next
    case 3
    have "ys \<noteq> []" using 3 assms(1) suffix_imp_sublist by (auto simp: Contains_sublist)
    moreover have "set ys \<subseteq> set ''//''" unfolding 3(1) by simp
    ultimately show ?thesis using assms(2) set_mono_prefix[OF 3(3)] by (cases ys) auto
  qed
qed

lemma unexport_path_name:
  assumes "separate_names E N" and "n \<in> N"
  shows "unexport_path (NfsExportDirectory E) vid n = name_dir E n"
  using assms no_double_slash[of "NfsExportDirectory E" n]
  by (simp add: unexport_path_def name_dir_def separate_names_def ReplaceAll_none)

lemma prefix_slash:
  assumes "CHR ''/'' \<notin> set m" and "CHR ''/'' \<notin> set n" and "prefix (m @ ''/'') (n @ ''/'' @ x)"
  shows "m = n"
  using assms
proof (induction m arbitrary: n)
  case Nil
  then show ?case by (cases n) auto
next
  case (Cons c m)
  then show ?case by (cases n) auto
qed

lemma dir_of_entry:
  assumes "separate_names E N" and "m \<in> N" and "n \<in> N"
  shows "HasPrefix (export_entry s (name_dir E n)) (name_dir E m @ ''/'') \<longleftrightarrow> m = n"
proof
  assume "HasPrefix (export_entry s (name_dir E n)) (name_dir E m @ ''/'')"
  then have "prefix (m @ ''/'') (n @ ''/'' @ '' '' @ export_options (podCIDR (nfsService s)))"
    by (simp add: HasPrefix_prefix export_entry_def name_dir_def)
  with assms show "m = n" by (auto simp: separate_names_def intro: prefix_slash)
qed (simp add: HasPrefix_prefix export_entry_def)

lemma exported_in_append:
  assumes "separate_names E N" and "n \<in> N"
  shows "exported_in E N (ls @ [export_entry s (name_dir E n)]) = insert n (exported_in E N ls)"
  using dir_of_entry[OF assms(1) _ assms(2), of _ s] assms(2) by (auto simp: exported_in_def)

lemma both_prefixes:
  assumes "separate_names E N" and "m \<in> N" and "n \<in> N"
    and "HasPrefix l (name_dir E m @ ''/'')" and "HasPrefix l (name_dir E n)"
  shows "m = n"
proof -
  have "prefix (name_dir E m @ ''/'') (name_dir E n) \<or> prefix (name_dir E n) (name_dir E m @ ''/'')"
    using assms(4,5) prefix_same_cases unfolding HasPrefix_prefix by blast
  then have "prefix (m @ ''/'') n \<or> prefix n (m @ ''/'')" by (simp add: name_dir_def)
  then have "prefix n m"
  proof
    assume "prefix (m @ ''/'') n"
    from set_mono_prefix[OF this] assms(1,3) show ?thesis by (auto simp: separate_names_def)
  next
    assume "prefix n (m @ ''/'')"
    with assms(1,3) show ?thesis by (auto simp: separate_names_def prefix_snoc)
  qed
  with assms(1-3) show ?thesis by (auto simp: separate_names_def HasPrefix_prefix)
qed

lemma exported_in_delete:
  assumes "separate_names E N" and "n \<in> N"
  shows "exported_in E N (filter (\<lambda>l. \<not> HasPrefix l (name_dir E n)) ls) = exported_in E N ls - {n}"
proof -
  have gone: "HasPrefix l (name_dir E n)" if "HasPrefix l (name_dir E n @ ''/'')" for l
    using that HasPrefix_append HasPrefix_trans by blast
  have "\<not> HasPrefix l (name_dir E n)" if "m \<in> N" "m \<noteq> n" "HasPrefix l (name_dir E m @ ''/'')" for m l
    using both_prefixes[OF assms(1) that(1) assms(2) that(3)] that(2) by blast
  with gone show ?thesis by (fastforce simp: exported_in_def)
qed

lemma exported_in_mono: "set ls \<subseteq> set ms \<Longrightarrow> exported_in E N ls \<subseteq> exported_in E N ms"
  by (auto simp: exported_in_def)

lemma exported_in_listed:
  "exported_in E N (filter (\<lambda>l. HasPrefix l (NfsExportDirectory E)) ls) = exported_in E N ls"
  using HasPrefix_append HasPrefix_trans by (fastforce simp: exported_in_def name_dir_def)

subsection \<open>The operations of the table\<close>

text \<open>A state whose table is well formed and holds these entries, with the configuration of \<open>s\<close>.\<close>

definition table_is :: "'w env \<Rightarrow> 'w nfs_state \<Rightarrow> string list \<Rightarrow> 'w nfs_state \<Rightarrow> bool" where
  "table_is E s ls t \<longleftrightarrow> node_table E t \<and> nfsService t = nfsService s \<and> export_entries t = ls"

lemma node_table_clean: "node_table E s \<Longrightarrow> l \<in> set (export_entries s) \<Longrightarrow> clean_entry l"
  using trimmed_line_clean by (auto simp: node_table_def exports_inv_def export_entries_def)

lemma table_isI:
  assumes "io_ok E" and "exports_file t = Some (unlines ls)" and "nfsService t = nfsService s"
    and "\<And>l. l \<in> set ls \<Longrightarrow> clean_entry l \<and> (HasPrefix l (NfsExportDirectory E) \<longrightarrow> CHR '' '' \<in> set l)"
  shows "table_is E s ls t"
proof -
  have "wf_exports (unlines ls)" "exports_lines (unlines ls) = ls"
    using wf_unlines[of ls] assms(4) by blast+
  with assms show ?thesis by (simp add: table_is_def node_table_def exports_inv_def export_entries_def)
qed

lemma table_isD:
  assumes "table_is E s ls t"
  shows "io_ok E" "exports_file t = Some (unlines ls)" "exports_inv E t" "nfsService t = nfsService s"
    "export_entries t = ls" "l \<in> set ls \<Longrightarrow> clean_entry l"
    "l \<in> set ls \<Longrightarrow> HasPrefix l (NfsExportDirectory E) \<Longrightarrow> CHR '' '' \<in> set l"
  using assms node_table_clean by (auto simp: table_is_def node_table_def exports_inv_def)

lemma table_is_same:
  assumes "table_is E s ls t" and "exports_file u = exports_file t" and "nfsService u = nfsService t"
  shows "table_is E s ls u"
proof -
  have "export_entries u = export_entries t" by (simp add: export_entries_def assms(2))
  with assms show ?thesis by (auto simp: table_is_def node_table_def exports_inv_def)
qed

lemma table_is_process: "process u = process t \<Longrightarrow> table_is E s ls t \<Longrightarrow> table_is E s ls u"
  by (erule table_is_same) (rule process_fields(3) process_fields(8), assumption)+

lemma table_is_simps [simp]:
  "table_is E s ls (t\<lparr>world := w\<rparr>) = table_is E s ls t" "table_is E s ls (t\<lparr>generation := g\<rparr>) = table_is E s ls t"
  by (auto intro: table_is_same)

lemma table_is_work: "work u = work t \<Longrightarrow> table_is E s ls t \<Longrightarrow> table_is E s ls u"
  by (erule table_is_same) (rule work_fields(1) work_fields(6), assumption)+

lemma keeps_service_write_lines: "keeps nfsService (write_lines E ls)"
  by (induction ls) (auto intro!: frame simp: write_exports_def simp del: run_state_bind)

lemma keeps_service_delete: "keeps nfsService (DeleteExport E d)"
  unfolding DeleteExport_def open_exports_def scan_exports_def fail_generation_def bump_generation_def Let_def
  by (intro frame keeps_service_ext keeps_service_write_lines) simp_all

lemma wp_Add_table:
  assumes "table_is E s ls u" and "clean_entry (d @ '' '' @ opts)"
    and "\<And>g e t. table_is E s ls t \<Longrightarrow> Q (g, e) t"
    and "\<And>g t. table_is E s (ls @ [d @ '' '' @ opts]) t \<Longrightarrow> Q (g, None) t"
  shows "wp (AddExport E d opts) Q u"
proof (rule wp_run)
  fix a t assume run: "run_state (AddExport E d opts) u = (a, t)"
  note u = table_isD[OF assms(1)]
  have svc: "nfsService t = nfsService u"
    using keeps_service_add[of E d opts] run by (auto simp: keeps_def) (metis snd_conv)
  show "Q a t"
  proof (cases "has_export u d")
    case True
    with AddExport_duplicate[OF u(3) True, of opts] run assms(1,3) show ?thesis by auto
  next
    case False
    from AddExport_ok[OF u(3) False assms(2)] run have ok: "snd a = None" by auto
    with run obtain g where a: "a = (g, None)" by (metis prod.collapse)
    from AddExport_effect[OF run[unfolded a]] u(2)
    have "exports_file t = Some (unlines (ls @ [d @ '' '' @ opts]))" by (auto simp: unlines_def)
    then have "table_is E s (ls @ [d @ '' '' @ opts]) t"
      using u assms(2) svc by (intro table_isI) auto
    with assms(4) show ?thesis by (simp add: a)
  qed
qed

lemma wp_Delete_table:
  assumes "table_is E s ls u" and "\<And>g t. table_is E s (filter (\<lambda>l. \<not> HasPrefix l d) ls) t \<Longrightarrow> Q (g, None) t"
  shows "wp (DeleteExport E d) Q u"
proof (rule wp_run)
  fix a t assume run: "run_state (DeleteExport E d) u = (a, t)"
  note u = table_isD[OF assms(1)]
  have svc: "nfsService t = nfsService u"
    using keeps_service_delete[of E d] run by (auto simp: keeps_def) (metis snd_conv)
  from DeleteExport_ok[OF u(3), of d] run have "snd a = None" by auto
  with run obtain g where a: "a = (g, None)" by (metis prod.collapse)
  from DeleteExport_effect[OF run[unfolded a]]
  have "exports_file t = Some (unlines (filter (\<lambda>l. \<not> HasPrefix l d) ls))" by (simp add: u(5))
  then have "table_is E s (filter (\<lambda>l. \<not> HasPrefix l d) ls) t" using u svc by (intro table_isI) auto
  with assms(2) show "Q a t" by (simp add: a)
qed

lemma wp_Resync_table:
  assumes "table_is E s ls u" and "\<And>e t. table_is E s ls t \<Longrightarrow> Q e t"
  shows "wp (ResyncNFSMountd E g) Q u"
proof (rule wp_run)
  fix e t assume run: "run_state (ResyncNFSMountd E g) u = (e, t)"
  have "nfsService t = nfsService u" using keeps_service_resync[of E g] run by (auto simp: keeps_def) (metis snd_conv)
  moreover have "exports_file t = exports_file u" using ResyncNFSMountd_effect[OF run] by (simp add: table_state_def)
  ultimately show "Q e t" using table_is_same[OF assms(1)] assms(2) by blast
qed

lemma wp_process_table:
  assumes "keeps process m" and "table_is E s ls u" and "\<And>a t. table_is E s ls t \<Longrightarrow> Q a t"
  shows "wp m Q u"
  using assms(2,3) by (intro wp_keeps[OF assms(1)]) (auto intro: table_is_process)

subsection \<open>The handlers\<close>

lemma finish_export_table:
  assumes "table_is E s ls u" and "clean_entry (export_entry s path)"
  shows "wp (finish_export E resp path ctx)
    (\<lambda>_ t. table_is E s ls t \<or> table_is E s (ls @ [export_entry s path]) t) u"
proof -
  have e: "export_entry s path = (path @ ''/'') @ '' '' @ export_options (podCIDR (nfsService v))"
    if "table_is E s l v" for v l
    using table_isD(4)[OF that] by (simp add: export_entry_def)
  have add: "wp (AddExport E (path @ ''/'') (export_options (podCIDR (nfsService v)))) Q v"
    if "table_is E s ls v" and "\<And>g e t. table_is E s ls t \<Longrightarrow> Q (g, e) t"
      and "\<And>g t. table_is E s (ls @ [export_entry s path]) t \<Longrightarrow> Q (g, None) t" for Q v
    using that assms(2) by (intro wp_Add_table[OF that(1)]) (simp_all only: e[OF that(1)])
  have resync: "wp (ResyncNFSMountd E g) Q v"
    if "table_is E s ls v \<or> table_is E s (ls @ [export_entry s path]) v"
      and "\<And>e t. table_is E s ls t \<or> table_is E s (ls @ [export_entry s path]) t \<Longrightarrow> Q e t" for Q v g
    using that wp_Resync_table by metis
  show ?thesis unfolding finish_export_def
    by (intro wp_bind wp_ext wp_return wp_get wp_case_option wp_case_prod wp_set_generation add resync)
       (use assms(1) in auto)
qed

lemma handler_table:
  assumes run: "run_state (locked (nfsLockPV E fuel k) (nfsUnlockPV k) m) u = (r, t)" and "fuel \<noteq> 0"
    and "nfsPVLock u k = None" and locks: "keeps locks m" and ends: "\<And>v. fst (run_state m v) \<noteq> Running"
    and body: "\<And>v. table_is E s ls v \<Longrightarrow> wp m (\<lambda>_ t. \<exists>l \<in> L. table_is E s l t) v"
    and "table_is E s ls u"
  shows "nfsPVLock t = nfsPVLock u \<and> (\<exists>l \<in> L. table_is E s l t)"
proof -
  let ?Q = "\<lambda>v r t. table_is E s ls v \<longrightarrow> (\<exists>l \<in> L. table_is E s l t)"
  have "if nfsPVLock u k = None then nfsPVLock t = nfsPVLock u \<and> ?Q u r t
    else r = Running \<and> nfsPVLock t = nfsPVLock u"
  proof (rule nfs_handler[OF run assms(2) locks ends])
    show "wp m (?Q v) v" for v
      by (cases "table_is E s ls v") (auto simp: wp_def dest: body[unfolded wp_def])
  qed (metis table_is_work)
  with assms(3,7) show ?thesis by simp
qed

lemma mounted_path:
  assumes "mounts_at_service_name E" and "names_service E req"
    and "vcsi_MountVolume (vcsi E) (exp_VolumeId req) [] (NfsExportDirectory E) (exp_ExportNfsContext req) w = ((path, None), w')"
  shows "path = name_dir E (volume_name E (exp_VolumeId req))"
  using assms unfolding mounts_at_service_name_def names_service_def name_dir_def volume_name_def by (metis fst_conv)

lemma export_volume_table:
  assumes "mounts_at_service_name E" and "request_ok E N s (ExportRq req)" and "table_is E s ls u"
  shows "wp (export_volume E req) (\<lambda>_ t.
    \<exists>l \<in> {ls, ls @ [export_entry s (name_dir E (volume_name E (exp_VolumeId req)))]}. table_is E s l t) u"
proof -
  let ?p = "name_dir E (volume_name E (exp_VolumeId req))"
  have ok: "names_service E req" "clean_entry (export_entry s ?p)" using assms(2) by simp_all
  have finish: "wp (finish_export E resp path ctx) (\<lambda>_ t. \<exists>l \<in> {ls, ls @ [export_entry s ?p]}. table_is E s l t) v"
    if "path = ?p" and "table_is E s ls v" for resp path ctx v
    unfolding that(1) by (rule wp_mono[OF finish_export_table[OF that(2) ok(2)]]) auto
  have check: "keeps process (CheckExport E d)" for d
    unfolding keeps_def by (metis CheckExport_def checkExport_effect prod.collapse)
  show ?thesis
    unfolding export_volume_def Let_def
    by (intro wp_bind wp_ext wp_process_table[OF check] wp_if wp_get wp_return wp_case_prod wp_case_option wp_mono[OF finish])
       (use assms(3) mounted_path[OF assms(1) ok(1)] in auto)
qed

lemma unexport_loop_table:
  "table_is E s ls u \<Longrightarrow> wp (unexport_loop E v sn g resp i n) (\<lambda>_. table_is E s ls) u"
proof (induction n arbitrary: i u)
  case (Suc n)
  show ?case unfolding unexport_loop.simps
    by (intro wp_bind wp_sleep wp_process_table[OF keeps_process_unmount] wp_case_option wp_if wp_return
        wp_Resync_table Suc.IH) (use Suc.prems in auto)
qed (simp add: wp_return)

lemma unexport_volume_table:
  assumes "separate_names E N" and "request_ok E N s (UnexportRq req)" and "table_is E s ls u"
  shows "wp (do { r \<leftarrow> unexport_volume E req; State_Monad.return (Done r) }) (\<lambda>_ t.
    \<exists>l \<in> {filter (\<lambda>l. \<not> HasPrefix l (name_dir E (gm_get (unexp_UnexportNfsContext req) ''ServiceName''))) ls}.
      table_is E s l t) u"
  unfolding unexport_volume_def Let_def
  using assms
  by (auto simp: unexport_path_name intro!: wp_bind wp_return wp_case_option wp_case_prod wp_Resync_table
        wp_Delete_table wp_mono[OF unexport_loop_table])

lemma split_line:
  assumes "CHR '' '' \<in> set l"
  shows "hd (Split l (CHR '' '')) @ '' '' @ Join (tl (Split l (CHR '' ''))) '' '' = l"
proof -
  obtain x xs where x: "Split l (CHR '' '') = x # xs" using Split_not_Nil by (meson neq_Nil_conv)
  have "xs \<noteq> []" using assms x Join_Split[of l "CHR '' ''"] Split_no_sep[of x l "CHR '' ''"] by auto
  with Join_Split[of l "CHR '' ''"] x show ?thesis by (cases xs) auto
qed

lemma ping_readd_table:
  assumes "table_is E s ls u" and "clean_entry l" and "CHR '' '' \<in> set l"
  shows "wp (ping_readd E (Split l (CHR '' ''))) (\<lambda>_ t. \<exists>ms. set ms \<subseteq> insert l (set ls) \<and> table_is E s ms t) u"
proof -
  have resync: "wp (ResyncNFSMountd E g) Q v"
    if "table_is E s ls v \<or> table_is E s (ls @ [l]) v"
      and "\<And>e t. table_is E s ls t \<or> table_is E s (ls @ [l]) t \<Longrightarrow> Q e t" for Q v g
    using that wp_Resync_table by metis
  have either: "\<exists>ms. set ms \<subseteq> insert l (set ls) \<and> table_is E s ms t"
    if "table_is E s ls t \<or> table_is E s (ls @ [l]) t" for t
    using that by (elim disjE) (force intro!: exI[of _ ls], force intro!: exI[of _ "ls @ [l]"])
  show ?thesis unfolding ping_readd_def
    by (intro wp_bind wp_case_prod wp_Add_table[OF assms(1)] wp_set_generation wp_get wp_return resync)
       (use assms(2) either split_line[OF assms(3)] in auto)
qed

lemma ping_export_table:
  assumes "table_is E s ls u" and "clean_entry l" and "CHR '' '' \<in> set l"
  shows "wp (ping_export E l ready removed) (\<lambda>_ t. \<exists>ms. set ms \<subseteq> insert l (set ls) \<and> table_is E s ms t) u"
proof -
  let ?d = "Clean (hd (Split l (CHR '' '')))"
  let ?less = "filter (\<lambda>l. \<not> HasPrefix l ?d) ls"
  define R where "R t \<longleftrightarrow> (\<exists>ms. set ms \<subseteq> insert l (set ls) \<and> table_is E s ms t)" for t
  have same: "R t" if "table_is E s ls t" for t
    using that unfolding R_def by (intro exI[of _ ls]) auto
  have less: "R t" if "table_is E s ?less t" for t
    using that unfolding R_def by (intro exI[of _ ?less]) auto
  have readd: "wp (ping_readd E (Split l (CHR '' ''))) Q v"
    if "table_is E s ?less v" and "\<And>t. R t \<Longrightarrow> Q () t" for Q v
  proof (rule wp_mono[OF ping_readd_table[OF that(1) assms(2,3)]])
    fix a t assume "\<exists>ms. set ms \<subseteq> insert l (set ?less) \<and> table_is E s ms t"
    then obtain ms where ms: "set ms \<subseteq> insert l (set ?less)" "table_is E s ms t" by blast
    then have "R t" unfolding R_def by (intro exI[of _ ms]) auto
    with that(2) show "Q a t" by simp
  qed
  show ?thesis unfolding ping_export_def Let_def R_def[symmetric]
    by (intro wp_bind wp_case_prod wp_case_option wp_if wp_return wp_get wp_set_generation
          wp_process_table[OF keeps_process_service_content assms(1)] wp_Delete_table[where ls = ls]
          wp_Resync_table[where ls = ?less] wp_process_table[OF keeps_process_unmount, where ls = ?less] readd)
       (auto intro: same less)
qed

lemma ping_loop_table:
  "table_is E s ls u \<Longrightarrow> set ls \<subseteq> A \<Longrightarrow> \<forall>l \<in> set xs. l \<in> A \<and> clean_entry l \<and> CHR '' '' \<in> set l \<Longrightarrow>
   wp (ping_loop E xs ready removed) (\<lambda>_ t. \<exists>ms. set ms \<subseteq> A \<and> table_is E s ms t) u"
proof (induction xs arbitrary: ls u ready removed)
  case (Cons l xs)
  have step: "wp (ping_export E l ready removed) Q u"
    if "\<And>a t ms. set ms \<subseteq> A \<Longrightarrow> table_is E s ms t \<Longrightarrow> Q a t" for Q
    by (rule wp_mono[OF ping_export_table[OF Cons.prems(1), of l]]) (use Cons.prems that in force)+
  show ?case unfolding ping_loop.simps
    by (intro wp_bind step wp_case_outcome wp_case_round wp_return)
       (use Cons.IH Cons.prems(3) in auto)
qed (auto intro!: wp_return)

lemma table_lines:
  assumes "table_is E s ls u"
  shows "\<exists>w. run_state (GetExports E d) u = ((filter (\<lambda>l. HasPrefix l d) ls, None), u\<lparr>world := w\<rparr>)"
proof -
  note u = table_isD[OF assms]
  have "raw_lines (unlines ls) = ls" using u(6) by (intro raw_lines_unlines) (auto simp: clean_entry_def)
  moreover have "map dropCR ls = ls" using u(6) by (intro map_idI) (metis clean_entry_def dropCR_TrimSpace)
  ultimately show ?thesis using GetExports_ok[OF u(3,2), of d] by simp
qed

lemma Ping_table:
  assumes "table_is E s ls u"
  shows "wp (Ping E req) (\<lambda>_ t. \<exists>ms. set ms \<subseteq> set ls \<and> (\<not> ping_DumpAllExports req \<longrightarrow> ms = ls) \<and> table_is E s ms t) u"
proof (cases "ping_DumpAllExports req")
  case True
  obtain w where get: "run_state (GetExports E (NfsExportDirectory E)) u =
      ((filter (\<lambda>l. HasPrefix l (NfsExportDirectory E)) ls, None), u\<lparr>world := w\<rparr>)"
    using table_lines[OF assms] by blast
  have "wp (ping_loop E (filter (\<lambda>l. HasPrefix l (NfsExportDirectory E)) ls) True 0)
      (\<lambda>_ t. \<exists>ms. set ms \<subseteq> set ls \<and> table_is E s ms t) (u\<lparr>world := w\<rparr>)"
    using assms table_isD(6,7)[OF assms] by (intro ping_loop_table[where ls = ls]) auto
  with True get show ?thesis by (simp add: Ping_def wp_def)
next
  case False
  with assms show ?thesis by (auto simp: Ping_def intro!: wp_return)
qed

text \<open>
  A dump leaves the exports alone whose Service is not found: the volumes that the controller has
  taken down while the node did not answer stay in the table.
\<close>

lemma dump_keeps_orphans:
  assumes "table_is E s ls u" and "ping_DumpAllExports req"
    and "\<And>n w. \<exists>m. fst (cs_GetService (clientset E) (DriverNamespace E) n w) = Inl m \<and> cs_IsNotFound (clientset E) m"
  shows "wp (Ping E req) (\<lambda>r t. r = Done (\<lparr>pingr_Ready = True, pingr_Status = []\<rparr>, None) \<and> table_is E s ls t) u"
proof -
  have get: "wp (GetServiceContent E n) Q v" if "\<And>m w. Q (None, Some m) (v\<lparr>world := w\<rparr>)" for n Q v
  proof -
    obtain m where "fst (cs_GetService (clientset E) (DriverNamespace E) n (world v)) = Inl m" "cs_IsNotFound (clientset E) m"
      using assms(3) by blast
    then show ?thesis using that
      by (simp add: GetServiceContent_def maxGetSvcAttempts_def numeral_3_eq_3 GetService_def wp_def split: prod.split)
  qed
  have round: "wp (ping_export E l a b) (\<lambda>r t. r = Done (NextExport a b) \<and> table_is E s ls t) v" if "table_is E s ls v" for l a b v
    unfolding ping_export_def Let_def by (intro wp_bind get) (use that in \<open>simp add: wp_return\<close>)
  have loop: "wp (ping_loop E xs True b) (\<lambda>r t. r = Done (\<lparr>pingr_Ready = True, pingr_Status = []\<rparr>, None) \<and> table_is E s ls t) v"
    if "table_is E s ls v" for xs b v
    using that
  proof (induction xs arbitrary: v)
    case (Cons l xs)
    show ?case unfolding ping_loop.simps
      by (intro wp_bind wp_mono[OF round[OF Cons.prems]]) (use Cons.IH in auto)
  qed (simp add: wp_return)
  obtain w where get: "run_state (GetExports E (NfsExportDirectory E)) u =
      ((filter (\<lambda>l. HasPrefix l (NfsExportDirectory E)) ls, None), u\<lparr>world := w\<rparr>)"
    using table_lines[OF assms(1)] by blast
  show ?thesis using loop[of "u\<lparr>world := w\<rparr>"] assms(1,2) get by (simp add: Ping_def wp_def)
qed

lemma keeps_locks_ping: "keeps locks (Ping E req)"
proof -
  have "keeps locks (ping_export E l a b)" for l a b
    unfolding ping_export_def ping_readd_def Let_def by (intro frame)
  then have "keeps locks (ping_loop E ls a b)" for ls a b
    by (induction ls arbitrary: a b) (auto intro!: frame split: outcome.splits ping_round.splits simp del: run_state_bind)
  then show ?thesis unfolding Ping_def Let_def by (intro frame)
qed

subsection \<open>The simulation\<close>

text \<open>The answer of an export, read off the table it leaves.\<close>

lemma export_request_refines:
  assumes sep: "separate_names E N" and mounts: "mounts_at_service_name E" and "fuel \<noteq> 0"
    and free: "nfsPVLock u = Map.empty" and tab: "table_is E s ls u" and ok: "request_ok E N s (ExportRq req)"
    and run: "run_state (ExportNfsVolume E fuel req) u = (r, t)"
  shows "nfsPVLock t = Map.empty \<and> (\<exists>ms. table_is E s ms t \<and>
    spec_step (exported_in E N) (exported_in E N ls) (event_of E (ExportRq req) (ExportAns r)) (exported_in E N ms))"
proof -
  let ?n = "volume_name E (exp_VolumeId req)"
  let ?e = "export_entry s (name_dir E ?n)"
  have n: "?n \<in> N" using ok by simp
  have "nfsPVLock t = nfsPVLock u \<and> (\<exists>l \<in> {ls, ls @ [?e]}. table_is E s l t)"
    by (rule handler_table[OF run[unfolded ExportNfsVolume_def] assms(3) _ keeps_locks_export export_never_waits
          export_volume_table[OF mounts ok] tab]) (simp add: free)
  then obtain l where l: "l \<in> {ls, ls @ [?e]}" "table_is E s l t" and lock: "nfsPVLock t = Map.empty"
    using free by auto
  have same: "export_entry u p = export_entry s p" for p
    using table_isD(4)[OF tab] by (simp add: export_entry_def)
  have "?n \<in> exported_in E N l" if "r = Done (a, None, ctx)" for a ctx
  proof -
    have "export_result E req u (Done (a, None, ctx)) t"
      using export_handler_outcome[OF run assms(3)] free by (simp add: that)
    from export_success[OF this table_isD(3)[OF tab] mounts] ok n table_isD(5)[OF l(2)] show ?thesis
      by (auto simp: same has_export_def exported_in_def name_dir_def volume_name_def)
  qed
  with l(1) exported_in_append[OF sep n, of ls s]
  have "spec_step (exported_in E N) (exported_in E N ls) (event_of E (ExportRq req) (ExportAns r)) (exported_in E N l)"
    by (auto split: outcome.splits option.splits intro!: export_failed intro: export_ok simp: insert_absorb)
       (metis export_ok insert_absorb)+
  with l lock show ?thesis by blast
qed

lemma unexport_request_refines:
  assumes sep: "separate_names E N" and "fuel \<noteq> 0"
    and free: "nfsPVLock u = Map.empty" and tab: "table_is E s ls u" and ok: "request_ok E N s (UnexportRq req)"
    and run: "run_state (UnexportNfsVolume E fuel req) u = (r, t)"
  shows "nfsPVLock t = Map.empty \<and> (\<exists>ms. table_is E s ms t \<and>
    spec_step (exported_in E N) (exported_in E N ls) (event_of E (UnexportRq req) (UnexportAns r)) (exported_in E N ms))"
proof -
  let ?n = "gm_get (unexp_UnexportNfsContext req) ''ServiceName''"
  have n: "?n \<in> N" using ok by simp
  have "nfsPVLock t = nfsPVLock u \<and> (\<exists>l \<in> {filter (\<lambda>l. \<not> HasPrefix l (name_dir E ?n)) ls}. table_is E s l t)"
  proof (rule handler_table[OF run[unfolded UnexportNfsVolume_def] assms(2) _ _ _ unexport_volume_table[OF sep ok] tab])
    show "keeps locks (do { r \<leftarrow> unexport_volume E req; State_Monad.return (Done r) })" by (intro frame)
  qed (simp_all add: free split: prod.split)
  then have t: "nfsPVLock t = Map.empty" "table_is E s (filter (\<lambda>l. \<not> HasPrefix l (name_dir E ?n)) ls) t"
    using free by simp_all
  moreover have "spec_step (exported_in E N) (exported_in E N ls) (event_of E (UnexportRq req) (UnexportAns r))
      (exported_in E N (filter (\<lambda>l. \<not> HasPrefix l (name_dir E ?n)) ls))"
    unfolding exported_in_delete[OF sep n] event_of.simps by (rule spec_step.unexport)
  ultimately show ?thesis by blast
qed

lemma serve_request_refines:
  assumes "separate_names E N" and "mounts_at_service_name E" and "fuel \<noteq> 0"
    and "nfsPVLock u = Map.empty" and "table_is E s ls u" and "request_ok E N s rq"
    and run: "run_state (serve_request E fuel rq) u = (a, t)"
  shows "nfsPVLock t = Map.empty \<and> (\<exists>ms. table_is E s ms t \<and>
    spec_step (exported_in E N) (exported_in E N ls) (event_of E rq a) (exported_in E N ms))"
proof (cases rq)
  case (ExportRq req)
  obtain r where "run_state (ExportNfsVolume E fuel req) u = (r, t)" "a = ExportAns r"
    using run ExportRq by (auto split: prod.splits)
  with export_request_refines[OF assms(1-5)] assms(6) ExportRq show ?thesis by blast
next
  case (UnexportRq req)
  obtain r where "run_state (UnexportNfsVolume E fuel req) u = (r, t)" "a = UnexportAns r"
    using run UnexportRq by (auto split: prod.splits)
  with unexport_request_refines[OF assms(1,3-5)] assms(6) UnexportRq show ?thesis by blast
next
  case (PingRq req)
  obtain r where p: "run_state (Ping E req) u = (r, t)" "a = PingAns r"
    using run PingRq by (auto split: prod.splits)
  have "locks t = locks u" using keepsD[OF keeps_locks_ping p(1)] .
  then have l: "nfsPVLock t = Map.empty" using assms(4) by (simp add: locks_def)
  from wpD[OF Ping_table[OF assms(5)] p(1)] obtain ms where
    "set ms \<subseteq> set ls" "\<not> ping_DumpAllExports req \<longrightarrow> ms = ls" "table_is E s ms t" by blast
  moreover from this have "spec_step (exported_in E N) (exported_in E N ls) (Pinging (ping_DumpAllExports req)) (exported_in E N ms)"
    using exported_in_mono[of ms ls E N] by (cases "ping_DumpAllExports req") (simp_all add: spec_step.ping spec_step.dump)
  ultimately show ?thesis using l PingRq by auto
next
  case GetExportsRq
  obtain w where "run_state (GetExports E (NfsExportDirectory E)) u =
      ((filter (\<lambda>l. HasPrefix l (NfsExportDirectory E)) ls, None), u\<lparr>world := w\<rparr>)"
    using table_lines[OF assms(5)] by blast
  then have "t = u\<lparr>world := w\<rparr>" "a = GetExportsAns (\<lparr>getr_Exports = filter (\<lambda>l. HasPrefix l (NfsExportDirectory E)) ls\<rparr>, None)"
    using run GetExportsRq by (auto simp: nfs_GetExports_def)
  moreover have "spec_step (exported_in E N) (exported_in E N ls)
      (Listing (filter (\<lambda>l. HasPrefix l (NfsExportDirectory E)) ls)) (exported_in E N ls)"
    by (rule spec_step.listing) (rule exported_in_listed)
  ultimately show ?thesis using assms(4,5) GetExportsRq by (intro conjI exI[of _ ls]) simp_all
qed

text \<open>The simulation between requests served one after the other, in the configuration of \<open>s\<close>.\<close>

definition node_inv :: "'w env \<Rightarrow> string set \<Rightarrow> nat \<Rightarrow> 'w nfs_state \<Rightarrow> 'w nfs_state \<Rightarrow> bool" where
  "node_inv E N fuel s u \<longleftrightarrow> separate_names E N \<and> mounts_at_service_name E \<and> fuel \<noteq> 0 \<and>
     nfsPVLock u = Map.empty \<and> node_table E u \<and> nfsService u = nfsService s"

interpretation node_sim: simulation "node_inv E N fuel s" "exported_names E N" "serve_request E fuel"
  "request_ok E N s" "\<lambda>_. True" "event_of E" "spec_step (exported_in E N)"
  for E :: "'w env" and N fuel s
proof
  fix u t :: "'w nfs_state" and rq a
  assume inv: "node_inv E N fuel s u" and ok: "request_ok E N s rq" and run: "run_state (serve_request E fuel rq) u = (a, t)"
  have "separate_names E N" "mounts_at_service_name E" "fuel \<noteq> 0" "nfsPVLock u = Map.empty" "table_is E s (export_entries u) u"
    using inv by (simp_all add: node_inv_def table_is_def)
  from serve_request_refines[OF this ok run] inv
  show "node_inv E N fuel s t \<and> spec_step (exported_in E N) (exported_names E N u) (event_of E rq a) (exported_names E N t)"
    by (auto simp: node_inv_def table_is_def exported_names_def)
qed

lemma serve_all_refines:
  assumes "separate_names E N" and "mounts_at_service_name E" and "fuel \<noteq> 0"
    and "nfsPVLock s = Map.empty" and "node_table E s" and "\<forall>rq \<in> set rqs. request_ok E N s rq"
    and "run_state (serve_all E fuel rqs) s = (as, t)"
  shows "runs (spec_step (exported_in E N)) (exported_names E N s) (map2 (event_of E) rqs as) (exported_names E N t) \<and>
    (length as = length rqs \<or> as \<noteq> [] \<and> panicked (last as)) \<and> node_table E t \<and> nfsPVLock t = Map.empty"
proof -
  have "node_inv E N fuel s s" using assms(1-5) by (simp add: node_inv_def)
  from node_sim.run[OF this assms(6) assms(7)[unfolded serve_all_def]] show ?thesis by (simp add: node_inv_def)
qed

subsection \<open>Every handler keeps the table well formed\<close>













section \<open>Properties\<close>


lemma sample_table: "node_table sample_env (sample_state [])"
  using exports_inv_sample_empty entries_sample_empty by (simp add: node_table_def sample_state_def unlines_def)


lemma sample_name: "volume_name sample_env ''nfs-v1'' = ''nfs-v1''" "name_dir sample_env ''nfs-v1'' = ''/e/nfs-v1''"
  using sample_staging by (simp_all add: volume_name_def name_dir_def sample_defs)

lemma sample_separate: "separate_names sample_env {''nfs-v1''}"
  by (auto simp: separate_names_def sample_defs Contains_sublist sublist_code)


text \<open>
  C7: the node server implements a set of exported names. For any sequence of requests (exports and
  unexports as the controller sends them, pings with and without a dump, listings), whichever
  mounts, API calls and commands fail, the answers and the states are a run of the specification: a
  successful export adds the name, a failed one adds it or leaves the set alone, an unexport removes
  it whatever it answers, a dump only removes names, a listing gives exactly the set. The requests
  are all answered unless a handler panics; the table stays well formed and the locks free.
\<close>

theorem node_server_refines_export_set:
  assumes "separate_names E N" and "mounts_at_service_name E" and "fuel \<noteq> 0"
    and "nfsPVLock s = Map.empty" and "node_table E s" and "\<forall>rq \<in> set rqs. request_ok E N s rq"
    and "run_state (serve_all E fuel rqs) s = (as, t)"
  shows "runs (spec_step (exported_in E N)) (exported_names E N s) (map2 (event_of E) rqs as) (exported_names E N t) \<and>
    (length as = length rqs \<or> as \<noteq> [] \<and> panicked (last as)) \<and> node_table E t \<and> nfsPVLock t = Map.empty"
  by (rule serve_all_refines[OF assms])

lemma sample_requests:
  "\<forall>rq \<in> set [ExportRq sample_export, GetExportsRq, PingRq \<lparr>ping_NodeIpAddress = [], ping_DumpAllExports = False\<rparr>].
     request_ok sample_env {''nfs-v1''} (sample_state []) rq"
  using sample_mounts(2) sample_name clean_export_entry_sample sample_staging by (simp add: sample_export_def)

theorem node_server_refines_export_set_witness:
  "\<exists>as t. run_state (serve_all sample_env 1 [ExportRq sample_export, GetExportsRq, PingRq \<lparr>ping_NodeIpAddress = [], ping_DumpAllExports = False\<rparr>])
       (sample_state []) = (as, t) \<and>
     runs (spec_step (exported_in sample_env {''nfs-v1''})) (exported_names sample_env {''nfs-v1''} (sample_state []))
       (map2 (event_of sample_env) [ExportRq sample_export, GetExportsRq, PingRq \<lparr>ping_NodeIpAddress = [], ping_DumpAllExports = False\<rparr>] as)
       (exported_names sample_env {''nfs-v1''} t)"
proof -
  obtain as t where run: "run_state (serve_all sample_env 1
      [ExportRq sample_export, GetExportsRq, PingRq \<lparr>ping_NodeIpAddress = [], ping_DumpAllExports = False\<rparr>]) (sample_state []) = (as, t)"
    by (metis surj_pair)
  have "nfsPVLock (sample_state []) = Map.empty" by (simp add: sample_state_def)
  from node_server_refines_export_set[OF sample_separate sample_mounts(1) one_neq_zero this sample_table sample_requests run]
    run show ?thesis by blast
qed







end
