(* ===== verification/Teardown.thy ===== *)
theory Teardown
  imports Cluster Node_Server
begin

text \<open>
  The end of a volume in the cluster: the last \<open>ControllerUnpublishVolume\<close> of the controller
  (\<open>src/nfs/controller.go\<close>) with the \<open>UnexportNfsVolume\<close> of the node (\<open>src/nfs/nfs_service.go\<close>) that serves
  its call, as in \<open>Cluster\<close>.
\<close>

section \<open>Definitions\<close>






section \<open>Lemmas\<close>







section \<open>Properties\<close>


section \<open>Taking down a volume of the sample cluster\<close>















end
