(* ===== verification/Controller_Spec.thy ===== *)
theory Controller_Spec
  imports Controller Simulation
begin

text \<open>
  The controller as a whole (\<open>ControllerPublishVolume\<close> and \<open>ControllerUnpublishVolume\<close> of
  \<open>src/nfs/controller.go\<close>, request after request) against the abstract specification of what it
  promises: for each published volume, under the key of its Service, the set of nodes that use it.

  The abstraction reads the set off the labels of the Service. The invariant of the simulation is that
  the store holds whole volumes only, a Service with its slice or neither. Whether nodes, exports, mounts
  and the host driver succeed is left open.
\<close>

section \<open>Definitions\<close>

datatype ctl_request =
    PublishRq request_ctx ControllerPublishVolumeRequest
  | UnpublishRq request_ctx ControllerUnpublishVolumeRequest

datatype ctl_answer = PublishAns "publish_answer outcome" | UnpublishAns "err outcome"

fun control_request :: "'w env \<Rightarrow> nat \<Rightarrow> ctl_request \<Rightarrow> ('w nfs_state, ctl_answer) state" where
  "control_request E fuel (PublishRq ctx req) =
     do { r \<leftarrow> ControllerPublishVolume E fuel ctx req; State_Monad.return (PublishAns r) }"
| "control_request E fuel (UnpublishRq ctx req) =
     do { r \<leftarrow> ControllerUnpublishVolume E fuel ctx req; State_Monad.return (UnpublishAns r) }"

text \<open>A panic of a handler ends the process.\<close>

fun ctl_panicked :: "ctl_answer \<Rightarrow> bool" where
  "ctl_panicked (PublishAns (Panicked m)) = True"
| "ctl_panicked (UnpublishAns (Panicked m)) = True"
| "ctl_panicked _ = False"

definition control_all :: "'w env \<Rightarrow> nat \<Rightarrow> ctl_request list \<Rightarrow> ('w nfs_state, ctl_answer list) state" where
  "control_all E fuel = serve_list (control_request E fuel) ctl_panicked"

fun ended :: "ctl_answer \<Rightarrow> bool" where
  "ended (PublishAns r) \<longleftrightarrow> r \<noteq> Running"
| "ended (UnpublishAns r) \<longleftrightarrow> r \<noteq> Running"

subsection \<open>The specification\<close>

type_synonym client_map = "object_key \<rightharpoonup> string set"

datatype ctl_event = Publishing object_key string bool | Unpublishing object_key string bool

text \<open>The volume without the client; a volume without clients is no longer published.\<close>

definition leave :: "client_map \<Rightarrow> object_key \<Rightarrow> string \<Rightarrow> client_map" where
  "leave A K c = (case A K of None \<Rightarrow> A
     | Some C \<Rightarrow> if C - {c} = {} then A(K := None) else A(K \<mapsto> C - {c}))"

text \<open>
  An unpublish that fails may have got no further than to the client's label, or all the way to
  the host driver, which is asked last.
\<close>

inductive ctl_step :: "client_map \<Rightarrow> ctl_event \<Rightarrow> client_map \<Rightarrow> bool" where
  publish_new: "A K = None \<Longrightarrow> ctl_step A (Publishing K c True) (A(K \<mapsto> {c}))"
| publish_more: "A K = Some C \<Longrightarrow> ctl_step A (Publishing K c True) (A(K \<mapsto> insert c C))"
| publish_failed: "ctl_step A (Publishing K c False) A"
| unpublish: "ctl_step A (Unpublishing K c True) (leave A K c)"
| unpublish_failed: "ctl_step A (Unpublishing K c False) A"
| unpublish_partly: "A K = Some C \<Longrightarrow> ctl_step A (Unpublishing K c False) (A(K \<mapsto> C - {c}))"
| unpublish_late: "A K = Some C \<Longrightarrow> C - {c} = {} \<Longrightarrow> ctl_step A (Unpublishing K c False) (leave A K c)"

subsection \<open>The abstraction\<close>

definition clients_of :: "smap \<Rightarrow> string set" where
  "clients_of labels = {n. gm_lookup labels (client_label n) \<noteq> None}"

definition client_sets :: "kube \<Rightarrow> client_map" where
  "client_sets k K = (case (k_services k K, k_slices k K) of
     (Some service, Some _) \<Rightarrow> Some (clients_of (svc_labels service)) | _ \<Rightarrow> None)"

definition whole_volumes :: "kube \<Rightarrow> bool" where
  "whole_volumes k \<longleftrightarrow> (\<forall>K. k_services k K = None \<longleftrightarrow> k_slices k K = None)"

fun ctl_event_of :: "'w env \<Rightarrow> ctl_request \<Rightarrow> ctl_answer \<Rightarrow> ctl_event" where
  "ctl_event_of E (PublishRq ctx req) a = Publishing (service_key E (pub_VolumeId req)) (pub_NodeId req)
     (case a of PublishAns r \<Rightarrow> ended_ok r | _ \<Rightarrow> False)"
| "ctl_event_of E (UnpublishRq ctx req) a = Unpublishing (service_key E (unpub_VolumeId req)) (unpub_NodeId req)
     (a = UnpublishAns (Done None))"

section \<open>Lemmas\<close>

subsection \<open>Client labels\<close>

lemma client_label_inject [simp]: "client_label n = client_label m \<longleftrightarrow> n = m"
  by (simp add: client_label_def)

lemma client_keys_empty: "client_keys labels = [] \<longleftrightarrow> clients_of labels = {}"
proof -
  have "HasPrefix k ''client/'' \<longleftrightarrow> (\<exists>n. k = client_label n)" for k
    by (auto simp: HasPrefix_prefix prefix_def client_label_def)
  then have "set (client_keys labels) = client_label ` clients_of labels"
    using gm_keys_lookup[of _ labels] by (auto simp: client_keys_def clients_of_def simp del: not_None_eq)
  then show ?thesis by (simp flip: set_empty)
qed

lemma clients_of_put: "gm_put labels (client_label n) v = Some l \<Longrightarrow> clients_of l = insert n (clients_of labels)"
  by (auto simp: clients_of_def gm_lookup_put)

lemma clients_of_delete: "clients_of (gm_delete labels (client_label n)) = clients_of labels - {n}"
  by (auto simp: clients_of_def gm_lookup_delete)

lemma clients_of_without: "clients_of (svc_labels (without_client n service)) = clients_of (svc_labels service) - {n}"
  by (simp add: without_client_def clients_of_delete)

lemma clients_of_created:
  "address_filled (make_service ns name p n ip a port) service \<Longrightarrow> clients_of (svc_labels service) = {n}"
  by (auto simp: address_filledD(3) make_service_def clients_of_def gm_lookup_def client_label_def split: if_splits)

subsection \<open>The store\<close>

lemma client_sets_service:
  assumes "k_slices k K \<noteq> None"
  shows "client_sets (k\<lparr>k_services := (k_services k)(K \<mapsto> v)\<rparr>) = (client_sets k)(K \<mapsto> clients_of (svc_labels v))"
  using assms by (auto simp: client_sets_def fun_eq_iff)

lemma whole_service:
  "whole_volumes k \<Longrightarrow> k_slices k K \<noteq> None \<Longrightarrow> whole_volumes (k\<lparr>k_services := (k_services k)(K \<mapsto> v)\<rparr>)"
  by (auto simp: whole_volumes_def)

text \<open>A store that the controller can work on.\<close>

definition store_ok :: "kube \<Rightarrow> bool" where
  "store_ok k \<longleftrightarrow> kube_wf k \<and> whole_volumes k"

lemma client_added_abs:
  assumes "client_added V K n s t" and "store_ok (V (world s))"
  shows "store_ok (V (world t)) \<and> (\<exists>C. client_sets (V (world s)) K = Some C \<and>
    client_sets (V (world t)) = (client_sets (V (world s)))(K \<mapsto> insert n C))"
proof -
  from assms(1) obtain service labels where k: "k_services (V (world s)) K = Some service" "k_slices (V (world s)) K \<noteq> None"
    and l: "if gm_get (svc_labels service) (client_label n) = []
      then gm_put (svc_labels service) (client_label n) n = Some labels else labels = svc_labels service"
    and t: "V (world t) = (V (world s))\<lparr>k_services := (k_services (V (world s)))(K \<mapsto> service\<lparr>svc_labels := labels\<rparr>)\<rparr>"
    unfolding client_added_def by (elim exE conjE)
  have "clients_of labels = insert n (clients_of (svc_labels service))"
  proof (cases "gm_get (svc_labels service) (client_label n) = []")
    case True
    with l show ?thesis by (simp add: clients_of_put)
  next
    case False
    then have "gm_lookup (svc_labels service) (client_label n) \<noteq> None" by (auto simp: gm_get_def split: option.splits)
    with False l show ?thesis by (auto simp: clients_of_def)
  qed
  moreover have "store_ok (V (world t))"
    using assms(2) k kube_wf_update(1) whole_service kube_wfD(1)[of "V (world s)" "fst K" "snd K" service]
    unfolding t by (simp add: store_ok_def)
  ultimately show ?thesis
    using k client_sets_service[OF k(2)] by (auto simp: t client_sets_def)
qed

lemma service_created_abs:
  assumes "service_created V K p n a s t" and "store_ok (V (world s))"
  shows "store_ok (V (world t)) \<and> client_sets (V (world s)) K = None \<and>
    client_sets (V (world t)) = (client_sets (V (world s)))(K \<mapsto> {n})"
proof -
  let ?port = "server_port (nfsServerPort (nfsService s))"
  obtain ip where made: "objects_created V K p n ip a s t"
    using assms(1) unfolding service_created_def by blast
  then obtain service where none: "k_services (V (world s)) K = None"
    and v: "address_filled (make_service (fst K) (snd K) p n ip a ?port) service"
    and t: "V (world t) = (V (world s))\<lparr>k_slices := (k_slices (V (world s)))(K \<mapsto> make_slice (fst K) (snd K) p n ip a ?port),
      k_services := (k_services (V (world s)))(K \<mapsto> service)\<rparr>"
    unfolding objects_created_def Let_def by (elim exE conjE)
  have "kube_wf (V (world t))" using objects_created_wf[OF made] assms(2) by (simp add: store_ok_def)
  then have "store_ok (V (world t))" using assms(2) by (simp add: store_ok_def whole_volumes_def t)
  then show ?thesis using none clients_of_created[OF v] by (simp add: client_sets_def t fun_eq_iff)
qed

lemma label_removed_abs:
  assumes "label_removed V K n others s t" and "store_ok (V (world s))"
  shows "store_ok (V (world t)) \<and> (\<exists>C. client_sets (V (world s)) K = Some C \<and> (others \<longrightarrow> C - {n} \<noteq> {}) \<and>
    client_sets (V (world t)) = (client_sets (V (world s)))(K \<mapsto> C - {n}))"
proof -
  from assms(1) obtain service where k: "k_services (V (world s)) K = Some service" "k_slices (V (world s)) K \<noteq> None"
    and others: "others \<longrightarrow> client_keys (svc_labels (without_client n service)) \<noteq> []"
    and t: "V (world t) = (V (world s))\<lparr>k_services := (k_services (V (world s)))(K \<mapsto> without_client n service)\<rparr>"
    unfolding label_removed_def by (elim exE conjE)
  have "svc_namespace (without_client n service) = fst K" "svc_name (without_client n service) = snd K"
    using k(1) assms(2) kube_wfD(1)[of "V (world s)" "fst K" "snd K" service] by (simp_all add: store_ok_def without_client_def)
  then have "store_ok (V (world t))"
    using assms(2) k kube_wf_update(1) whole_service unfolding t by (simp add: store_ok_def)
  moreover have "client_sets (V (world s)) K = Some (clients_of (svc_labels service))" using k by (auto simp: client_sets_def)
  ultimately show ?thesis
    using others client_sets_service[OF k(2)] by (simp add: t client_keys_empty clients_of_without)
qed

lemma volume_removed_abs:
  assumes "volume_removed E V K a n e s t" and "store_ok (V (world s))"
  shows "store_ok (V (world t)) \<and> (\<exists>C. client_sets (V (world s)) K = Some C \<and> C - {n} = {} \<and>
    client_sets (V (world t)) = (client_sets (V (world s)))(K := None))"
proof -
  from assms(1) obtain service es where k: "k_services (V (world s)) K = Some service" "k_slices (V (world s)) K = Some es"
    and none: "client_keys (svc_labels (without_client n service)) = []"
    and t: "V (world t) = (V (world s))\<lparr>k_slices := (k_slices (V (world s)))(K := None),
      k_services := (k_services (V (world s)))(K := None)\<rparr>"
    unfolding volume_removed_def by (elim exE conjE)
  have "store_ok (V (world t))"
    using assms(2) by (simp add: t store_ok_def kube_wf_def whole_volumes_def)
  then show ?thesis
    using k none by (simp add: client_keys_empty clients_of_without client_sets_def t fun_eq_iff)
qed

subsection \<open>The simulation\<close>

lemma publish_refines:
  assumes "kube_laws E V" and "outside_quiet E V" and "store_ok (V (world s))"
    and run: "run_state (ControllerPublishVolume E fuel ctx req) s = (r, t)" and "r \<noteq> Running"
  shows "store_ok (V (world t)) \<and> process t = process s \<and>
    ctl_step (client_sets (V (world s))) (ctl_event_of E (PublishRq ctx req) (PublishAns r)) (client_sets (V (world t)))"
proof -
  let ?K = "service_key E (pub_VolumeId req)"
  have wf: "kube_wf (V (world s))" "whole_volumes (V (world s))" using assms(3) by (simp_all add: store_ok_def)
  note out = publish_outcome[OF assms(1,2) wf(1) run assms(5)]
  show ?thesis
  proof (cases "ended_ok r")
    case True
    with out have "client_added V ?K (pub_NodeId req) s t \<or>
        service_created V ?K (gm_get (pub_VolumeContext req) ''Name'') (pub_NodeId req) (ToArrayVolumeID (pub_VolumeId req)) s t"
      by (simp add: publish_result_def Let_def)
    then show ?thesis
    proof
      assume "client_added V ?K (pub_NodeId req) s t"
      from client_added_abs[OF this assms(3)] out True show ?thesis by (auto intro: publish_more)
    next
      assume "service_created V ?K (gm_get (pub_VolumeContext req) ''Name'') (pub_NodeId req) (ToArrayVolumeID (pub_VolumeId req)) s t"
      from service_created_abs[OF this assms(3)] out True show ?thesis by (auto intro: publish_new)
    qed
  next
    case False
    with out have "V (world t) = V (world s) \<or> k_services (V (world s)) ?K \<noteq> None \<and> k_slices (V (world s)) ?K = None"
      by (simp add: publish_result_def Let_def)
    with wf(2)[unfolded whole_volumes_def, rule_format, of ?K] have "V (world t) = V (world s)" by argo
    with out False assms(3) show ?thesis by (simp add: publish_failed)
  qed
qed

lemma unpublish_refines:
  assumes "kube_laws E V" and "outside_quiet E V" and "store_ok (V (world s))"
    and run: "run_state (ControllerUnpublishVolume E fuel ctx req) s = (r, t)" and "r \<noteq> Running"
  shows "store_ok (V (world t)) \<and> process t = process s \<and>
    ctl_step (client_sets (V (world s))) (ctl_event_of E (UnpublishRq ctx req) (UnpublishAns r)) (client_sets (V (world t)))"
proof -
  let ?K = "service_key E (unpub_VolumeId req)" and ?n = "unpub_NodeId req"
  let ?A = "client_sets (V (world s))" and ?B = "client_sets (V (world t))"
  have wf: "kube_wf (V (world s))" using assms(3) by (simp add: store_ok_def)
  have p: "process t = process s" and out: "unpublish_result E V req s r t"
    using unpublish_outcome[OF assms(1,2) wf run assms(5)] by blast+
  let ?ev = "Unpublishing ?K ?n (r = Done None)"
  have "store_ok (V (world t)) \<and> ctl_step ?A ?ev ?B"
  proof -
    from out consider (absent) "missing (V (world s)) ?K" "r = Done None" "V (world t) = V (world s)"
      | (label) "r = Done None" "label_removed V ?K ?n True s t"
      | (partly) "r \<noteq> Done None" "label_removed V ?K ?n False s t"
      | (gone) e where "volume_removed E V ?K (ToArrayVolumeID (unpub_VolumeId req)) ?n e s t"
      | (same) "r \<noteq> Done None" "V (world t) = V (world s)"
      unfolding unpublish_result_def Let_def by (auto split: if_splits)
    then show ?thesis
    proof cases
      case absent
      then have "?A ?K = None" by (auto simp: missing_def client_sets_def split: option.splits)
      then have "leave ?A ?K ?n = ?A" by (simp add: leave_def)
      with absent assms(3) show ?thesis by (simp, metis unpublish)
    next
      case label
      from label_removed_abs[OF label(2) assms(3)] obtain C where
        "store_ok (V (world t))" "?A ?K = Some C" "C - {?n} \<noteq> {}" "?B = ?A(?K \<mapsto> C - {?n})" by auto
      then have "store_ok (V (world t))" "?B = leave ?A ?K ?n" by (simp_all add: leave_def)
      with label(1) unpublish[of ?A ?K ?n] show ?thesis by simp
    next
      case partly
      from label_removed_abs[OF partly(2) assms(3)] partly(1) show ?thesis by (auto intro: unpublish_partly)
    next
      case gone
      from volume_removed_abs[OF gone assms(3)] obtain C where
        C: "store_ok (V (world t))" "?A ?K = Some C" "C - {?n} = {}" "?B = ?A(?K := None)" by blast
      then have "?B = leave ?A ?K ?n" by (simp add: leave_def)
      with C unpublish[of ?A ?K ?n] unpublish_late[of ?A ?K C ?n] show ?thesis by (cases "r = Done None") simp_all
    next
      case same
      with assms(3) show ?thesis by (simp add: unpublish_failed)
    qed
  qed
  with p show ?thesis by simp
qed

definition ctl_inv :: "'w env \<Rightarrow> ('w \<Rightarrow> kube) \<Rightarrow> 'w nfs_state \<Rightarrow> 'w nfs_state \<Rightarrow> bool" where
  "ctl_inv E V s u \<longleftrightarrow> kube_laws E V \<and> outside_quiet E V \<and> store_ok (V (world u)) \<and> process u = process s"

interpretation ctl_sim: simulation "ctl_inv E V s" "\<lambda>u. client_sets (V (world u))" "control_request E fuel"
  "\<lambda>_. True" ended "ctl_event_of E" ctl_step
  for E :: "'w env" and V s fuel
proof
  fix u t :: "'w nfs_state" and rq a
  assume inv: "ctl_inv E V s u" and run: "run_state (control_request E fuel rq) u = (a, t)" and "ended a"
  have laws: "kube_laws E V" "outside_quiet E V" "store_ok (V (world u))" using inv by (simp_all add: ctl_inv_def)
  have "store_ok (V (world t)) \<and> process t = process u \<and>
      ctl_step (client_sets (V (world u))) (ctl_event_of E rq a) (client_sets (V (world t)))"
  proof (cases rq)
    case (PublishRq ctx req)
    with run obtain r where "run_state (ControllerPublishVolume E fuel ctx req) u = (r, t)" "a = PublishAns r"
      by (auto split: prod.splits)
    with publish_refines[OF laws] \<open>ended a\<close> PublishRq show ?thesis by simp
  next
    case (UnpublishRq ctx req)
    with run obtain r where "run_state (ControllerUnpublishVolume E fuel ctx req) u = (r, t)" "a = UnpublishAns r"
      by (auto split: prod.splits)
    with unpublish_refines[OF laws] \<open>ended a\<close> UnpublishRq show ?thesis by simp
  qed
  with inv show "ctl_inv E V s t \<and> ctl_step (client_sets (V (world u))) (ctl_event_of E rq a) (client_sets (V (world t)))"
    by (simp add: ctl_inv_def)
qed

lemma control_all_refines:
  assumes "kube_laws E V" and "outside_quiet E V" and "store_ok (V (world s))"
    and "run_state (control_all E fuel rqs) s = (as, t)" and "\<forall>a \<in> set as. ended a"
  shows "runs ctl_step (client_sets (V (world s))) (map2 (ctl_event_of E) rqs as) (client_sets (V (world t))) \<and>
    store_ok (V (world t)) \<and> (length as = length rqs \<or> as \<noteq> [] \<and> ctl_panicked (last as)) \<and> process t = process s"
proof -
  have "ctl_inv E V s s" using assms(1-3) by (simp add: ctl_inv_def)
  from ctl_sim.run[OF this _ assms(4)[unfolded control_all_def] assms(5)] show ?thesis by (simp add: ctl_inv_def)
qed

text \<open>A client stays a client until it is unpublished itself.\<close>

lemma ctl_step_keeps:
  "ctl_step A e B \<Longrightarrow> \<forall>ok. e \<noteq> Unpublishing K n ok \<Longrightarrow> \<exists>C. A K = Some C \<and> n \<in> C \<Longrightarrow> \<exists>D. B K = Some D \<and> n \<in> D"
  by (induction rule: ctl_step.induct) (auto simp: leave_def split: option.split)

lemma event_unpublishes:
  assumes "Unpublishing K n ok \<in> set (map2 (ctl_event_of E) rqs as)"
  shows "\<exists>ctx req. UnpublishRq ctx req \<in> set rqs \<and> service_key E (unpub_VolumeId req) = K \<and> unpub_NodeId req = n"
proof -
  obtain rq a where rq: "(rq, a) \<in> set (zip rqs as)" "ctl_event_of E rq a = Unpublishing K n ok" using assms by auto
  from rq(2) obtain ctx req where "rq = UnpublishRq ctx req" "service_key E (unpub_VolumeId req) = K" "unpub_NodeId req = n"
    by (cases rq) auto
  with set_zip_leftD[OF rq(1)] show ?thesis by blast
qed

lemma sample_store: "store_ok (sample_view (world sample_controller))"
  using sample_wf by (simp add: store_ok_def whole_volumes_def sample_view_def sample_fields)

lemma sample_published:
  obtains t where "run_state (ControllerPublishVolume sample_env 1 sample_ctx sample_publish) sample_controller =
     (Done sample_publish_answer, t)" and "store_ok (sample_view (world t))" and "PVLock t = Map.empty"
    and "client_sets (sample_view (world t)) (''ns'', ''nfs-v1'') = Some {''n1''}"
proof -
  obtain t where t: "run_state (ControllerPublishVolume sample_env 1 sample_ctx sample_publish) sample_controller =
     (Done sample_publish_answer, t)" "PVLock t = Map.empty"
    "service_created sample_view (''ns'', ''nfs-v1'') ''pv1'' ''n1'' (ToArrayVolumeID ''nfs-v1'') sample_controller t"
    by (rule sample_publish_state)
  with service_created_abs[OF t(3) sample_store] that show ?thesis by simp
qed

section \<open>Properties\<close>

text \<open>
  C4: the controller implements a map from volumes to the nodes that use them. For any sequence of
  publish and unpublish requests that end, on an API server that stores what it is given, the answers and
  the stores are a run of the specification: a successful publish makes the node a client of the
  volume, a failed one changes nothing; a successful unpublish takes the client away, and the
  volume with its last client; a failed one may do so or stop before. The store keeps whole volumes
  only, and the controller's own variables do not change.
\<close>

theorem controller_refines_client_map:
  assumes "kube_laws E V" and "outside_quiet E V" and "store_ok (V (world s))"
    and "run_state (control_all E fuel rqs) s = (as, t)" and "\<forall>a \<in> set as. ended a"
  shows "runs ctl_step (client_sets (V (world s))) (map2 (ctl_event_of E) rqs as) (client_sets (V (world t))) \<and>
    store_ok (V (world t)) \<and> (length as = length rqs \<or> as \<noteq> [] \<and> ctl_panicked (last as)) \<and> process t = process s"
  by (rule control_all_refines[OF assms])

theorem controller_refines_client_map_witness:
  "\<exists>r t. run_state (control_all sample_env 1 [PublishRq sample_ctx sample_publish, UnpublishRq sample_ctx sample_unpublish])
       sample_controller = ([PublishAns (Done sample_publish_answer), UnpublishAns r], t) \<and>
     runs ctl_step (client_sets (sample_view (world sample_controller)))
       [Publishing (''ns'', ''nfs-v1'') ''n1'' True, Unpublishing (''ns'', ''nfs-v1'') ''n1'' (r = Done None)]
       (client_sets (sample_view (world t)))"
proof -
  obtain u where u: "run_state (ControllerPublishVolume sample_env 1 sample_ctx sample_publish) sample_controller =
     (Done sample_publish_answer, u)" "PVLock u = Map.empty"
    by (rule sample_published) blast
  obtain r t where v: "run_state (ControllerUnpublishVolume sample_env 1 sample_ctx sample_unpublish) u = (r, t)" by fastforce
  have r: "r \<noteq> Running" using unpublish_ends[of u sample_unpublish sample_env 0 sample_ctx] v u(2) by simp
  have run: "run_state (control_all sample_env 1 [PublishRq sample_ctx sample_publish, UnpublishRq sample_ctx sample_unpublish])
       sample_controller = ([PublishAns (Done sample_publish_answer), UnpublishAns r], t)"
    using u(1) v r by (cases r) (simp_all add: control_all_def sample_publish_answer_def)
  have keys: "service_key sample_env (pub_VolumeId sample_publish) = (''ns'', ''nfs-v1'')"
    "service_key sample_env (unpub_VolumeId sample_unpublish) = (''ns'', ''nfs-v1'')"
    "pub_NodeId sample_publish = ''n1''" "unpub_NodeId sample_unpublish = ''n1''" "ended_ok (Done sample_publish_answer)"
    by (simp_all add: sample_service_name sample_fields sample_unpublish_def sample_publish_def sample_publish_answer_def)
  from controller_refines_client_map[OF sample_kube sample_store run] r run keys show ?thesis by auto
qed

text \<open>
  C10: nobody loses a volume to another node. A node that a volume is published to keeps its place, and
  the volume its Service and its slice, through any sequence of publish and unpublish requests,
  successful or failed, as long as none of them unpublishes the volume from that node.
\<close>

theorem client_keeps_its_volume:
  assumes "kube_laws E V" and "outside_quiet E V" and "store_ok (V (world s))"
    and "run_state (control_all E fuel rqs) s = (as, t)" and "\<forall>a \<in> set as. ended a"
    and "client_sets (V (world s)) K = Some C" and "n \<in> C"
    and "\<forall>ctx req. UnpublishRq ctx req \<in> set rqs \<longrightarrow> service_key E (unpub_VolumeId req) \<noteq> K \<or> unpub_NodeId req \<noteq> n"
  shows "\<exists>service. k_services (V (world t)) K = Some service \<and> k_slices (V (world t)) K \<noteq> None \<and>
    gm_lookup (svc_labels service) (client_label n) \<noteq> None"
proof -
  have others: "\<forall>e \<in> set (map2 (ctl_event_of E) rqs as). \<forall>ok. e \<noteq> Unpublishing K n ok"
    using event_unpublishes[of K n _ E rqs as] assms(8) by blast
  have run: "runs ctl_step (client_sets (V (world s))) (map2 (ctl_event_of E) rqs as) (client_sets (V (world t)))"
    using control_all_refines[OF assms(1-5)] by blast
  have "\<exists>D. client_sets (V (world t)) K = Some D \<and> n \<in> D"
    by (rule runs_keep[OF run _ others, where P = "\<lambda>A. \<exists>C. A K = Some C \<and> n \<in> C"])
       (use assms(6,7) ctl_step_keeps in blast)+
  then show ?thesis by (auto simp: client_sets_def clients_of_def split: option.splits)
qed

theorem client_keeps_its_volume_witness:
  "\<exists>s as t service. run_state (control_all sample_env 1
       [UnpublishRq sample_ctx \<lparr>unpub_VolumeId = ''nfs-v1'', unpub_NodeId = ''n2''\<rparr>]) s = (as, t) \<and>
     k_services (sample_view (world t)) (''ns'', ''nfs-v1'') = Some service \<and>
     gm_lookup (svc_labels service) (client_label ''n1'') \<noteq> None"
proof -
  let ?req = "\<lparr>unpub_VolumeId = ''nfs-v1'', unpub_NodeId = ''n2''\<rparr>"
  obtain u :: "sample_world nfs_state" where u: "store_ok (sample_view (world u))" "PVLock u = Map.empty"
    "client_sets (sample_view (world u)) (''ns'', ''nfs-v1'') = Some {''n1''}"
    by (rule sample_published)
  obtain r t where v: "run_state (ControllerUnpublishVolume sample_env 1 sample_ctx ?req) u = (r, t)" by fastforce
  have r: "r \<noteq> Running" using unpublish_ends[of u ?req sample_env 0 sample_ctx] v u(2) by simp
  have run: "run_state (control_all sample_env 1 [UnpublishRq sample_ctx ?req]) u = ([UnpublishAns r], t)"
    using v by (cases r) (simp_all add: control_all_def)
  have "\<exists>service. k_services (sample_view (world t)) (''ns'', ''nfs-v1'') = Some service \<and>
      k_slices (sample_view (world t)) (''ns'', ''nfs-v1'') \<noteq> None \<and> gm_lookup (svc_labels service) (client_label ''n1'') \<noteq> None"
    by (rule client_keeps_its_volume[OF sample_kube u(1) run _ u(3)]) (simp_all add: r)
  with run show ?thesis by blast
qed

end
