(* ===== verification/Exports_Sync.thy ===== *)
theory Exports_Sync
  imports Nfs_Service
begin

text \<open>
  The generation protocol between the export file and the kernel's table
  (\<open>src/nfs/exports.go\<close> and the tails of the handlers of \<open>src/nfs/nfs_service.go\<close>): a change of
  the file moves \<open>generation\<close> on, and \<open>ResyncNFSMountd\<close> runs \<open>exportfs -r\<close> only when its argument
  is newer than \<open>syncedGeneration\<close>.

  A node is the state of the process with a ghost: the content of the file when \<open>exportfs -r\<close>
  last succeeded, which is what the kernel exports. First the handlers one after the other, then
  their interleaving: \<open>exportsLock\<close> is held inside each call, and the assignment
  \<open>generation, err = AddExport(...)\<close> of \<open>ExportNfsVolume\<close> happens outside it.
\<close>

section \<open>Definitions\<close>

record 'w node =
  proc :: "'w nfs_state"
  kernel :: "string option"

text \<open>\<open>ResyncNFSMountd\<close> with what it does to the kernel's table.\<close>

definition resync_node :: "'w env \<Rightarrow> 64 word \<Rightarrow> 'w node \<Rightarrow> err \<times> 'w node" where
  "resync_node E g n = (case run_state (ResyncNFSMountd E g) (proc n) of (e, t) \<Rightarrow>
     (e, \<lparr>proc = t, kernel = (if e = None \<and> \<not> g \<le>s syncedGeneration (proc n)
                            then exports_file (proc n) else kernel n)\<rparr>))"




subsection \<open>Interleaved requests\<close>

text \<open>Where a request of \<open>ExportNfsVolume\<close> stands in its tail.\<close>

datatype export_pc = Adding string string | Assigning "64 word" err | Syncing | Returned err

record 'w sync_sys =
  the_node :: "'w node"
  pcs :: "nat \<Rightarrow> export_pc"

definition sync_start :: "'w sync_sys \<Rightarrow> bool" where
  "sync_start s \<longleftrightarrow> generation (proc (the_node s)) = syncedGeneration (proc (the_node s)) \<and>
     kernel (the_node s) = exports_file (proc (the_node s)) \<and>
     (\<forall>i. \<exists>d opts. pcs s i = Adding d opts)"

inductive sync_step :: "'w env \<Rightarrow> 'w sync_sys \<Rightarrow> 'w sync_sys \<Rightarrow> bool" for E :: "'w env" where
  add: "pcs s i = Adding d opts \<Longrightarrow> run_state (AddExport E d opts) (proc (the_node s)) = ((g, e), t) \<Longrightarrow>
    sync_step E s (s\<lparr>the_node := (the_node s)\<lparr>proc := t\<rparr>, pcs := (pcs s)(i := Assigning g e)\<rparr>)"
| assign: "pcs s i = Assigning g e \<Longrightarrow> run_state (set_generation g) (proc (the_node s)) = ((), t) \<Longrightarrow>
    sync_step E s (s\<lparr>the_node := (the_node s)\<lparr>proc := t\<rparr>,
      pcs := (pcs s)(i := if e = None then Syncing else Returned e)\<rparr>)"
| sync: "pcs s i = Syncing \<Longrightarrow> resync_node E (generation (proc (the_node s))) (the_node s) = (e, n) \<Longrightarrow>
    sync_step E s (s\<lparr>the_node := n, pcs := (pcs s)(i := Returned e)\<rparr>)"

section \<open>Lemmas\<close>










section \<open>Properties\<close>



text \<open>A process in which the table holds some entries, as \<open>AddExport\<close> finds it.\<close>

lemma sample_add:
  assumes "exports_inv sample_env s" and "\<not> has_export s d" and "clean_entry (d @ '' '' @ ''x'')"
  obtains t c where "run_state (AddExport sample_env d ''x'') s = ((generation s + 1, None), t)"
    and "exports_inv sample_env t" and "export_entries t = export_entries s @ [d @ '' x'']"
    and "generation t = generation s + 1" and "syncedGeneration t = syncedGeneration s"
    and "exports_file s = Some c" and "exports_file t = Some (c @ d @ '' x'' @ [newline])"
proof -
  obtain t where t: "run_state (AddExport sample_env d ''x'') s = ((generation s + 1, None), t)"
    "exports_inv sample_env t" "export_entries t = export_entries s @ [d @ '' '' @ ''x'']"
    "generation t = generation s + 1" "syncedGeneration t = syncedGeneration s"
    using AddExport_ok[OF assms] by blast
  with AddExport_effect[OF t(1)] that show ?thesis by auto
qed

lemma sample_clean: "clean_entry ''/e/a/ x''" "clean_entry ''/e/b/ x''" "clean_entry ''/e/c/ x''"
proof -
  have "TrimSpace ''/e/a/ x'' = ''/e/a/ x''" "TrimSpace ''/e/b/ x'' = ''/e/b/ x''" "TrimSpace ''/e/c/ x'' = ''/e/c/ x''"
    by (rule TrimSpace_eval; simp add: space_seqs_def HasPrefix_def)+
  then show "clean_entry ''/e/a/ x''" "clean_entry ''/e/b/ x''" "clean_entry ''/e/c/ x''"
    by (simp_all add: clean_entry_def MaxScanTokenSize_def)
qed

lemma sample_resync:
  "resync_node sample_env g n = (if g \<le>s syncedGeneration (proc n)
     then (None, n\<lparr>proc := (proc n)\<lparr>savedUpdates := savedUpdates (proc n) + 1\<rparr>\<rparr>)
     else (None, n\<lparr>proc := (proc n)\<lparr>world := note_call ''chroot'' (world (proc n)), syncedGeneration := g\<rparr>,
                   kernel := exports_file (proc n)\<rparr>))"
  by (simp add: resync_node_def ResyncNFSMountd_def numeral_2_eq_2 sample_env_def sample_exec_def)

interpretation sync_machine: transition_system sync_start "sync_step E" for E :: "'w env" .

text \<open>The steps as moves between nodes in the sample environment.\<close>

lemma sample_steps:
  fixes N :: "sample_world node" and P :: "nat \<Rightarrow> export_pc"
  assumes "sync_machine.reachable sample_env \<lparr>the_node = N, pcs = P\<rparr>"
  shows "P i = Adding d opts \<Longrightarrow> run_state (AddExport sample_env d opts) (proc N) = ((g, e), t) \<Longrightarrow>
      sync_machine.reachable sample_env \<lparr>the_node = N\<lparr>proc := t\<rparr>, pcs = P(i := Assigning g e)\<rparr>"
    and "P i = Assigning g None \<Longrightarrow>
      sync_machine.reachable sample_env \<lparr>the_node = N\<lparr>proc := (proc N)\<lparr>generation := g\<rparr>\<rparr>, pcs = P(i := Syncing)\<rparr>"
    and "P i = Syncing \<Longrightarrow> sync_machine.reachable sample_env
      \<lparr>the_node = snd (resync_node sample_env (generation (proc N)) N),
       pcs = P(i := Returned (fst (resync_node sample_env (generation (proc N)) N)))\<rparr>"
  using sync_machine.reachable_step[OF assms sync_step.add, of i d opts g e t]
    sync_machine.reachable_step[OF assms sync_step.assign, of i g None "(proc N)\<lparr>generation := g\<rparr>"]
    sync_machine.reachable_step[OF assms sync_step.sync, of i]
  by (simp_all add: set_generation_def prod_eq_iff)

lemma table_facts_counters [simp]:
  "exports_inv E (s\<lparr>generation := g\<rparr>) = exports_inv E s" "exports_inv E (s\<lparr>syncedGeneration := g\<rparr>) = exports_inv E s"
  "exports_inv E (s\<lparr>savedUpdates := g\<rparr>) = exports_inv E s"
  "export_entries (s\<lparr>generation := g\<rparr>) = export_entries s" "export_entries (s\<lparr>syncedGeneration := g\<rparr>) = export_entries s"
  "export_entries (s\<lparr>savedUpdates := g\<rparr>) = export_entries s"
  by (simp_all add: exports_inv_def export_entries_def)

lemma sample_counters: "generation (sample_state []) = 0" "syncedGeneration (sample_state []) = 0"
  by (simp_all add: sample_state_def)

text \<open>
  Request 0 adds its entry and stops before its assignment; request 1 adds, assigns and
  resynchronises; then request 0 rolls the generation back.
\<close>

lemma sample_rollback:
  obtains t P where "sync_machine.reachable sample_env \<lparr>the_node = \<lparr>proc = t, kernel = exports_file t\<rparr>, pcs = P\<rparr>"
    and "P 2 = Adding ''/e/c/'' ''x''" and "generation t = 1" and "syncedGeneration t = 2"
    and "exports_inv sample_env t" and "export_entries t = [''/e/a/ x'', ''/e/b/ x'']"
proof -
  let ?reach = "\<lambda>t k P. sync_machine.reachable sample_env \<lparr>the_node = \<lparr>proc = t, kernel = k\<rparr>, pcs = P\<rparr>"
  define P0 where "P0 = (\<lambda>i :: nat. Adding (if i = 0 then ''/e/a/'' else if i = 1 then ''/e/b/'' else ''/e/c/'') ''x'')"
  have r0: "?reach (sample_state []) (Some []) P0"
    by (rule sync_machine.reachable_start) (simp add: sync_start_def P0_def sample_state_def)
  have cmp: "\<not> (2 :: 64 word) \<le>s 0" "(1 :: 64 word) \<le>s 2" by (simp_all add: word_sle_eq)
  obtain t1 where t1: "run_state (AddExport sample_env ''/e/a/'' ''x'') (sample_state []) = ((1, None), t1)"
    "exports_inv sample_env t1" "export_entries t1 = [''/e/a/ x'']" "generation t1 = 1" "syncedGeneration t1 = 0"
    by (rule sample_add[of "sample_state []" "''/e/a/''"])
       (simp_all add: exports_inv_sample_empty has_export_def entries_sample_empty sample_clean sample_counters)
  obtain t2 where t2: "run_state (AddExport sample_env ''/e/b/'' ''x'') t1 = ((2, None), t2)"
    "exports_inv sample_env t2" "export_entries t2 = [''/e/a/ x'', ''/e/b/ x'']" "generation t2 = 2" "syncedGeneration t2 = 0"
    by (rule sample_add[of t1 "''/e/b/''"])
       (simp_all add: t1 has_export_def HasPrefix_def sample_clean)
  have g2: "t2\<lparr>generation := 2\<rparr> = t2" using t2(4) by simp
  define t3 where "t3 = t2\<lparr>world := note_call ''chroot'' (world t2), syncedGeneration := 2\<rparr>"
  define P1 where "P1 = P0(0 := Assigning 1 None)"
  have r1: "?reach t1 (Some []) P1"
    using sample_steps(1)[OF r0, of 0] t1(1) by (simp add: P0_def P1_def)
  define P2 where "P2 = P1(1 := Assigning 2 None)"
  have r2: "?reach t2 (Some []) P2"
    using sample_steps(1)[OF r1, of 1] t2(1) by (simp add: P0_def P1_def P2_def)
  have r3: "?reach t2 (Some []) (P2(1 := Syncing))"
    using sample_steps(2)[OF r2, of 1 2] by (simp add: P2_def g2)
  define P4 where "P4 = P2(1 := Returned None)"
  have r4: "?reach t3 (exports_file t2) P4"
    using sample_steps(3)[OF r3, of 1] t2 cmp by (simp add: sample_resync P4_def t3_def)
  have r5: "?reach (t3\<lparr>generation := 1\<rparr>) (exports_file t2) (P4(0 := Syncing))"
    using sample_steps(2)[OF r4, of 0 1] by (simp add: P4_def P2_def P1_def)
  show ?thesis
  proof (rule that)
    show "?reach (t3\<lparr>generation := 1, savedUpdates := savedUpdates t3 + 1\<rparr>)
        (exports_file (t3\<lparr>generation := 1, savedUpdates := savedUpdates t3 + 1\<rparr>)) (P4(0 := Returned None))"
      using sample_steps(3)[OF r5, of 0] cmp by (simp add: sample_resync t3_def)
  qed (simp_all add: P4_def P2_def P1_def P0_def t3_def t2)
qed

text \<open>
  C33: interleaved handlers can lose an export. A request that has added its entry and not yet
  assigned the global variable \<open>generation\<close> rolls it back when another request has moved it on in
  between. The next change then gets a generation that is already synced: its resynchronisation
  is skipped and its request succeeds while the kernel does not export the volume.
\<close>

theorem interleaved_exports_can_miss_the_kernel:
  "\<exists>s. sync_machine.reachable sample_env s \<and> pcs s 2 = Returned None \<and>
     (\<exists>c l. kernel (the_node s) = Some c \<and> exports_file (proc (the_node s)) = Some (c @ l @ [newline]) \<and>
        HasPrefix l ''/e/c/'')"
proof -
  let ?reach = "\<lambda>t k P. sync_machine.reachable sample_env \<lparr>the_node = \<lparr>proc = t, kernel = k\<rparr>, pcs = P\<rparr>"
  obtain t P where t: "?reach t (exports_file t) P" "P 2 = Adding ''/e/c/'' ''x''" "generation t = 1"
    "syncedGeneration t = 2" "exports_inv sample_env t" "export_entries t = [''/e/a/ x'', ''/e/b/ x'']"
    by (rule sample_rollback)
  obtain u c where u: "run_state (AddExport sample_env ''/e/c/'' ''x'') t = ((2, None), u)"
    "generation u = 2" "syncedGeneration u = 2" "exports_file t = Some c" "exports_file u = Some (c @ ''/e/c/ x'' @ [newline])"
    by (rule sample_add[of t "''/e/c/''"]) (simp_all add: t has_export_def HasPrefix_def sample_clean)
  have same: "u\<lparr>generation := 2\<rparr> = u" using u(2) by simp
  have added: "?reach u (exports_file t) (P(2 := Assigning 2 None))"
    using sample_steps(1)[OF t(1), of 2] u(1) t(2) by simp
  have assigned: "?reach u (exports_file t) (P(2 := Syncing))"
    using sample_steps(2)[OF added, of 2 2] by (simp add: same)
  have "?reach (u\<lparr>savedUpdates := savedUpdates u + 1\<rparr>) (exports_file t) (P(2 := Returned None))"
    using sample_steps(3)[OF assigned, of 2] u by (simp add: sample_resync word_sle_eq)
  with u(4,5) show ?thesis
    by (intro exI[of _ "\<lparr>the_node = \<lparr>proc = u\<lparr>savedUpdates := savedUpdates u + 1\<rparr>, kernel = exports_file t\<rparr>,
        pcs = P(2 := Returned None)\<rparr>"] conjI) (auto simp: HasPrefix_def intro!: exI[of _ c])
qed

end
