(* ===== verification/Os_Impl.thy ===== *)
theory Os_Impl
  imports Exports
begin

text \<open>
  The implementations behind the interfaces \<open>OSInterface\<close>, \<open>Executor\<close> and \<open>Unmounter\<close>
  (\<open>src/nfs/csinfs.go\<close>, \<open>src/nfs/executor.go\<close>, \<open>src/nfs/unmount.go\<close>): what each method makes of a call
  before it reaches the operating system. The functions of the packages \<open>os\<close>, \<open>os/exec\<close> and \<open>syscall\<close>
  that end in a system call are the arguments; a command that runs gives the chunks it wrote to its
  two streams, in their order.

  The theory shows that \<open>OSImpl\<close> cleans the paths it opens without changing the path of the
  export file, and how the outputs of the three ways to run a command are related.
\<close>

section \<open>Definitions\<close>

datatype stream = Stdout | Stderr

type_synonym chunks = "(stream \<times> string) list"

record 'w stdlib =
  lib_Getenv :: "'w \<Rightarrow> string \<Rightarrow> string"
  lib_Stat :: "string \<Rightarrow> 'w \<Rightarrow> err \<times> 'w"
  lib_MkdirAll :: "string \<Rightarrow> nat \<Rightarrow> 'w \<Rightarrow> err \<times> 'w"
  lib_Open :: "string \<Rightarrow> 'w \<Rightarrow> err \<times> 'w"
  lib_OpenFile :: "string \<Rightarrow> nat \<Rightarrow> nat \<Rightarrow> 'w \<Rightarrow> err \<times> 'w"
  lib_Chown :: "string \<Rightarrow> nat \<Rightarrow> nat \<Rightarrow> 'w \<Rightarrow> err \<times> 'w"
  lib_Chmod :: "string \<Rightarrow> nat \<Rightarrow> 'w \<Rightarrow> err \<times> 'w"
  lib_run :: "string \<Rightarrow> string list \<Rightarrow> 'w \<Rightarrow> (chunks \<times> err) \<times> 'w"
  lib_run_context :: "string \<Rightarrow> string list \<Rightarrow> 'w \<Rightarrow> (chunks \<times> err) \<times> 'w"
  lib_Unmount :: "string \<Rightarrow> int \<Rightarrow> 'w \<Rightarrow> err \<times> 'w"

subsection \<open>\<open>OSImpl\<close>\<close>

definition OSImpl_Stat :: "'w stdlib \<Rightarrow> string \<Rightarrow> 'w \<Rightarrow> err \<times> 'w" where
  "OSImpl_Stat L filepath = lib_Stat L filepath"

definition OSImpl_Getenv :: "'w stdlib \<Rightarrow> 'w \<Rightarrow> string \<Rightarrow> string" where
  "OSImpl_Getenv L w envName = lib_Getenv L w envName"

definition OSImpl_MkdirAll :: "'w stdlib \<Rightarrow> string \<Rightarrow> nat \<Rightarrow> 'w \<Rightarrow> err \<times> 'w" where
  "OSImpl_MkdirAll L fileName perm = lib_MkdirAll L fileName perm"

definition OSImpl_Open :: "'w stdlib \<Rightarrow> string \<Rightarrow> 'w \<Rightarrow> err \<times> 'w" where
  "OSImpl_Open L fileName = lib_Open L (Clean fileName)"

definition OSImpl_OpenFile :: "'w stdlib \<Rightarrow> string \<Rightarrow> nat \<Rightarrow> nat \<Rightarrow> 'w \<Rightarrow> err \<times> 'w" where
  "OSImpl_OpenFile L fileName flag perm = lib_OpenFile L (Clean fileName) flag perm"

definition OSImpl_Chown :: "'w stdlib \<Rightarrow> string \<Rightarrow> nat \<Rightarrow> nat \<Rightarrow> 'w \<Rightarrow> err \<times> 'w" where
  "OSImpl_Chown L fileName uid gid = lib_Chown L fileName uid gid"

definition OSImpl_Chmod :: "'w stdlib \<Rightarrow> string \<Rightarrow> nat \<Rightarrow> 'w \<Rightarrow> err \<times> 'w" where
  "OSImpl_Chmod L fileName filemode = lib_Chmod L fileName filemode"

subsection \<open>\<open>LocalExecutor\<close> and \<open>SyscallUnmount\<close>\<close>

text \<open>\<open>CombinedOutput\<close> and \<open>Output\<close> of a command.\<close>

definition combined :: "chunks \<Rightarrow> string" where
  "combined out = concat (map snd out)"

definition stdout_of :: "chunks \<Rightarrow> string" where
  "stdout_of out = concat (map snd (filter (\<lambda>c. fst c = Stdout) out))"

definition LocalExecutor_ExecuteCommand ::
  "'w stdlib \<Rightarrow> string \<Rightarrow> string list \<Rightarrow> 'w \<Rightarrow> (string \<times> err) \<times> 'w" where
  "LocalExecutor_ExecuteCommand L name args w =
     (case lib_run L name args w of ((out, e), w) \<Rightarrow> ((combined out, e), w))"

definition LocalExecutor_ExecuteCommandContext ::
  "'w stdlib \<Rightarrow> string \<Rightarrow> string list \<Rightarrow> 'w \<Rightarrow> (string \<times> err) \<times> 'w" where
  "LocalExecutor_ExecuteCommandContext L name args w =
     (case lib_run_context L name args w of ((out, e), w) \<Rightarrow> ((stdout_of out, e), w))"

definition LocalExecutor_Run :: "'w stdlib \<Rightarrow> string \<Rightarrow> string list \<Rightarrow> 'w \<Rightarrow> err \<times> 'w" where
  "LocalExecutor_Run L name args w = (case lib_run L name args w of ((_, e), w) \<Rightarrow> (e, w))"

text \<open>A command is its name and its arguments; a command without a name does not start.\<close>

definition LocalExecutor_GetCombinedOutput :: "'w stdlib \<Rightarrow> string list \<Rightarrow> 'w \<Rightarrow> (string \<times> err) \<times> 'w" where
  "LocalExecutor_GetCombinedOutput L cmd w = (case cmd of
     [] \<Rightarrow> (([], Some ''exec: no command''), w)
   | name # args \<Rightarrow> (case lib_run L name args w of ((out, e), w) \<Rightarrow> ((combined out, e), w)))"

definition LocalExecutor :: "'w stdlib \<Rightarrow> 'w Executor" where
  "LocalExecutor L = \<lparr>ExecuteCommand = LocalExecutor_ExecuteCommand L,
     ExecuteCommandContext = LocalExecutor_ExecuteCommandContext L,
     GetCombinedOutput = LocalExecutor_GetCombinedOutput L\<rparr>"

definition GetLocalExecutor :: "'w stdlib \<Rightarrow> 'w Executor" where
  "GetLocalExecutor L = LocalExecutor L"

definition SyscallUnmount_Unmount :: "'w stdlib \<Rightarrow> string \<Rightarrow> int \<Rightarrow> 'w \<Rightarrow> err \<times> 'w" where
  "SyscallUnmount_Unmount L target flag = lib_Unmount L target flag"

section \<open>Lemmas\<close>

text \<open>The export file is opened under the very path that the code names.\<close>

lemma open_exports_path:
  "OSImpl_Open L pathToExports = lib_Open L pathToExports"
  "OSImpl_OpenFile L pathToExports flag perm = lib_OpenFile L pathToExports flag perm"
  by (simp_all add: OSImpl_Open_def OSImpl_OpenFile_def pathToExports_def exportsDir_def Clean_def HasPrefix_def)

text \<open>Files named with doubled or trailing slashes or with dots are the files of the cleaned path.\<close>

lemma open_same_file:
  "Clean p = Clean q \<Longrightarrow> OSImpl_Open L p = OSImpl_Open L q \<and> OSImpl_OpenFile L p = OSImpl_OpenFile L q"
  by (simp add: OSImpl_Open_def OSImpl_OpenFile_def fun_eq_iff)

lemma combined_append: "combined (xs @ ys) = combined xs @ combined ys"
  by (simp add: combined_def)

lemma stdout_length: "length (stdout_of out) \<le> length (combined out)"
  by (induction out) (auto simp: combined_def stdout_of_def)

lemma stdout_only: "\<forall>c \<in> set out. fst c = Stdout \<Longrightarrow> stdout_of out = combined out"
  by (simp add: combined_def stdout_of_def)

text \<open>
  What a command that fails reports. \<open>umount\<close> writes its reason to the error stream, which
  \<open>ExecuteCommandContext\<close> does not return: the unmounting handlers of the node service see an empty output,
  where \<open>ExecuteCommand\<close> and \<open>GetCombinedOutput\<close> give the reason.
\<close>

lemma context_output_hides_stderr:
  assumes "\<forall>c \<in> set out. fst c = Stderr" and "lib_run_context L name args w = ((out, e), w')"
  shows "fst (LocalExecutor_ExecuteCommandContext L name args w) = ([], e)"
  using assms by (auto simp: LocalExecutor_ExecuteCommandContext_def stdout_of_def filter_empty_conv)

lemma combined_output_agrees:
  "LocalExecutor_GetCombinedOutput L (name # args) w = ExecuteCommand (GetLocalExecutor L) name args w"
  "fst (LocalExecutor_Run L name args w) = snd (fst (ExecuteCommand (GetLocalExecutor L) name args w))"
  by (simp_all add: LocalExecutor_GetCombinedOutput_def GetLocalExecutor_def LocalExecutor_def
      LocalExecutor_ExecuteCommand_def LocalExecutor_Run_def split: prod.split)

end
