(* ===== verification/Spec2Isabelle.thy ===== *)
theory Spec2Isabelle
  imports Teardown Controller_Spec Exports_Sync Os_Impl
begin

text \<open>
  Verification of csm-sharednfs: the layer that a CSI driver puts in front of block volumes so that
  many nodes can write them. One node attaches the volume and exports it over kernel NFS, a
  Kubernetes Service with one endpoint slice gives the export a stable address, and the client
  nodes mount that address. When the exporting node fails, the controller moves the volume.

  \<^bold>\<open>The program and its model.\<close> The sources are the Go files under \<open>src/nfs\<close>. A theory holds one part:

  \<^item> \<open>Prelude\<close>, \<open>Go_Strings\<close>: Go values (errors, panics, maps that may be nil), the \<open>strings\<close> and
    \<open>strconv\<close> functions the program calls, and the rules of the proofs: frame rules (\<open>keeps\<close>),
    weakest preconditions (\<open>wp\<close>), and the contract of a bounded retry loop.
  \<^item> \<open>Simulation\<close>: servers, specifications as labelled transition systems, and the contract under which
    the runs of the one are runs of the other.
  \<^item> \<open>Env\<close>: the records of messages and Kubernetes objects, the state of a process, and the boundary
    of the program. \<open>Sample_Env\<close> is an instance of that boundary, for the witnesses.
  \<^item> \<open>Volume_Ids\<close>: volume ids and service names (\<open>csinfs.go\<close>).
  \<^item> \<open>Exports\<close>: the file \<open>/noderoot/etc/exports\<close> and the kernel's resynchronisation (\<open>exports.go\<close>);
    \<open>Exports_Sync\<close>: the generations that tie the file to the kernel's table.
  \<^item> \<open>PV_Locks\<close>: the locks per volume of the controller and of the node server.
  \<^item> \<open>K8s_Client\<close>: the Kubernetes client (\<open>k8s/k8s.go\<close>); \<open>Kube_Laws\<close>: what the API server promises.
  \<^item> \<open>Nfs_Service\<close>: the NFS server of a node (\<open>nfs_service.go\<close>); \<open>Node_Server\<close>: the abstract specification
    of that server, a set of exported service names, and the proof that the handlers implement it.
  \<^item> \<open>Os_Impl\<close>: the implementations behind the interfaces of the operating system (\<open>OSImpl\<close> of \<open>csinfs.go\<close>,
    \<open>executor.go\<close>, \<open>unmount.go\<close>), with the calls of the standard library as arguments.
  \<^item> \<open>Node_Monitor\<close>: the pingers of the controller (\<open>nodemonitor.go\<close>); \<open>Node_Recovery\<close>: moving the
    volumes of a failed node (\<open>noderecovery.go\<close>).
  \<^item> \<open>Controller\<close>, \<open>Node_Service\<close>: the CSI controller and node services (\<open>controller.go\<close>, \<open>node.go\<close>);
    \<open>Controller_Spec\<close>: the abstract specification of the controller, the clients of each volume, and its
    implementation by the handlers.
  \<^item> \<open>Csi_Nfs\<close>: construction, start and identity of the service (\<open>csinfs.go\<close>, \<open>identity.go\<close>, \<open>env.go\<close>).
  \<^item> \<open>Completion\<close>: requests return; \<open>Cluster\<close> and \<open>Teardown\<close>: the controller with node
    processes that answer its calls, for the first publish and for the last unpublish of a volume.
  \<^item> This theory: a node process from the start of the program.

  \<^bold>\<open>State.\<close> The variables of a process are the record \<open>nfs_state\<close>: the struct \<open>CsiNfsService\<close>, the two
  lock tables, the content of the export file with its generation counters (64-bit words), the
  node statuses, the export counts, the ping rate, and the \<open>world\<close>, which stands for everything
  outside. Handlers are state transformers of \<open>State_Monad\<close>, named as in Go; a pointer result is an
  option, an error \<open>Some\<close> of its text, a panic the outcome \<open>Panicked\<close>. Where Go changes an argument
  through a pointer and the caller reads it again, the handler returns it.

  \<^bold>\<open>The boundary.\<close> The operating system, the commands, the host driver, the client set, the remote
  calls and the runtime are arguments (\<open>env\<close>): functions on the world, about which nothing is
  assumed where a property does not say so. The hypotheses that occur are those of an API server
  that stores what it is given (\<open>kube_laws\<close>), of calls that keep the objects of the store
  (\<open>outside_quiet\<close>), and of commands and mounts that succeed.

  \<^bold>\<open>Loops.\<close> Loops over data are structural. The loops that wait, for a lock or for a node's export,
  take fuel and answer \<open>Running\<close> when it is used up; a free lock needs one step, so that handlers with
  no other such loop return for every fuel but 0. \<open>settles\<close> says that a call gives one answer for all
  fuel from some point on; it holds for every handler that takes a lock (\<open>requests_are_answered\<close>),
  for \<open>ControllerPublishVolume\<close> by the deadline of its request. A pinger's endless loop is given by its rounds.
  Counted retries (10 unmounts, 3 reads of a Service, 2 resynchronisations, 3 slice updates) are
  recursions on the count in the code.

  \<^bold>\<open>Concurrency.\<close> A handler runs without interruption, but for what the code makes observable: the
  lock tables under interleaved calls (\<open>lock_step\<close>), the handlers of the export table under
  interleaving (\<open>sync_step\<close>), the end of the request's context against the answer of a goroutine
  (\<open>select_done\<close>), and the goroutine of \<open>reassignVolume\<close>, which shares the variable \<open>err\<close> and runs at
  the points that a schedule names.

  \<^bold>\<open>Specification and refinement.\<close> What a node promises is the transition system \<open>spec_step\<close> on sets of
  service names; the abstraction \<open>exported_names\<close> reads the set off the export file, for names of
  which none starts with another, and \<open>node_table\<close> is the invariant of the simulation. What the
  controller promises is \<open>ctl_step\<close> on maps from volumes to sets of nodes, read off the labels of the
  Services (\<open>client_sets\<close>), with the invariant \<open>store_ok\<close>. The specifications leave open only what a
  failed request or a dump may leave behind.

  \<^bold>\<open>What the lemmas show.\<close> Each handler has its outcome on every branch, errors and panics included;
  the invariants of the export table, of the locks, of the node statuses and of the objects in the
  store; that exporting and unexporting, publishing and unpublishing undo each other; that a published
  volume is in the export table of the node its slice names and a volume without clients is not, and that a recovery which reports
  success has moved the volume; and, as theorems about the code as it is, where it
  does not keep what it promises.

  \<^bold>\<open>Not modelled.\<close> Log lines, measured times and \<open>finish\<close>; the mutexes that only guard single
  variables, and \<open>mountMutex\<close>; the system calls below the packages \<open>os\<close>, \<open>os/exec\<close> and \<open>syscall\<close>; gRPC's transport; the code that protoc and mockgen generate.
\<close>

section \<open>A node process from its start\<close>

text \<open>\<open>BeforeServe\<close> leaves the export file and the locks of a fresh process alone.\<close>

lemma started_state:
  assumes "run_state (do { _ \<leftarrow> New provisioner; BeforeServe E csi_mode }) (package_start file w) = ((e, start), s)"
  shows "exports_file s = file \<and> nfsPVLock s = Map.empty \<and> PVLock s = Map.empty \<and>
    generation s = 0 \<and> syncedGeneration s = 0 \<and> (e = None \<longrightarrow> set_up E (nfsService s) start \<and> mode (nfsService s) = csi_mode)"
proof -
  let ?u = "(package_start file w)\<lparr>nfsService := new_service provisioner\<rparr>"
  have run: "run_state (BeforeServe E csi_mode) ?u = ((e, start), s)" using assms by (simp add: New_def)
  have p: "process s = process (?u\<lparr>nfsService := nfsService s\<rparr>)"
    using wpD[OF before_serve_effect run] by (simp add: only_settings_def)
  show ?thesis
    using wpD[OF before_serve_effect run] process_fields(1-5)[OF p] by (simp add: package_start_def)
qed

lemma node_table_file: "node_table E s \<Longrightarrow> exports_file t = exports_file s \<Longrightarrow> node_table E t \<and> export_entries t = export_entries s"
  by (auto simp: node_table_def exports_inv_def export_entries_def)

text \<open>
  C16: a node process from its start. The program starts with its variables as they are declared,
  is constructed and set up as a node, and then serves requests. If the set-up succeeds, the NFS server
  is started at the node's address, and the answers are a run of the specification from the names
  that the export file held when the process started: what the process before it exported is
  still exported, and the requests change the set as they say.
\<close>

theorem started_node_refines_export_set:
  assumes "node_table E (package_start file w)" and "separate_names E N" and "mounts_at_service_name E" and "fuel \<noteq> 0"
    and start: "run_state (do { _ \<leftarrow> New provisioner; BeforeServe E ''node'' }) (package_start file w) = ((None, st), s)"
    and "\<forall>rq \<in> set rqs. request_ok E N s rq"
    and "run_state (serve_all E fuel rqs) s = (as, t)"
  shows "st = NfsServer (svc_nodeIPAddress (nfsService s)) (nfsClientServicePort (nfsService s)) \<and>
    runs (spec_step (exported_in E N)) (exported_names E N (package_start file w)) (map2 (event_of E) rqs as) (exported_names E N t) \<and>
    node_table E t \<and> nfsPVLock t = Map.empty"
proof -
  note s = started_state[OF start]
  have onfile: "exports_file s = exports_file (package_start file w)" using s by (simp add: package_start_def)
  have tab: "node_table E s" and same: "export_entries s = export_entries (package_start file w)"
    using node_table_file[OF assms(1) onfile] by simp_all
  have free: "nfsPVLock s = Map.empty" using s by blast
  from serve_all_refines[OF assms(2-4) free tab assms(6,7)] same s show ?thesis
    by (auto simp: exported_names_def set_up_def)
qed

theorem started_node_refines_export_set_witness:
  "\<exists>st s. run_state (do { _ \<leftarrow> New ''p''; BeforeServe named_env ''node'' }) (package_start (Some []) (world sample_controller)) =
       ((None, st), s) \<and>
     st = NfsServer (svc_nodeIPAddress (nfsService s)) (nfsClientServicePort (nfsService s)) \<and>
     (\<exists>as t. run_state (serve_all named_env 1 [GetExportsRq, PingRq \<lparr>ping_NodeIpAddress = [], ping_DumpAllExports = True\<rparr>]) s = (as, t) \<and>
       runs (spec_step (exported_in named_env {''nfs-v1''})) {}
         (map2 (event_of named_env) [GetExportsRq, PingRq \<lparr>ping_NodeIpAddress = [], ping_DumpAllExports = True\<rparr>] as)
         (exported_names named_env {''nfs-v1''} t))"
proof -
  let ?rqs = "[GetExportsRq, PingRq \<lparr>ping_NodeIpAddress = [], ping_DumpAllExports = True\<rparr>]"
  let ?p = "package_start (Some []) (world sample_controller)"
  have env: "opSys named_env = sample_os\<lparr>os_Getenv := (\<lambda>_ v. if v = EnvCSINodeName then ''n1'' else [])\<rparr>"
    "vcsi named_env = vcsi sample_env" "NfsExportDirectory named_env = NfsExportDirectory sample_env"
    by (simp_all add: named_env_def sample_env_def)
  have entries: "export_entries ?p = []" using entries_sample_empty by (simp add: export_entries_def package_start_def sample_state_def)
  have io: "io_ok named_env" using io_ok_sample by (simp add: io_ok_def env sample_env_def)
  have tab: "node_table named_env ?p" using exports_inv_sample_empty entries io
    by (simp add: node_table_def exports_inv_def package_start_def sample_state_def unlines_def)
  have sep: "separate_names named_env {''nfs-v1''}" using sample_separate by (simp add: separate_names_def env)
  have mounts: "mounts_at_service_name named_env" using sample_mounts(1) by (simp add: mounts_at_service_name_def env)
  have node: "store_get (w_nodes (world sample_controller)) ''n1'' = Inr (snd (hd (w_nodes (world sample_controller))))"
    "node_addresses (snd (hd (w_nodes (world sample_controller)))) = [''10.0.0.1'']"
    by (simp_all add: sample_controller_def store_get_def)
  have vars: "EnvNFSServerPort \<noteq> EnvCSINodeName" "EnvNFSClientServicePort \<noteq> EnvCSINodeName" "EnvPodCIDR \<noteq> EnvCSINodeName"
    by (simp_all add: EnvNFSServerPort_def EnvNFSClientServicePort_def EnvPodCIDR_def EnvCSINodeName_def)
  have "\<exists>st s. run_state (do { _ \<leftarrow> New ''p''; BeforeServe named_env ''node'' }) ?p = ((None, st), s)"
    by (simp add: New_def BeforeServe_def validateGlobalVariables_def connect_and_start_def getenv_def set_service_def
          Connect_def GetNode_def named_ops node vars package_start_def)
  then obtain st s where start: "run_state (do { _ \<leftarrow> New ''p''; BeforeServe named_env ''node'' }) ?p = ((None, st), s)"
    by blast
  obtain as t where run: "run_state (serve_all named_env 1 ?rqs) s = (as, t)" by (metis surj_pair)
  have ok: "\<forall>rq \<in> set ?rqs. request_ok named_env {''nfs-v1''} s rq" by simp
  have none: "exported_names named_env {''nfs-v1''} ?p = {}" by (simp add: exported_names_def exported_in_def entries)
  from started_node_refines_export_set[OF tab sep mounts one_neq_zero start ok run] start run none
  show ?thesis by auto
qed

end
